(* ===== verification/Prelude.thy ===== *)
theory Prelude
  imports Main "HOL-Library.Sublist" "HOL-Library.List_Lexorder" "HOL-Library.Char_ord"
    "HOL-Library.Product_Lexorder" "HOL-Library.AList" "HOL-Library.Multiset" "HOL-Library.Word"
begin

text \<open>
  Shared ground of the development: the named collections the component theories add to, the
  functions of Go's \<^verbatim>\<open>strings\<close> package the daemon uses (on byte strings; letter case and
  white space are the ASCII ones), and generic lemmas on lists and association lists.
\<close>

named_theorems go_defs \<open>definitions of the Go standard library functions of the model\<close>
named_theorems frame \<open>what an operation leaves unchanged\<close>

section \<open>Byte strings: the parts of Go's strings package\<close>

abbreviation slash :: char where "slash \<equiv> CHR ''/''"

definition has_prefix :: "string \<Rightarrow> string \<Rightarrow> bool" where
  [go_defs]: "has_prefix s p \<longleftrightarrow> prefix p s"

definition has_suffix :: "string \<Rightarrow> string \<Rightarrow> bool" where
  [go_defs]: "has_suffix s p \<longleftrightarrow> prefix (rev p) (rev s)"

definition trim_prefix :: "string \<Rightarrow> string \<Rightarrow> string" where
  [go_defs]: "trim_prefix s p = (if has_prefix s p then drop (length p) s else s)"

definition trim_suffix :: "string \<Rightarrow> string \<Rightarrow> string" where
  [go_defs]: "trim_suffix s p = (if has_suffix s p then take (length s - length p) s else s)"

fun contains :: "string \<Rightarrow> string \<Rightarrow> bool" where
  "contains [] p = (p = [])"
| "contains (c # s) p = (prefix p (c # s) \<or> contains s p)"

text \<open>\<open>strings.Split\<close>, \<open>SplitN\<close>, \<open>Cut\<close> and \<open>Join\<close> with a separator of one byte.\<close>

fun split_on :: "char \<Rightarrow> string \<Rightarrow> string list" where
  "split_on c [] = [[]]"
| "split_on c (x # s) =
     (if x = c then [] # split_on c s
      else (case split_on c s of [] \<Rightarrow> [[x]] | f # fs \<Rightarrow> (x # f) # fs))"

fun split_n :: "nat \<Rightarrow> char \<Rightarrow> string \<Rightarrow> string list" where
  "split_n 0 c s = []"
| "split_n (Suc 0) c s = [s]"
| "split_n (Suc (Suc n)) c s =
     (if c \<in> set s
      then takeWhile (\<lambda>x. x \<noteq> c) s # split_n (Suc n) c (tl (dropWhile (\<lambda>x. x \<noteq> c) s))
      else [s])"

definition cut_at :: "char \<Rightarrow> string \<Rightarrow> string \<times> string \<times> bool" where
  [go_defs]: "cut_at c s =
     (if c \<in> set s then (takeWhile (\<lambda>x. x \<noteq> c) s, tl (dropWhile (\<lambda>x. x \<noteq> c) s), True)
      else (s, [], False))"

fun join_with :: "char \<Rightarrow> string list \<Rightarrow> string" where
  "join_with c [] = []"
| "join_with c [f] = f"
| "join_with c (f # g # fs) = f @ c # join_with c (g # fs)"

definition replace_char :: "char \<Rightarrow> string \<Rightarrow> string \<Rightarrow> string" where
  [go_defs]: "replace_char c r s = concat (map (\<lambda>x. if x = c then r else [x]) s)"

definition is_upper :: "char \<Rightarrow> bool" where
  "is_upper c \<longleftrightarrow> (65::nat) \<le> of_char c \<and> of_char c \<le> (90::nat)"

definition is_lower :: "char \<Rightarrow> bool" where
  "is_lower c \<longleftrightarrow> (97::nat) \<le> of_char c \<and> of_char c \<le> (122::nat)"

definition is_digit :: "char \<Rightarrow> bool" where
  "is_digit c \<longleftrightarrow> (48::nat) \<le> of_char c \<and> of_char c \<le> (57::nat)"

definition is_space :: "char \<Rightarrow> bool" where
  "is_space c \<longleftrightarrow> c \<in> {CHR '' '', CHR 0x09, CHR 0x0A, CHR 0x0B, CHR 0x0C, CHR 0x0D}"

definition lower_char :: "char \<Rightarrow> char" where
  "lower_char c = (if is_upper c then char_of ((of_char c :: nat) + 32) else c)"

definition to_lower :: "string \<Rightarrow> string" where
  [go_defs]: "to_lower s = map lower_char s"

definition trim_right_by :: "(char \<Rightarrow> bool) \<Rightarrow> string \<Rightarrow> string" where
  [go_defs]: "trim_right_by P s = rev (dropWhile P (rev s))"

definition trim_by :: "(char \<Rightarrow> bool) \<Rightarrow> string \<Rightarrow> string" where
  [go_defs]: "trim_by P s = trim_right_by P (dropWhile P s)"

definition trim_space :: "string \<Rightarrow> string" where
  [go_defs]: "trim_space s = trim_by is_space s"

section \<open>Facts about the string functions\<close>

lemma has_prefix_append [simp]: "has_prefix (p @ s) p"
  by (simp add: has_prefix_def)

lemma has_prefixE:
  assumes "has_prefix s p" obtains r where "s = p @ r"
  using assms by (auto simp: has_prefix_def prefix_def)

lemma has_suffix_iff: "has_suffix s p \<longleftrightarrow> (\<exists>r. s = r @ p)"
proof
  assume "has_suffix s p"
  then obtain r where "rev s = rev p @ r" by (auto simp: has_suffix_def prefix_def)
  then have "s = rev r @ p" by (metis rev_append rev_rev_ident)
  then show "\<exists>r. s = r @ p" by blast
next
  assume "\<exists>r. s = r @ p"
  then show "has_suffix s p" by (auto simp: has_suffix_def)
qed

lemma trim_prefix_append [simp]: "trim_prefix (p @ s) p = s"
  by (simp add: trim_prefix_def)

lemma trim_prefix_join: "has_prefix s p \<Longrightarrow> p @ trim_prefix s p = s"
  by (auto elim: has_prefixE)

lemma contains_append: "contains (a @ p @ b) p"
proof (induction a)
  case Nil
  have "prefix p (p @ b)" by simp
  then show ?case by (cases "p @ b") (auto simp: append_eq_Cons_conv)
qed simp

lemma split_on_neq_Nil [simp]: "split_on c s \<noteq> []"
  by (induction s) (auto split: list.splits)

lemma split_on_notin: "c \<notin> set s \<Longrightarrow> split_on c s = [s]"
  by (induction s) auto

lemma split_on_append:
  "split_on c (s @ c # t) = split_on c s @ split_on c t"
  by (induction s) (auto split: list.splits)

lemma split_on_parts: "f \<in> set (split_on c s) \<Longrightarrow> c \<notin> set f"
  by (induction s arbitrary: f) (auto split: list.splits if_splits)

lemma join_split: "join_with c (split_on c s) = s"
proof (induction s)
  case (Cons x s)
  obtain f fs where fs: "split_on c s = f # fs" by (cases "split_on c s") auto
  with Cons.IH have "join_with c (f # fs) = s" by simp
  with fs show ?case by (cases fs) auto
qed simp

lemma split_join:
  "fs \<noteq> [] \<Longrightarrow> \<forall>f \<in> set fs. c \<notin> set f \<Longrightarrow> split_on c (join_with c fs) = fs"
  by (induction c fs rule: join_with.induct) (auto simp: split_on_notin split_on_append)

lemma join_with_Cons: "fs \<noteq> [] \<Longrightarrow> join_with c (f # fs) = f @ c # join_with c fs"
  by (cases fs) auto

lemma join_with_append:
  "fs \<noteq> [] \<Longrightarrow> gs \<noteq> [] \<Longrightarrow> join_with c (fs @ gs) = join_with c fs @ c # join_with c gs"
  by (induction c fs rule: join_with.induct) (auto simp: join_with_Cons)

lemma takeWhile_notin: "c \<notin> set (takeWhile (\<lambda>x. x \<noteq> c) s)"
  by (auto dest: set_takeWhileD)

lemma takeWhile_dropWhile_at:
  "c \<in> set s \<Longrightarrow> s = takeWhile (\<lambda>x. x \<noteq> c) s @ c # tl (dropWhile (\<lambda>x. x \<noteq> c) s)"
  by (induction s) auto

lemma split_n_notin_hd: "f # fs = split_n (Suc (Suc n)) c s \<Longrightarrow> c \<notin> set f"
  by (auto simp: takeWhile_notin split: if_splits)

lemma dropWhile_none: "(\<And>x. x \<in> set s \<Longrightarrow> \<not> P x) \<Longrightarrow> dropWhile P s = s"
  by (cases s) auto

lemma trim_right_by_none: "(\<And>x. x \<in> set s \<Longrightarrow> \<not> P x) \<Longrightarrow> trim_right_by P s = s"
  using dropWhile_none [of "rev s" P] by (simp add: trim_right_by_def)

lemma trim_by_none:
  assumes "\<And>x. x \<in> set s \<Longrightarrow> \<not> P x"
  shows "trim_by P s = s"
proof -
  have "dropWhile P s = s" using assms by (cases s) auto
  then show ?thesis using assms by (simp add: trim_by_def trim_right_by_none)
qed

lemma set_trim_right_by: "set (trim_right_by P s) \<subseteq> set s"
  by (auto simp: trim_right_by_def dest: set_dropWhileD)

lemma set_trim_by: "set (trim_by P s) \<subseteq> set s"
  using set_trim_right_by set_dropWhileD by (fastforce simp: trim_by_def)

lemma trim_right_by_last:
  assumes "trim_right_by P s \<noteq> []" shows "\<not> P (last (trim_right_by P s))"
proof -
  from assms have "dropWhile P (rev s) \<noteq> []" by (simp add: trim_right_by_def)
  then show ?thesis by (simp add: trim_right_by_def last_rev hd_dropWhile)
qed

lemma trim_right_by_prefix: "prefix (trim_right_by P s) s"
proof -
  have "rev s = takeWhile P (rev s) @ dropWhile P (rev s)" by simp
  then have "s = rev (dropWhile P (rev s)) @ rev (takeWhile P (rev s))"
    by (metis rev_append rev_rev_ident)
  then show ?thesis unfolding trim_right_by_def prefix_def by blast
qed

lemma trim_by_ends:
  assumes "trim_by P s \<noteq> []"
  shows "\<not> P (hd (trim_by P s)) \<and> \<not> P (last (trim_by P s))"
proof -
  let ?d = "dropWhile P s"
  obtain r where r: "?d = trim_right_by P ?d @ r"
    using trim_right_by_prefix by (auto simp: prefix_def)
  from assms have ne: "trim_right_by P ?d \<noteq> []" by (simp add: trim_by_def)
  then have "hd ?d = hd (trim_right_by P ?d)" by (metis hd_append2 r)
  moreover from ne r have "?d \<noteq> []" by (metis append_is_Nil_conv)
  then have "\<not> P (hd ?d)" by (rule hd_dropWhile)
  ultimately show ?thesis using trim_right_by_last ne by (simp add: trim_by_def)
qed

lemma lower_char_idem [simp]: "lower_char (lower_char c) = lower_char c"
proof (cases "is_upper c")
  case True
  let ?n = "(of_char c :: nat) + 32"
  from True have "?n < 256" and "97 \<le> ?n" by (simp_all add: is_upper_def)
  then have "(of_char (char_of ?n :: char) :: nat) = ?n" by simp
  with \<open>97 \<le> ?n\<close> have "\<not> is_upper (char_of ?n)" by (simp add: is_upper_def)
  with True show ?thesis by (simp add: lower_char_def)
next
  case False then show ?thesis by (simp add: lower_char_def)
qed

lemma to_lower_idem [simp]: "to_lower (to_lower s) = to_lower s"
  by (simp add: to_lower_def)

lemma to_lower_Nil [simp]: "to_lower s = [] \<longleftrightarrow> s = []"
  by (simp add: to_lower_def)

section \<open>Association lists as finite maps\<close>

lemma map_of_update [simp]: "map_of (AList.update k v al) = (map_of al)(k \<mapsto> v)"
  by (simp add: update_conv')

lemma map_of_delete [simp]: "map_of (AList.delete k al) = (map_of al)(k := None)"
  by (simp add: delete_conv')

lemma dom_map_of: "dom (map_of al) = fst ` set al"
  by (rule dom_map_of_conv_image_fst)

lemma sorted_key_nth: "sorted (map f xs) \<Longrightarrow> m \<le> n \<Longrightarrow> n < length xs \<Longrightarrow> f (xs ! m) \<le> f (xs ! n)"
  using sorted_nth_mono [of "map f xs" m n] by (simp del: sorted_map)

lemma sorted_key_last:
  assumes "sorted (map f xs)" "x \<in> set xs" shows "f x \<le> f (last xs)"
proof -
  obtain k where k: "k < length xs" "xs ! k = x" using assms(2) by (auto simp only: in_set_conv_nth)
  then have "f (xs ! k) \<le> f (xs ! (length xs - 1))" by (intro sorted_key_nth [OF assms(1)]) auto
  moreover have "xs \<noteq> []" using assms(2) by auto
  ultimately show ?thesis using k(2) by (simp add: last_conv_nth)
qed

lemma find_Some_in: "List.find P xs = Some x \<Longrightarrow> x \<in> set xs \<and> P x"
  by (induction xs) (auto split: if_splits)

lemma find_NoneD: "List.find P xs = None \<Longrightarrow> x \<in> set xs \<Longrightarrow> \<not> P x"
  by (auto simp: find_None_iff)

end
