(* ===== verification/GoPath.thy ===== *)
theory GoPath
  imports Prelude
begin

text \<open>
  Go's \<^verbatim>\<open>path/filepath\<close> on Unix: \<open>Clean\<close>, \<open>Join\<close>, \<open>Dir\<close>, \<open>IsAbs\<close>, as the lexical
  algorithms they are (components pushed on a stack, \<open>..\<close> popping one), and what the daemon's
  containment checks need of them: a cleaned absolute path is canonical, and a canonical path
  that has another one plus a slash as a prefix lies under it component by component.
\<close>

definition is_abs :: "string \<Rightarrow> bool" where
  [go_defs]: "is_abs p \<longleftrightarrow> has_prefix p ''/''"

fun clean_push :: "bool \<Rightarrow> string \<Rightarrow> string list \<Rightarrow> string list" where
  "clean_push rooted c st =
     (if c = [] \<or> c = ''.'' then st
      else if c = ''..'' then
        (case st of [] \<Rightarrow> (if rooted then [] else [''..''])
         | t # ts \<Rightarrow> (if t = ''..'' then ''..'' # st else ts))
      else c # st)"

declare clean_push.simps [simp del]

definition clean_comps :: "bool \<Rightarrow> string \<Rightarrow> string list" where
  "clean_comps rooted p = rev (fold (clean_push rooted) (split_on slash p) [])"

definition clean :: "string \<Rightarrow> string" where
  "clean p =
     (let rooted = is_abs p; cs = clean_comps rooted p
      in if rooted then slash # join_with slash cs
         else if cs = [] then ''.'' else join_with slash cs)"

fun join_path :: "string list \<Rightarrow> string" where
  "join_path [] = []"
| "join_path (e # es) = (if e = [] then join_path es else clean (join_with slash (e # es)))"

definition dir_of :: "string \<Rightarrow> string" where
  "dir_of p = clean (rev (dropWhile (\<lambda>c. c \<noteq> slash) (rev p)))"

section \<open>Canonical paths\<close>

definition normal_comp :: "string \<Rightarrow> bool" where
  "normal_comp c \<longleftrightarrow> c \<noteq> [] \<and> c \<noteq> ''.'' \<and> c \<noteq> ''..'' \<and> slash \<notin> set c"

definition canonical :: "string \<Rightarrow> bool" where
  "canonical p \<longleftrightarrow> is_abs p \<and> (p = ''/'' \<or> list_all normal_comp (split_on slash (tl p)))"

definition path_under :: "string \<Rightarrow> string \<Rightarrow> bool" where
  "path_under d p \<longleftrightarrow> has_prefix p (d @ ''/'') \<and>
     list_all normal_comp (split_on slash (drop (length d + 1) p))"

lemma normal_comp_split: "list_all normal_comp cs \<Longrightarrow> \<forall>c \<in> set cs. slash \<notin> set c"
  by (auto simp: list_all_iff normal_comp_def)

lemma canonical_iff:
  "canonical p \<longleftrightarrow> (\<exists>cs. list_all normal_comp cs \<and> p = slash # join_with slash cs)"
proof
  assume "canonical p"
  then obtain q where p: "p = slash # q" and d: "p = ''/'' \<or> list_all normal_comp (split_on slash q)"
    by (auto simp: canonical_def is_abs_def has_prefix_def prefix_def)
  show "\<exists>cs. list_all normal_comp cs \<and> p = slash # join_with slash cs"
  proof (cases "p = ''/''")
    case True then show ?thesis by (intro exI [of _ "[]"]) simp
  next
    case False
    with d p show ?thesis by (intro exI [of _ "split_on slash q"]) (simp add: join_split)
  qed
next
  assume "\<exists>cs. list_all normal_comp cs \<and> p = slash # join_with slash cs"
  then obtain cs where cs: "list_all normal_comp cs" "p = slash # join_with slash cs" by blast
  then show "canonical p"
    by (cases "cs = []")
       (auto simp: canonical_def is_abs_def has_prefix_def split_join normal_comp_split)
qed

lemma clean_push_normal: "normal_comp c \<Longrightarrow> clean_push r c st = c # st"
  by (simp add: normal_comp_def clean_push.simps)

lemma fold_push_normal: "list_all normal_comp cs \<Longrightarrow> fold (clean_push r) cs st = rev cs @ st"
  by (induction cs arbitrary: st) (auto simp: clean_push_normal)

lemma clean_push_rooted:
  "slash \<notin> set c \<Longrightarrow> list_all normal_comp st \<Longrightarrow> list_all normal_comp (clean_push True c st)"
  by (auto simp: normal_comp_def clean_push.simps split: list.splits)

lemma fold_push_rooted:
  "\<forall>c \<in> set cs. slash \<notin> set c \<Longrightarrow> list_all normal_comp st \<Longrightarrow>
   list_all normal_comp (fold (clean_push True) cs st)"
  by (induction cs arbitrary: st) (auto simp: clean_push_rooted)

lemma clean_comps_rooted: "list_all normal_comp (clean_comps True p)"
  using fold_push_rooted [of "split_on slash p" "[]"]
  by (auto simp: clean_comps_def list_all_iff dest: split_on_parts)

lemma clean_abs: "is_abs p \<Longrightarrow> clean p = slash # join_with slash (clean_comps True p)"
  by (simp add: clean_def)

lemma is_abs_Cons [simp]: "is_abs (slash # q)"
  by (simp add: is_abs_def has_prefix_def)

lemma is_absE: assumes "is_abs p" obtains q where "p = slash # q"
  using assms by (auto simp: is_abs_def has_prefix_def prefix_def)

lemma is_abs_append: "is_abs d \<Longrightarrow> is_abs (d @ s)"
  by (auto elim: is_absE)

lemma clean_canonical: "is_abs p \<Longrightarrow> canonical (clean p)"
  unfolding canonical_iff using clean_abs clean_comps_rooted by blast

lemma canonical_abs: "canonical p \<Longrightarrow> is_abs p"
  by (simp add: canonical_def)

lemma clean_comps_canonical:
  assumes "list_all normal_comp cs" shows "clean_comps True (slash # join_with slash cs) = cs"
proof (cases "cs = []")
  case True then show ?thesis by (simp add: clean_comps_def clean_push.simps)
next
  case False
  then have "split_on slash (join_with slash cs) = cs"
    using assms by (intro split_join) (auto simp: normal_comp_split)
  then show ?thesis by (simp add: clean_comps_def clean_push.simps fold_push_normal assms)
qed

lemma clean_id [simp]: "canonical p \<Longrightarrow> clean p = p"
  unfolding canonical_iff by (auto simp: clean_abs clean_comps_canonical)

lemma clean_idem: "is_abs p \<Longrightarrow> clean (clean p) = clean p"
  by (simp add: clean_canonical)

lemma canonical_under:
  assumes p: "canonical p" and pre: "has_prefix p (d @ ''/'')" and d: "canonical d" "d \<noteq> ''/''"
  shows "path_under d p"
proof -
  obtain r where r: "p = d @ slash # r" using pre by (auto elim: has_prefixE)
  obtain e where e: "d = slash # e" using d canonical_abs by (auto elim: is_absE)
  with r have "p \<noteq> ''/''" by simp
  have "list_all normal_comp (split_on slash (tl p))"
    using p \<open>p \<noteq> ''/''\<close> by (simp add: canonical_def)
  then have "list_all normal_comp (split_on slash r)"
    by (simp add: r e split_on_append)
  then show ?thesis by (simp add: path_under_def has_prefix_def r)
qed

lemma clean_comps_child:
  assumes "normal_comp n" shows "clean_comps r (d @ slash # n) = clean_comps r d @ [n]"
  using assms by (simp add: clean_comps_def split_on_append split_on_notin normal_comp_def
      clean_push_normal)

lemma clean_child:
  assumes "is_abs d" "normal_comp n" "clean d \<noteq> ''/''"
  shows "clean (d @ slash # n) = clean d @ slash # n"
proof -
  have "clean_comps True d \<noteq> []" using assms(1,3) by (auto simp: clean_abs)
  then show ?thesis
    using assms(1,2) by (simp add: clean_abs is_abs_append clean_comps_child join_with_append)
qed

lemma join_path_abs: "is_abs d \<Longrightarrow> is_abs (join_path (d # es))"
  by (cases es) (auto elim!: is_absE simp: clean_def is_abs_def has_prefix_def)

lemma join_path_child:
  "is_abs d \<Longrightarrow> normal_comp n \<Longrightarrow> clean d \<noteq> ''/'' \<Longrightarrow> join_path [d, n] = clean d @ slash # n"
  by (auto elim!: is_absE simp: clean_child)

lemma join_path_canonical: "is_abs d \<Longrightarrow> canonical (join_path (d # es))"
  by (cases es) (auto elim!: is_absE simp: clean_canonical)

lemma clean_trailing: "canonical d \<Longrightarrow> clean (d @ ''/'') = d"
proof -
  assume "canonical d"
  then obtain cs where cs: "list_all normal_comp cs" "d = slash # join_with slash cs"
    unfolding canonical_iff by blast
  have "clean_comps True (d @ ''/'') = clean_comps True d"
    using split_on_append [of slash d "[]"] by (simp add: clean_comps_def clean_push.simps)
  then show ?thesis
    using cs clean_comps_canonical [OF cs(1)] by (simp add: clean_abs is_abs_append)
qed

lemma dir_of_child: "canonical d \<Longrightarrow> slash \<notin> set n \<Longrightarrow> dir_of (d @ slash # n) = d"
proof -
  assume d: "canonical d" and n: "slash \<notin> set n"
  have "dropWhile (\<lambda>c. c \<noteq> slash) (rev n @ slash # rev d) = slash # rev d"
    using n by (subst dropWhile_append2) auto
  then show ?thesis using clean_trailing [OF d] by (simp add: dir_of_def)
qed

lemma normal_comp_suffix: "slash \<notin> set n \<Longrightarrow> normal_comp (n @ ''.toml'')"
  by (auto simp: normal_comp_def append_eq_Cons_conv)

declare join_path.simps [simp del]

end
