(* ===== verification/GoNum.thy ===== *)
theory GoNum
  imports Prelude
begin

text \<open>
  The number formats of Go's \<^verbatim>\<open>strconv\<close> and \<^verbatim>\<open>fmt\<close> the daemon writes to and reads from
  its state files: decimal formatting (\<open>%d\<close>) and \<open>ParseInt(s, 10, 64)\<close> / \<open>Atoi\<close> with their
  syntax and range errors, and that reading what was written gives the number back.
\<close>

definition digit_char :: "nat \<Rightarrow> char" where
  "digit_char d = char_of (48 + d)"

fun nat_to_dec :: "nat \<Rightarrow> string" where
  "nat_to_dec n = (if n < 10 then [digit_char n] else nat_to_dec (n div 10) @ [digit_char (n mod 10)])"

declare nat_to_dec.simps [simp del]

definition int_to_dec :: "int \<Rightarrow> string" where
  "int_to_dec i = (if i < 0 then CHR ''-'' # nat_to_dec (nat (- i)) else nat_to_dec (nat i))"

definition digit_val :: "char \<Rightarrow> nat" where
  "digit_val c = of_char c - 48"

definition dec_value :: "string \<Rightarrow> nat" where
  "dec_value s = foldl (\<lambda>n c. 10 * n + digit_val c) 0 s"

definition int64_min :: int where "int64_min = - (2 ^ 63)"
definition int64_max :: int where "int64_max = 2 ^ 63 - 1"

definition in_int64 :: "int \<Rightarrow> bool" where
  "in_int64 i \<longleftrightarrow> int64_min \<le> i \<and> i \<le> int64_max"

datatype num_error = ErrSyntax | ErrRange

text \<open>\<open>strconv.ParseInt(s, 10, 64)\<close>: an optional sign, at least one digit, nothing else.\<close>

definition parse_digits :: "string \<Rightarrow> num_error + nat" where
  "parse_digits s = (if s \<noteq> [] \<and> list_all is_digit s then Inr (dec_value s) else Inl ErrSyntax)"

definition parse_int :: "string \<Rightarrow> num_error + int" where
  "parse_int s =
     (let neg = has_prefix s ''-'';
          ds = (if neg \<or> has_prefix s ''+'' then tl s else s)
      in case parse_digits ds of
           Inl e \<Rightarrow> Inl e
         | Inr n \<Rightarrow> (let i = (if neg then - int n else int n)
                    in if in_int64 i then Inr i else Inl ErrRange))"

text \<open>Go's \<open>int64\<close> addition wraps; \<open>wrap64\<close> is the two's complement reading.\<close>

definition wrap64 :: "int \<Rightarrow> int" where
  "wrap64 i = (i + 2 ^ 63) mod 2 ^ 64 - 2 ^ 63"

lemma wrap64_in_range: "in_int64 (wrap64 i)"
proof -
  have "0 \<le> (i + 2 ^ 63) mod (2 ^ 64 :: int)" and "(i + 2 ^ 63) mod (2 ^ 64 :: int) < 2 ^ 64"
    by (rule pos_mod_sign, simp) (rule pos_mod_bound, simp)
  then show ?thesis by (simp add: in_int64_def wrap64_def int64_min_def int64_max_def)
qed

lemma wrap64_id: "in_int64 i \<Longrightarrow> wrap64 i = i"
  by (simp add: in_int64_def wrap64_def int64_min_def int64_max_def)

lemma digit_char_props:
  assumes "d < 10" shows "is_digit (digit_char d)" and "digit_val (digit_char d) = d"
proof -
  from assms have "(of_char (digit_char d) :: nat) = 48 + d" by (simp add: digit_char_def)
  with assms show "is_digit (digit_char d)" and "digit_val (digit_char d) = d"
    by (auto simp: is_digit_def digit_val_def)
qed

lemma nat_to_dec_digits: "nat_to_dec n \<noteq> [] \<and> list_all is_digit (nat_to_dec n)"
proof (induction n rule: nat_to_dec.induct)
  case (1 n)
  then show ?case
    by (subst (1 2) nat_to_dec.simps) (simp add: digit_char_props list_all_iff ball_Un)
qed

lemma dec_value_snoc: "dec_value (s @ [c]) = 10 * dec_value s + digit_val c"
  by (simp add: dec_value_def)

lemma dec_value_nat_to_dec: "dec_value (nat_to_dec n) = n"
proof (induction n rule: nat_to_dec.induct)
  case (1 n)
  show ?case
  proof (cases "n < 10")
    case True
    then show ?thesis
      by (simp add: nat_to_dec.simps [of n] dec_value_def digit_char_props)
  next
    case False
    then have "dec_value (nat_to_dec n) = 10 * (n div 10) + n mod 10"
      using 1 by (simp add: nat_to_dec.simps [of n] dec_value_snoc digit_char_props)
    then show ?thesis by simp
  qed
qed

lemma digit_not_special:
  "is_digit c \<Longrightarrow> c \<noteq> CHR ''-'' \<and> c \<noteq> CHR ''+'' \<and> \<not> is_space c \<and> c \<noteq> slash"
  by (auto simp: is_digit_def is_space_def)

lemma parse_digits_nat: "parse_digits (nat_to_dec n) = Inr n"
  using nat_to_dec_digits by (simp add: parse_digits_def dec_value_nat_to_dec)

lemma nat_to_dec_no_sign:
  "\<not> has_prefix (nat_to_dec n) ''-'' \<and> \<not> has_prefix (nat_to_dec n) ''+''"
  using nat_to_dec_digits [of n] digit_not_special
  by (cases "nat_to_dec n") (auto simp: has_prefix_def)

lemma parse_int_dec: "in_int64 i \<Longrightarrow> parse_int (int_to_dec i) = Inr i"
  using nat_to_dec_no_sign
  by (auto simp: parse_int_def int_to_dec_def parse_digits_nat has_prefix_def)

lemma int_to_dec_nospace: "x \<in> set (int_to_dec i) \<Longrightarrow> \<not> is_space x"
  using nat_to_dec_digits digit_not_special
  by (auto simp: int_to_dec_def list_all_iff is_space_def split: if_splits)

lemma trim_dec_line: "trim_space (int_to_dec i @ [CHR 0x0A]) = int_to_dec i"
proof -
  let ?s = "int_to_dec i"
  have ne: "?s \<noteq> []" using nat_to_dec_digits by (auto simp: int_to_dec_def)
  then have "dropWhile is_space (?s @ [CHR 0x0A]) = ?s @ [CHR 0x0A]"
    using int_to_dec_nospace [of "hd ?s" i] by (cases ?s) auto
  moreover have "trim_right_by is_space (?s @ [CHR 0x0A]) = trim_right_by is_space ?s"
    by (simp add: trim_right_by_def is_space_def)
  ultimately show ?thesis
    using int_to_dec_nospace by (simp add: trim_space_def trim_by_def trim_right_by_none)
qed

section \<open>Hexadecimal text\<close>

text \<open>\<open>hex.EncodeToString\<close>.\<close>

definition hex_digit :: "nat \<Rightarrow> char" where
  "hex_digit n = ''0123456789abcdef'' ! (n mod 16)"

definition hex_encode :: "8 word list \<Rightarrow> string" where
  "hex_encode bs = concat (map (\<lambda>b. [hex_digit (unat b div 16), hex_digit (unat b mod 16)]) bs)"

end
