(* ===== verification/World.thy ===== *)
theory World
  imports GoPath GoNum
begin

text \<open>
  The part of the operating system the daemon relies on: regular files with their permission
  bits, directories, and the calls of Go's \<^verbatim>\<open>os\<close> package. Every call consumes one slot of
  the fault plan \<open>w_fault\<close>: it succeeds, fails with an I/O error after a part of its effect,
  or the process dies inside it, after which no further call has an effect. A theorem over
  every world therefore covers every pattern of I/O errors and every crash point.

  Paths are keyed by their cleaned form (no symbolic links). \<open>Rename\<close> is atomic, as on POSIX.
  Temporary files live in a table of their own: \<open>os.CreateTemp\<close> draws a random name that no
  other file has and that nobody else asks for, and it ends in neither \<open>.toml\<close> nor \<open>.json\<close>.
  The second half models \<^verbatim>\<open>internal/utils/atomic_write.go\<close>.
\<close>

datatype io_error = ENOENT | EIO | EDEAD

datatype fault = Fine | Fails nat | Dies nat

record ofile =
  f_data :: string
  f_perm :: nat

record world =
  w_files :: "(string \<times> ofile) list"
  w_temps :: "(nat \<times> ofile) list"
  w_dirs :: "string list"
  w_clock :: nat
  w_fault :: "nat \<Rightarrow> fault"
  w_dead :: bool

type_synonym 'a io = "world \<Rightarrow> (io_error + 'a) \<times> world"

definition io_return :: "'a \<Rightarrow> 'a io" where
  "io_return a w = (Inr a, w)"

definition io_bind :: "'a io \<Rightarrow> ('a \<Rightarrow> 'b io) \<Rightarrow> 'b io" where
  "io_bind m f w = (case m w of (Inl e, w') \<Rightarrow> (Inl e, w') | (Inr a, w') \<Rightarrow> f a w')"

text \<open>One call: what it does when it succeeds, and what a failing call does first.\<close>

definition io_call :: "(world \<Rightarrow> (io_error + 'a) \<times> world) \<Rightarrow> (nat \<Rightarrow> world \<Rightarrow> world) \<Rightarrow> 'a io" where
  "io_call ok part w =
     (if w_dead w then (Inl EDEAD, w)
      else (let w' = w\<lparr>w_clock := Suc (w_clock w)\<rparr>
            in case w_fault w (w_clock w) of
                 Fine \<Rightarrow> ok w'
               | Fails k \<Rightarrow> (Inl EIO, part k w')
               | Dies k \<Rightarrow> (Inl EDEAD, (part k w')\<lparr>w_dead := True\<rparr>)))"

definition get_file :: "world \<Rightarrow> string \<Rightarrow> ofile option" where
  "get_file w p = map_of (w_files w) (clean p)"

definition put_file :: "string \<Rightarrow> ofile \<Rightarrow> world \<Rightarrow> world" where
  "put_file p f w = w\<lparr>w_files := AList.update (clean p) f (w_files w)\<rparr>"

definition del_file :: "string \<Rightarrow> world \<Rightarrow> world" where
  "del_file p w = w\<lparr>w_files := AList.delete (clean p) (w_files w)\<rparr>"

section \<open>The os calls\<close>

definition os_ReadFile :: "string \<Rightarrow> string io" where
  "os_ReadFile p = io_call
     (\<lambda>w. (case get_file w p of Some f \<Rightarrow> (Inr (f_data f), w)
           | None \<Rightarrow> (Inl (if clean p \<in> set (w_dirs w) then EIO else ENOENT), w))) (\<lambda>_ w. w)"

text \<open>\<open>os.Stat\<close> as an existence check: the daemon only asks whether it fails.\<close>

definition os_Stat :: "string \<Rightarrow> unit io" where
  "os_Stat p = io_call
     (\<lambda>w. (if get_file w p \<noteq> None \<or> clean p \<in> set (w_dirs w) then Inr () else Inl ENOENT, w))
     (\<lambda>_ w. w)"

definition path_prefixes :: "string \<Rightarrow> string list" where
  "path_prefixes d = [take n d. n \<leftarrow> [1..<Suc (length d)], n = length d \<or> d ! n = slash]"

definition os_MkdirAll :: "string \<Rightarrow> unit io" where
  "os_MkdirAll d = io_call
     (\<lambda>w. (if list_ex (\<lambda>p. get_file w p \<noteq> None) (path_prefixes (clean d)) then (Inl EIO, w)
           else (Inr (), w\<lparr>w_dirs := List.union (path_prefixes (clean d)) (w_dirs w)\<rparr>)))
     (\<lambda>_ w. w)"

text \<open>\<open>os.WriteFile\<close> truncates and then writes: a failing call leaves a prefix of the data.\<close>

definition os_WriteFile :: "string \<Rightarrow> string \<Rightarrow> nat \<Rightarrow> unit io" where
  "os_WriteFile p d perm = io_call
     (\<lambda>w. (if clean p \<in> set (w_dirs w) then (Inl EIO, w)
           else if dir_of p \<in> set (w_dirs w)
           then (Inr (), put_file p \<lparr>f_data = d,
                   f_perm = (case get_file w p of Some f \<Rightarrow> f_perm f | None \<Rightarrow> perm)\<rparr> w)
           else (Inl ENOENT, w)))
     (\<lambda>k w. if dir_of p \<in> set (w_dirs w) \<and> clean p \<notin> set (w_dirs w)
            then put_file p \<lparr>f_data = take k d,
                   f_perm = (case get_file w p of Some f \<Rightarrow> f_perm f | None \<Rightarrow> perm)\<rparr> w
            else w)"

text \<open>\<open>os.Remove\<close> removes a file, or a directory that has nothing in it.\<close>

definition dir_empty :: "string \<Rightarrow> world \<Rightarrow> bool" where
  "dir_empty p w \<longleftrightarrow> clean p \<noteq> ''/'' \<and> \<not> list_ex (\<lambda>q. has_prefix q (clean p @ ''/'')) (map fst (w_files w) @ w_dirs w)"

definition os_Remove :: "string \<Rightarrow> unit io" where
  "os_Remove p = io_call
     (\<lambda>w. (case get_file w p of Some f \<Rightarrow> (Inr (), del_file p w)
           | None \<Rightarrow> if clean p \<notin> set (w_dirs w) then (Inl ENOENT, w)
                     else if dir_empty p w then (Inr (), w\<lparr>w_dirs := removeAll (clean p) (w_dirs w)\<rparr>)
                     else (Inl EIO, w))) (\<lambda>_ w. w)"

text \<open>\<open>os.CreateTemp\<close>: a new, empty file of mode 0600; its handle is the number of the call.\<close>

definition os_CreateTemp :: "string \<Rightarrow> nat io" where
  "os_CreateTemp d = io_call
     (\<lambda>w. (if clean d \<in> set (w_dirs w)
           then (Inr (w_clock w),
                 w\<lparr>w_temps := AList.update (w_clock w) \<lparr>f_data = [], f_perm = 384\<rparr> (w_temps w)\<rparr>)
           else (Inl ENOENT, w)))
     (\<lambda>_ w. w)"

text \<open>
  Calls on the open temporary file. A \<open>write\<close> appends; one that fails has appended a prefix.
\<close>

definition tmp_update :: "nat \<Rightarrow> (ofile \<Rightarrow> ofile) \<Rightarrow> world \<Rightarrow> world" where
  "tmp_update t g w =
     (case map_of (w_temps w) t of None \<Rightarrow> w
      | Some f \<Rightarrow> w\<lparr>w_temps := AList.update t (g f) (w_temps w)\<rparr>)"

definition tmp_append :: "nat \<Rightarrow> string \<Rightarrow> world \<Rightarrow> world" where
  "tmp_append t d = tmp_update t (\<lambda>f. f\<lparr>f_data := f_data f @ d\<rparr>)"

definition tmp_Write :: "nat \<Rightarrow> string \<Rightarrow> nat io" where
  "tmp_Write t d = io_call (\<lambda>w. (Inr (length d), tmp_append t d w)) (\<lambda>k. tmp_append t (take k d))"

definition tmp_Chmod :: "nat \<Rightarrow> nat \<Rightarrow> unit io" where
  "tmp_Chmod t perm = io_call (\<lambda>w. (Inr (), tmp_update t (\<lambda>f. f\<lparr>f_perm := perm\<rparr>) w)) (\<lambda>_ w. w)"

definition tmp_Sync :: "nat \<Rightarrow> unit io" where
  "tmp_Sync t = io_call (\<lambda>w. (Inr (), w)) (\<lambda>_ w. w)"

definition tmp_Close :: "nat \<Rightarrow> unit io" where
  "tmp_Close t = io_call (\<lambda>w. (Inr (), w)) (\<lambda>_ w. w)"

definition os_Rename :: "nat \<Rightarrow> string \<Rightarrow> unit io" where
  "os_Rename t p = io_call
     (\<lambda>w. (case map_of (w_temps w) t of
             None \<Rightarrow> (Inl ENOENT, w)
           | Some f \<Rightarrow> if clean p \<in> set (w_dirs w) then (Inl EIO, w)
                      else (Inr (), put_file p f (w\<lparr>w_temps := AList.delete t (w_temps w)\<rparr>))))
     (\<lambda>_ w. w)"

text \<open>The deferred \<open>os.Remove(tmpPath)\<close>, and the best-effort sync of a directory: errors dropped.\<close>

definition tmp_Remove :: "nat \<Rightarrow> unit io" where
  "tmp_Remove t = io_call (\<lambda>w. (Inr (), w\<lparr>w_temps := AList.delete t (w_temps w)\<rparr>)) (\<lambda>_ w. w)"

definition sync_dir :: "string \<Rightarrow> unit io" where
  "sync_dir d w = (Inr (), snd (io_call (\<lambda>w. (Inr (), w)) (\<lambda>_ w. w) w :: (io_error + unit) \<times> world))"

definition defer_remove :: "nat \<Rightarrow> 'a io \<Rightarrow> 'a io" where
  "defer_remove t m w = (case m w of (r, w') \<Rightarrow> (r, snd (tmp_Remove t w')))"

section \<open>The calls one by one\<close>

lemma io_bind_simps [simp]:
  "m w = (Inl e, w') \<Longrightarrow> io_bind m f w = (Inl e, w')"
  "m w = (Inr a, w') \<Longrightarrow> io_bind m f w = f a w'"
  by (simp_all add: io_bind_def)

lemma io_bind_cases:
  assumes "io_bind m f w = (r, w'')"
  obtains (err) e where "m w = (Inl e, w'')" "r = Inl e"
    | (ok) a w' where "m w = (Inr a, w')" "f a w' = (r, w'')"
  using assms by (auto simp: io_bind_def split: prod.splits sum.splits)

lemma io_call_dead [simp]: "w_dead w \<Longrightarrow> io_call ok part w = (Inl EDEAD, w)"
  by (simp add: io_call_def)

definition fault_free :: "world \<Rightarrow> bool" where
  "fault_free w \<longleftrightarrow> \<not> w_dead w \<and> w_fault w = (\<lambda>_. Fine)"

lemma io_call_fault_free:
  "fault_free w \<Longrightarrow> io_call ok part w = ok (w\<lparr>w_clock := Suc (w_clock w)\<rparr>)"
  by (simp add: io_call_def fault_free_def Let_def)

lemma fault_free_upd [simp]:
  "fault_free (w\<lparr>w_clock := n\<rparr>) = fault_free w"
  "fault_free (w\<lparr>w_files := fs\<rparr>) = fault_free w"
  "fault_free (w\<lparr>w_dirs := ds\<rparr>) = fault_free w"
  "fault_free (put_file p f w) = fault_free w"
  "fault_free (del_file p w) = fault_free w"
  by (simp_all add: fault_free_def put_file_def del_file_def)

text \<open>
  \<open>io_keeps P m\<close>: the call \<open>m\<close> keeps \<open>P\<close>, whatever its outcome. It composes along
  \<open>io_bind\<close>, so a property of a whole routine is one of its calls.
\<close>

definition io_keeps :: "(world \<Rightarrow> bool) \<Rightarrow> 'a io \<Rightarrow> bool" where
  "io_keeps P m \<longleftrightarrow> (\<forall>w. P w \<longrightarrow> P (snd (m w)))"

lemma io_keepsD: "io_keeps P m \<Longrightarrow> P w \<Longrightarrow> P (snd (m w))"
  by (simp add: io_keeps_def)

lemma io_keeps_bind: "io_keeps P m \<Longrightarrow> (\<And>a. io_keeps P (f a)) \<Longrightarrow> io_keeps P (io_bind m f)"
  by (fastforce simp: io_keeps_def io_bind_def split: prod.splits sum.splits)

lemma io_keeps_return: "io_keeps P (io_return a)"
  by (simp add: io_keeps_def io_return_def)

section \<open>Atomic replacement of a file\<close>

text \<open>
  \<^verbatim>\<open>utils.AtomicWrite\<close>: temporary file in the target's directory, mode, data, sync, close,
  rename over the target, sync of the directory; the temporary file is removed on return.
\<close>

definition AtomicWrite :: "string \<Rightarrow> string \<Rightarrow> nat \<Rightarrow> unit io" where
  "AtomicWrite path data perm =
     io_bind (os_CreateTemp (dir_of path)) (\<lambda>t.
       defer_remove t
         (io_bind (tmp_Chmod t perm) (\<lambda>_.
          io_bind (tmp_Write t data) (\<lambda>_.
          io_bind (tmp_Sync t) (\<lambda>_.
          io_bind (tmp_Close t) (\<lambda>_.
          io_bind (os_Rename t path) (\<lambda>_.
          sync_dir (dir_of path))))))))"

text \<open>The files a world shows: all the atomic-write steps but the rename keep them.\<close>

definition same_files :: "world \<Rightarrow> world \<Rightarrow> bool" where
  "same_files w w' \<longleftrightarrow> w_files w' = w_files w \<and> w_dirs w' = w_dirs w \<and> w_fault w' = w_fault w"

lemma same_files_refl [simp]: "same_files w w"
  by (simp add: same_files_def)

lemma same_files_trans: "same_files w w' \<Longrightarrow> same_files w' w'' \<Longrightarrow> same_files w w''"
  by (simp add: same_files_def)

lemma same_files_get: "same_files w w' \<Longrightarrow> get_file w' p = get_file w p"
  by (simp add: same_files_def get_file_def)

lemma get_put_file [simp]:
  "get_file (put_file p f w) q = (if clean q = clean p then Some f else get_file w q)"
  by (simp add: get_file_def put_file_def)

lemma get_del_file [simp]:
  "get_file (del_file p w) q = (if clean q = clean p then None else get_file w q)"
  by (simp add: get_file_def del_file_def)

lemma get_file_upd [simp]:
  "get_file (w\<lparr>w_clock := n\<rparr>) p = get_file w p"
  "get_file (w\<lparr>w_dead := b\<rparr>) p = get_file w p"
  "get_file (w\<lparr>w_temps := ts\<rparr>) p = get_file w p"
  "get_file (w\<lparr>w_dirs := ds\<rparr>) p = get_file w p"
  by (simp_all add: get_file_def)

definition quiet :: "'a io \<Rightarrow> bool" where
  "quiet m \<longleftrightarrow> (\<forall>w. same_files w (snd (m w)))"

lemma quietD: "quiet m \<Longrightarrow> m w = (r, w') \<Longrightarrow> same_files w w'"
  by (metis quiet_def snd_conv)

lemma quiet_call:
  assumes "\<And>w. same_files w (snd (ok w))" and "\<And>k w. same_files w (part k w)"
  shows "quiet (io_call ok part)"
  using assms by (simp add: quiet_def io_call_def Let_def same_files_def split: fault.splits)

lemma same_files_tmp [simp]:
  "same_files w (tmp_update t g w)" "same_files w (tmp_append t d w)"
  "same_files w (w\<lparr>w_temps := ts\<rparr>)"
  by (auto simp: same_files_def tmp_append_def tmp_update_def split: option.splits)

lemma quiet_ops:
  "quiet (os_CreateTemp d)" "quiet (tmp_Chmod t perm)" "quiet (tmp_Write t data)"
  "quiet (tmp_Sync t)" "quiet (tmp_Close t)" "quiet (tmp_Remove t)" "quiet (sync_dir d)"
  "quiet (os_ReadFile p)" "quiet (os_Stat p)"
proof -
  have "quiet (io_call (\<lambda>w. (Inr (), w)) (\<lambda>_ w. w) :: unit io)" by (rule quiet_call) simp_all
  then show "quiet (sync_dir d)" by (simp add: quiet_def sync_dir_def)
qed (auto simp: os_CreateTemp_def tmp_Chmod_def tmp_Write_def tmp_Sync_def tmp_Close_def
      tmp_Remove_def os_ReadFile_def os_Stat_def intro!: quiet_call split: option.splits)

lemma io_call_Inr:
  "io_call ok part w = (Inr a, w') \<Longrightarrow>
   \<not> w_dead w \<and> ok (w\<lparr>w_clock := Suc (w_clock w)\<rparr>) = (Inr a, w')"
  by (auto simp: io_call_def Let_def split: if_splits fault.splits)

lemma CreateTemp_Inr:
  "os_CreateTemp d w = (Inr t, w') \<Longrightarrow> map_of (w_temps w') t = Some \<lparr>f_data = [], f_perm = 384\<rparr>"
  by (auto simp: os_CreateTemp_def dest!: io_call_Inr split: if_splits)

lemma tmp_update_lookup:
  "map_of (w_temps w) t = Some f \<Longrightarrow> map_of (w_temps (tmp_update t g w)) t = Some (g f)"
  by (simp add: tmp_update_def)

lemma tmp_calls_Inr:
  "tmp_Chmod t perm w = (Inr u, w') \<Longrightarrow> map_of (w_temps w) t = Some f \<Longrightarrow>
   map_of (w_temps w') t = Some (f\<lparr>f_perm := perm\<rparr>)"
  "tmp_Write t d w = (Inr n, w') \<Longrightarrow> map_of (w_temps w) t = Some f \<Longrightarrow>
   map_of (w_temps w') t = Some (f\<lparr>f_data := f_data f @ d\<rparr>)"
  "tmp_Sync t w = (Inr u, w') \<Longrightarrow> map_of (w_temps w) t = Some f \<Longrightarrow> map_of (w_temps w') t = Some f"
  "tmp_Close t w = (Inr u, w') \<Longrightarrow> map_of (w_temps w) t = Some f \<Longrightarrow> map_of (w_temps w') t = Some f"
  by (auto simp: tmp_Chmod_def tmp_Write_def tmp_Sync_def tmp_Close_def tmp_append_def
      dest!: io_call_Inr intro: tmp_update_lookup [where w = "w\<lparr>w_clock := Suc (w_clock w)\<rparr>"])

definition wrote :: "string \<Rightarrow> ofile \<Rightarrow> world \<Rightarrow> world \<Rightarrow> bool" where
  "wrote p f w w' \<longleftrightarrow> w_files w' = AList.update (clean p) f (w_files w) \<and>
     w_dirs w' = w_dirs w \<and> w_fault w' = w_fault w"

lemma wrote_get: "wrote p f w w' \<Longrightarrow> get_file w' q = (if clean q = clean p then Some f else get_file w q)"
  by (simp add: wrote_def get_file_def)

lemma wrote_trans:
  "same_files w w1 \<Longrightarrow> wrote p f w1 w2 \<Longrightarrow> wrote p f w w2"
  "wrote p f w w1 \<Longrightarrow> same_files w1 w2 \<Longrightarrow> wrote p f w w2"
  by (simp_all add: wrote_def same_files_def)

lemma Rename_cases:
  assumes "os_Rename t p w = (r, w')" "map_of (w_temps w) t = Some f"
  shows "(\<exists>e. r = Inl e \<and> same_files w w') \<or> (r = Inr () \<and> wrote p f w w')"
  using assms
  by (auto simp: os_Rename_def io_call_def Let_def same_files_def wrote_def put_file_def
      split: if_splits fault.splits)

lemma quiet_err: "quiet m \<Longrightarrow> m w = (Inl e, w') \<Longrightarrow> same_files w w'"
  by (rule quietD)

text \<open>The body between the creation of the temporary file and its deferred removal.\<close>

lemma atomic_body:
  assumes run: "io_bind (tmp_Chmod t perm) (\<lambda>_. io_bind (tmp_Write t data) (\<lambda>_.
      io_bind (tmp_Sync t) (\<lambda>_. io_bind (tmp_Close t) (\<lambda>_.
      io_bind (os_Rename t path) (\<lambda>_. sync_dir dir))))) w = (r, w')"
    and t: "map_of (w_temps w) t = Some \<lparr>f_data = [], f_perm = p0\<rparr>"
  shows "(\<exists>e. r = Inl e \<and> same_files w w') \<or>
         (r = Inr () \<and> wrote path \<lparr>f_data = data, f_perm = perm\<rparr> w w')"
  using run
proof (cases rule: io_bind_cases)
  case (err e) then show ?thesis using quietD [OF quiet_ops(2)] by blast
next
  case (ok a1 w1)
  note s1 = quietD [OF quiet_ops(2) ok(1)] and t1 = tmp_calls_Inr(1) [OF ok(1) t]
  from ok(2) show ?thesis
  proof (cases rule: io_bind_cases)
    case (err e) then show ?thesis using quietD [OF quiet_ops(3)] s1 same_files_trans by blast
  next
    case (ok a2 w2)
    note s2 = same_files_trans [OF s1 quietD [OF quiet_ops(3) ok(1)]]
      and t2 = tmp_calls_Inr(2) [OF ok(1) t1]
    from ok(2) show ?thesis
    proof (cases rule: io_bind_cases)
      case (err e) then show ?thesis using quietD [OF quiet_ops(4)] s2 same_files_trans by blast
    next
      case (ok a3 w3)
      note s3 = same_files_trans [OF s2 quietD [OF quiet_ops(4) ok(1)]]
        and t3 = tmp_calls_Inr(3) [OF ok(1) t2]
      from ok(2) show ?thesis
      proof (cases rule: io_bind_cases)
        case (err e) then show ?thesis using quietD [OF quiet_ops(5)] s3 same_files_trans by blast
      next
        case (ok a4 w4)
        note s4 = same_files_trans [OF s3 quietD [OF quiet_ops(5) ok(1)]]
          and t4 = tmp_calls_Inr(4) [OF ok(1) t3]
        from ok(2) show ?thesis
        proof (cases rule: io_bind_cases)
          case (err e) then show ?thesis
            using Rename_cases [OF err(1) t4] s4 same_files_trans by blast
        next
          case (ok a5 w5)
          then have "wrote path \<lparr>f_data = data, f_perm = perm\<rparr> w w5"
            using Rename_cases [OF ok(1) t4] wrote_trans(1) [OF s4] by auto
          then show ?thesis
            using ok(2) quietD [OF quiet_ops(7) ok(2)] wrote_trans(2)
            by (auto simp: sync_dir_def)
        qed
      qed
    qed
  qed
qed

lemma atomic_write_cases:
  assumes "AtomicWrite path data perm w = (r, w')"
  shows "(\<exists>e. r = Inl e \<and> same_files w w') \<or>
         (r = Inr () \<and> wrote path \<lparr>f_data = data, f_perm = perm\<rparr> w w')"
  using assms unfolding AtomicWrite_def
proof (cases rule: io_bind_cases)
  case (err e) then show ?thesis using quietD [OF quiet_ops(1)] by blast
next
  case (ok t w1)
  note s1 = quietD [OF quiet_ops(1) ok(1)] and t1 = CreateTemp_Inr [OF ok(1)]
  from ok(2) obtain w2 where
    body: "io_bind (tmp_Chmod t perm) (\<lambda>_. io_bind (tmp_Write t data) (\<lambda>_.
      io_bind (tmp_Sync t) (\<lambda>_. io_bind (tmp_Close t) (\<lambda>_.
      io_bind (os_Rename t path) (\<lambda>_. sync_dir (dir_of path)))))) w1 = (r, w2)"
    and w': "w' = snd (tmp_Remove t w2)"
    by (auto simp: defer_remove_def split: prod.splits)
  have s2: "same_files w2 w'" using w' quiet_ops(6) by (simp add: quiet_def)
  from atomic_body [OF body t1] show ?thesis
    using s1 s2 same_files_trans wrote_trans by blast
qed

lemma atomic_write_error: "AtomicWrite p d perm w = (Inl e, w') \<Longrightarrow> same_files w w'"
  using atomic_write_cases by fastforce

lemma atomic_write_ok:
  "AtomicWrite p d perm w = (Inr u, w') \<Longrightarrow> wrote p \<lparr>f_data = d, f_perm = perm\<rparr> w w'"
  using atomic_write_cases by fastforce

text \<open>With no I/O error the write succeeds, and leaves no temporary file.\<close>

lemma atomic_write_fault_free:
  assumes "fault_free w" "clean (dir_of p) \<in> set (w_dirs w)" "clean p \<notin> set (w_dirs w)"
  shows "\<exists>w'. AtomicWrite p d perm w = (Inr (), w') \<and> fault_free w' \<and>
     wrote p \<lparr>f_data = d, f_perm = perm\<rparr> w w' \<and> map_of (w_temps w') = (map_of (w_temps w))(Suc (w_clock w) := None)"
proof -
  have "\<exists>w'. AtomicWrite p d perm w = (Inr (), w') \<and> fault_free w' \<and>
     map_of (w_temps w') = (map_of (w_temps w))(Suc (w_clock w) := None)"
    using assms
    by (simp add: AtomicWrite_def os_CreateTemp_def io_bind_def io_call_fault_free defer_remove_def
        tmp_Chmod_def tmp_Write_def tmp_Sync_def tmp_Close_def tmp_append_def tmp_update_def
        os_Rename_def put_file_def sync_dir_def tmp_Remove_def fault_free_def fun_eq_iff)
  then show ?thesis using atomic_write_ok by blast
qed

text \<open>In a world whose fault plan is empty no call fails, and the plan stays empty.\<close>

lemma ff_call: "(\<And>w. fault_free w \<Longrightarrow> fault_free (snd (ok w))) \<Longrightarrow> io_keeps fault_free (io_call ok part)"
  by (auto simp: io_keeps_def io_call_fault_free)

lemma ff_tmp_update: "fault_free (tmp_update t g w) = fault_free w"
  by (auto simp: tmp_update_def fault_free_def split: option.splits)

lemma ff_temps [simp]: "fault_free (w\<lparr>w_temps := ts\<rparr>) = fault_free w"
  by (simp add: fault_free_def)

lemma ff_ops:
  "io_keeps fault_free (os_CreateTemp d)" "io_keeps fault_free (tmp_Chmod t perm)"
  "io_keeps fault_free (tmp_Write t data)" "io_keeps fault_free (tmp_Sync t)"
  "io_keeps fault_free (tmp_Close t)" "io_keeps fault_free (tmp_Remove t)"
  "io_keeps fault_free (sync_dir d)" "io_keeps fault_free (os_ReadFile p)"
  "io_keeps fault_free (os_Stat p)" "io_keeps fault_free (os_MkdirAll d)"
  "io_keeps fault_free (os_WriteFile p data perm)" "io_keeps fault_free (os_Remove p)"
  "io_keeps fault_free (os_Rename t p)"
proof -
  have "io_keeps fault_free (io_call (\<lambda>w. (Inr (), w)) (\<lambda>_ w. w) :: unit io)" by (rule ff_call) simp
  then show "io_keeps fault_free (sync_dir d)" by (simp add: io_keeps_def sync_dir_def)
qed (auto simp: os_CreateTemp_def tmp_Chmod_def tmp_Write_def tmp_Sync_def tmp_Close_def
      tmp_Remove_def os_ReadFile_def os_Stat_def os_MkdirAll_def os_WriteFile_def os_Remove_def
      os_Rename_def tmp_append_def ff_tmp_update intro!: ff_call split: option.splits)

lemma ff_defer: "io_keeps fault_free m \<Longrightarrow> io_keeps fault_free (defer_remove t m)"
  using ff_ops(6) [of t]
  by (fastforce simp: io_keeps_def defer_remove_def split: prod.splits)

lemma ff_atomic_write: "io_keeps fault_free (AtomicWrite p d perm)"
  unfolding AtomicWrite_def by (intro io_keeps_bind ff_defer ff_ops)

lemma MkdirAll_files: "os_MkdirAll d w = (r, w') \<Longrightarrow> get_file w' q = get_file w q"
  by (auto simp: os_MkdirAll_def io_call_def Let_def get_file_def split: if_splits fault.splits)

lemma ReadFile_result:
  assumes "os_ReadFile p w = (r, w')"
  shows "(\<forall>d. r = Inr d \<longrightarrow> (\<exists>f. get_file w p = Some f \<and> f_data f = d)) \<and> (r = Inl ENOENT \<longrightarrow> get_file w p = None)"
  using assms by (auto simp: os_ReadFile_def io_call_def Let_def split: if_splits fault.splits option.splits)

text \<open>A world with given files and directories and no faults; a file of mode 0644.\<close>

definition demo_world :: "(string \<times> ofile) list \<Rightarrow> string list \<Rightarrow> world" where
  "demo_world fs ds = \<lparr>w_files = fs, w_temps = [], w_dirs = ds, w_clock = 0, w_fault = (\<lambda>_. Fine), w_dead = False\<rparr>"

definition text_file :: "string \<Rightarrow> ofile" where
  "text_file s = \<lparr>f_data = s, f_perm = 420\<rparr>"

lemma demo_fault_free [simp]: "fault_free (demo_world fs ds)"
  by (simp add: demo_world_def fault_free_def)

lemma ReadFile_fault_free:
  "fault_free w \<Longrightarrow> get_file w p = Some f \<Longrightarrow>
   os_ReadFile p w = (Inr (f_data f), w\<lparr>w_clock := Suc (w_clock w)\<rparr>)"
  by (simp add: os_ReadFile_def io_call_fault_free)

lemma ffD: "io_keeps fault_free m \<Longrightarrow> m w = (r, w') \<Longrightarrow> fault_free w \<Longrightarrow> fault_free w'"
  using io_keepsD by fastforce

lemmas ff_dests = ff_ops(8-12) [THEN ffD] ff_atomic_write [THEN ffD]

text \<open>
  C6 (atomic replacement). Whatever calls fail and wherever the process dies, after
  \<^verbatim>\<open>AtomicWrite\<close> the target holds either exactly what it held before or exactly the new data with
  the requested mode; it holds the new data if the call succeeded and the old if it failed; and no
  other file is touched.
\<close>

theorem atomic_write_all_or_nothing:
  assumes "AtomicWrite p d perm w = (r, w')"
  shows "get_file w' q =
     (if clean q = clean p \<and> r = Inr () then Some \<lparr>f_data = d, f_perm = perm\<rparr> else get_file w q)"
  using atomic_write_cases [OF assms] by (auto simp: wrote_get same_files_get)

theorem atomic_write_all_or_nothing_witness:
  "\<exists>r w'. AtomicWrite ''/d/f'' ''new'' 420 \<lparr>w_files = [(''/d/f'', \<lparr>f_data = ''old'', f_perm = 420\<rparr>)],
       w_temps = [], w_dirs = [''/d''], w_clock = 0, w_fault = (\<lambda>n. if n = 2 then Dies 1 else Fine),
       w_dead = False\<rparr> = (r, w') \<and> get_file w' ''/d/f'' = Some \<lparr>f_data = ''old'', f_perm = 420\<rparr>"
    (is "\<exists>r w'. ?run = (r, w') \<and> _")
proof -
  obtain r w' where run: "?run = (r, w')" by (cases ?run) auto
  have "fst ?run = Inl EDEAD" by code_simp
  with run have r: "r = Inl EDEAD" by simp
  have "get_file w' ''/d/f'' = Some \<lparr>f_data = ''old'', f_perm = 420\<rparr>"
    using atomic_write_all_or_nothing [OF run, of "''/d/f''"] r by (simp add: get_file_def) code_simp
  with run show ?thesis by blast
qed

end
