(* ===== verification/Http.thy ===== *)
theory Http
  imports World
begin

text \<open>
  Requests and responses of the daemon's HTTP handlers (\<^verbatim>\<open>internal/helpers\<close>), the caller identity
  the authentication middleware puts in the request context, and the interface every
  configuration-gated handler offers: a request that is not permitted changes nothing.

  Errors that reach a response body through \<open>err.Error()\<close> are kept as values (\<open>ErrE\<close>) with the
  text put before them, not rendered.
\<close>

record caller =
  Hostname :: string
  UserLogin :: string

record request =
  Method :: string
  Path :: string
  Header :: "string \<Rightarrow> string"
  Query :: "string \<Rightarrow> string"
  Body :: string
  Caller :: "caller option"

datatype ('b, 'e) body = NoBody | Err string string | ErrE string 'e | Json 'b | Raw string

record ('b, 'e) response =
  status :: nat
  rs_header :: "(string \<times> string) list"
  rs_body :: "('b, 'e) body"

definition json_type :: "(string \<times> string) list" where
  "json_type = [(''Content-Type'', ''application/json'')]"

definition WriteJSON :: "nat \<Rightarrow> 'b \<Rightarrow> ('b, 'e) response" where
  "WriteJSON st v = \<lparr>status = st, rs_header = json_type, rs_body = Json v\<rparr>"

definition WriteError :: "nat \<Rightarrow> string \<Rightarrow> string \<Rightarrow> ('b, 'e) response" where
  "WriteError st msg hint = \<lparr>status = st, rs_header = json_type, rs_body = Err msg hint\<rparr>"

definition WriteErrorE :: "nat \<Rightarrow> string \<Rightarrow> 'e \<Rightarrow> ('b, 'e) response" where
  "WriteErrorE st msg e = \<lparr>status = st, rs_header = json_type, rs_body = ErrE msg e\<rparr>"

definition WriteHeader :: "nat \<Rightarrow> ('b, 'e) response" where
  "WriteHeader st = \<lparr>status = st, rs_header = [], rs_body = NoBody\<rparr>"

definition WriteRaw :: "string \<Rightarrow> string \<Rightarrow> ('b, 'e) response" where
  "WriteRaw ctype data = \<lparr>status = 200, rs_header = [(''Content-Type'', ctype)], rs_body = Raw data\<rparr>"

lemma write_status [simp]:
  "status (WriteJSON st v) = st" "status (WriteError st msg hint) = st"
  "status (WriteErrorE st msg e) = st" "status (WriteHeader st) = st" "status (WriteRaw t d) = 200"
  by (simp_all add: WriteJSON_def WriteError_def WriteErrorE_def WriteHeader_def WriteRaw_def)

definition bad_method :: "string \<Rightarrow> ('b, 'e) response" where
  "bad_method hint = WriteError 405 ''method not allowed'' hint"

lemma bad_method_status [simp]: "status (bad_method hint) = 405"
  by (simp add: bad_method_def)

section \<open>Request logging\<close>

text \<open>\<^verbatim>\<open>helpers/requestlog.go\<close>: the level at which a finished request is logged.\<close>

datatype level = Debug | Info | Warn | Error

definition isStateChangingMethod :: "string \<Rightarrow> bool" where
  "isStateChangingMethod m \<longleftrightarrow> m \<in> {''POST'', ''PUT'', ''DELETE'', ''PATCH''}"

definition isLowValueReadPath :: "request \<Rightarrow> bool" where
  "isLowValueReadPath r =
     (let path = Path r in
      if path = ''/health'' then True
      else if has_suffix path ''/available'' then True
      else if has_suffix path ''/config'' then True
      else if has_suffix path ''/stream'' then True
      else if has_prefix path ''/exec/jobs/'' then True
      else Method r = ''GET'' \<and> Query r ''follow'' = ''true'')"

definition request_log_level :: "request \<Rightarrow> nat \<Rightarrow> level" where
  "request_log_level r st =
     (if st \<ge> 500 then Error
      else if st \<ge> 400 then Warn
      else if isStateChangingMethod (Method r) then Info
      else if isLowValueReadPath r then Debug
      else Info)"

section \<open>Configuration-gated handlers\<close>

text \<open>
  The contract of a gated handler: \<open>run\<close> answers a request and gives the next state, \<open>refused\<close>
  says which answers are errors, \<open>permitted\<close> is what the node's configuration grants. Without permission the
  answer is an error and the state stays. Its consequences for sequences of requests are proved here once.
\<close>

locale gated =
  fixes run :: "'q \<Rightarrow> 's \<Rightarrow> 'r \<times> 's"
    and refused :: "'r \<Rightarrow> bool"
    and permitted :: "'q \<Rightarrow> bool"
  assumes denied_frame: "\<not> permitted q \<Longrightarrow> snd (run q s) = s"
    and denied_refused: "\<not> permitted q \<Longrightarrow> refused (fst (run q s))"
begin

fun run_all :: "'q list \<Rightarrow> 's \<Rightarrow> 's" where
  "run_all [] s = s"
| "run_all (q # qs) s = run_all qs (snd (run q s))"

lemma effect_permitted: "snd (run q s) \<noteq> s \<Longrightarrow> permitted q"
  using denied_frame by blast

lemma success_permitted: "\<not> refused (fst (run q s)) \<Longrightarrow> permitted q"
  using denied_refused by blast

lemma run_all_denied: "\<forall>q \<in> set qs. \<not> permitted q \<Longrightarrow> run_all qs s = s"
  by (induction qs arbitrary: s) (auto simp: denied_frame)

text \<open>Requests without permission can be struck from a run without changing where it ends.\<close>

lemma run_all_filter: "run_all (filter permitted qs) s = run_all qs s"
  by (induction qs arbitrary: s) (auto simp: denied_frame)

lemma run_all_effect:
  assumes "run_all qs s \<noteq> s" shows "\<exists>q \<in> set qs. permitted q"
  using assms run_all_denied by blast

end

end
