(* ===== verification/ConfDir.thy ===== *)
theory ConfDir
  imports Http
begin

text \<open>
  Configuration directories: the daemon's registries (access grants, outsider services, tools) all
  read a directory, skip sub-directories and files with another extension, read and parse the
  rest one by one, and skip the files that fail. This theory holds that loop, its meaning in a
  world without I/O errors, and the watch-and-debounce interface the registries share.
\<close>

section \<open>Listing a directory\<close>

definition child_names :: "string \<Rightarrow> world \<Rightarrow> string list" where
  "child_names d w =
     [drop (Suc (length d)) p. p \<leftarrow> map fst (w_files w) @ w_dirs w,
        has_prefix p (d @ ''/'') \<and> drop (Suc (length d)) p \<noteq> [] \<and> slash \<notin> set (drop (Suc (length d)) p)]"

text \<open>\<open>os.ReadDir\<close>: the entries (name, is it a directory) sorted by name.\<close>

definition dir_entries :: "string \<Rightarrow> world \<Rightarrow> (string \<times> bool) list" where
  "dir_entries d w = map (\<lambda>n. (n, d @ slash # n \<in> set (w_dirs w))) (sort (remdups (child_names d w)))"

definition os_ReadDir :: "string \<Rightarrow> (string \<times> bool) list io" where
  "os_ReadDir d = io_call
     (\<lambda>w. (if clean d \<in> set (w_dirs w) then Inr (dir_entries (clean d) w)
           else Inl (if get_file w d \<noteq> None then EIO else ENOENT), w)) (\<lambda>_ w. w)"

lemma quiet_ReadDir: "quiet (os_ReadDir d)"
  unfolding os_ReadDir_def by (rule quiet_call) simp_all

lemma ff_ReadDir: "io_keeps fault_free (os_ReadDir d)"
  unfolding os_ReadDir_def by (rule ff_call) simp

section \<open>Reading every file of a directory\<close>

fun load_entries :: "(string \<Rightarrow> 'a option) \<Rightarrow> string \<Rightarrow> string \<Rightarrow> (string \<times> bool) list \<Rightarrow> world \<Rightarrow> 'a list \<times> world" where
  "load_entries parse suf d [] w = ([], w)"
| "load_entries parse suf d ((n, isdir) # es) w =
     (if isdir \<or> \<not> has_suffix n suf then load_entries parse suf d es w
      else (case os_ReadFile (join_path [d, n]) w of
              (Inl _, w1) \<Rightarrow> load_entries parse suf d es w1
            | (Inr data, w1) \<Rightarrow>
                (case parse data of
                   None \<Rightarrow> load_entries parse suf d es w1
                 | Some a \<Rightarrow> (case load_entries parse suf d es w1 of (as, w2) \<Rightarrow> (a # as, w2)))))"

definition entry_doc :: "(string \<Rightarrow> 'a option) \<Rightarrow> string \<Rightarrow> string \<Rightarrow> world \<Rightarrow> string \<times> bool \<Rightarrow> 'a option" where
  "entry_doc parse suf d w e =
     (if snd e \<or> \<not> has_suffix (fst e) suf then None
      else (case get_file w (join_path [d, fst e]) of None \<Rightarrow> None | Some f \<Rightarrow> parse (f_data f)))"

definition dir_docs :: "(string \<Rightarrow> 'a option) \<Rightarrow> string \<Rightarrow> string \<Rightarrow> world \<Rightarrow> 'a list" where
  "dir_docs parse suf d w = List.map_filter (entry_doc parse suf d w) (dir_entries (clean d) w)"

lemma load_entries_sound:
  "load_entries parse suf d es w = (as, w') \<Longrightarrow> a \<in> set as \<Longrightarrow> \<exists>data. parse data = Some a"
  by (induction parse suf d es w arbitrary: as w' rule: load_entries.induct)
     (auto split: if_splits prod.splits sum.splits option.splits)

lemma load_entries_quiet: "load_entries parse suf d es w = (as, w') \<Longrightarrow> same_files w w'"
proof (induction parse suf d es w arbitrary: as w' rule: load_entries.induct)
  case (2 parse suf d n isdir es w)
  obtain x w1 where rd: "os_ReadFile (join_path [d, n]) w = (x, w1)" by fastforce
  have "same_files w w1" using quietD [OF quiet_ops(8) rd] .
  with 2 rd show ?case
    by (auto split: if_splits prod.splits sum.splits option.splits intro: same_files_trans)
qed simp

lemma ReadFile_ff_cases:
  "fault_free w \<Longrightarrow> os_ReadFile p w =
     ((case get_file w p of Some f \<Rightarrow> Inr (f_data f)
       | None \<Rightarrow> Inl (if clean p \<in> set (w_dirs w) then EIO else ENOENT)), w\<lparr>w_clock := Suc (w_clock w)\<rparr>)"
  by (simp add: os_ReadFile_def io_call_fault_free split: option.splits)

lemma map_filter_simp:
  "List.map_filter f [] = []"
  "List.map_filter f (x # xs) = (case f x of None \<Rightarrow> List.map_filter f xs | Some y \<Rightarrow> y # List.map_filter f xs)"
  by (simp_all add: List.map_filter_def split: option.splits)

lemma load_entries_ff:
  "fault_free w \<Longrightarrow> load_entries parse suf d es w =
     (List.map_filter (entry_doc parse suf d w) es, snd (load_entries parse suf d es w))
   \<and> fault_free (snd (load_entries parse suf d es w))"
proof (induction es arbitrary: w)
  case Nil then show ?case by (simp add: map_filter_simp)
next
  case (Cons e es)
  obtain n isdir where e: "e = (n, isdir)" by (cases e)
  let ?w1 = "w\<lparr>w_clock := Suc (w_clock w)\<rparr>"
  have ff1: "fault_free ?w1" using Cons.prems by simp
  have same: "entry_doc parse suf d ?w1 = entry_doc parse suf d w"
    by (simp add: entry_doc_def fun_eq_iff)
  obtain as w2 where rest: "load_entries parse suf d es ?w1 = (as, w2)" by fastforce
  have IH1: "as = List.map_filter (entry_doc parse suf d w) es" "fault_free w2"
    using Cons.IH [OF ff1] rest same by simp_all
  show ?case
  proof (cases "isdir \<or> \<not> has_suffix n suf")
    case True
    then have "entry_doc parse suf d w e = None" by (simp add: e entry_doc_def)
    with True Cons.IH [OF Cons.prems] show ?thesis by (simp add: e map_filter_simp)
  next
    case False
    note rd = ReadFile_ff_cases [OF Cons.prems, of "join_path [d, n]"]
    show ?thesis
    proof (cases "get_file w (join_path [d, n])")
      case None
      with False have "entry_doc parse suf d w e = None" by (simp add: e entry_doc_def)
      with False None IH1 rest show ?thesis by (simp add: e map_filter_simp rd)
    next
      case (Some f)
      with False have "entry_doc parse suf d w e = parse (f_data f)" by (simp add: e entry_doc_def)
      with False Some IH1 rest show ?thesis
        by (cases "parse (f_data f)") (simp_all add: e map_filter_simp rd)
    qed
  qed
qed

lemma set_map_filter: "set (List.map_filter f xs) = {y. \<exists>x \<in> set xs. f x = Some y}"
  by (induction xs) (auto simp: map_filter_simp split: option.splits)

lemma ReadDir_ff:
  "fault_free w \<Longrightarrow> os_ReadDir d w =
     ((if clean d \<in> set (w_dirs w) then Inr (dir_entries (clean d) w)
       else Inl (if get_file w d \<noteq> None then EIO else ENOENT)), w\<lparr>w_clock := Suc (w_clock w)\<rparr>)"
  by (simp add: os_ReadDir_def io_call_fault_free dir_entries_def child_names_def)

lemma dir_docs_ff:
  assumes "fault_free w"
  shows "\<exists>w2. load_entries parse suf d (dir_entries (clean d) w) (w\<lparr>w_clock := Suc (w_clock w)\<rparr>)
     = (dir_docs parse suf d w, w2) \<and> fault_free w2"
proof -
  let ?w1 = "w\<lparr>w_clock := Suc (w_clock w)\<rparr>"
  have "fault_free ?w1" using assms by simp
  moreover have "entry_doc parse suf d ?w1 = entry_doc parse suf d w" by (simp add: entry_doc_def fun_eq_iff)
  ultimately show ?thesis
    using load_entries_ff [of ?w1 parse suf d "dir_entries (clean d) w"] unfolding dir_docs_def by metis
qed

section \<open>Watching a directory\<close>

text \<open>
  The watch loop of the registries (\<open>watchLoop\<close>): a relevant change event (re)arms a timer; when
  the timer fires, the registry reloads and keeps its snapshot if the reload fails. \<open>load\<close> is what
  a reload of the directory's present content gives; \<open>relevant\<close> is the event filter. The law:
  a change whose event the filter drops does not change what a reload gives.
\<close>

record ('d, 'v, 's) watch =
  wt_disk :: 'd
  wt_queue :: "'v list"
  wt_armed :: bool
  wt_snap :: 's

inductive watch_step ::
  "('d \<Rightarrow> 's option) \<Rightarrow> ('v \<Rightarrow> bool) \<Rightarrow> ('d \<Rightarrow> 'v \<Rightarrow> 'd \<Rightarrow> bool) \<Rightarrow>
   ('d, 'v, 's) watch \<Rightarrow> ('d, 'v, 's) watch \<Rightarrow> bool"
  for load relevant change where
  disk: "change (wt_disk s) ev d' \<Longrightarrow>
     watch_step load relevant change s (s\<lparr>wt_disk := d', wt_queue := wt_queue s @ [ev]\<rparr>)"
| event_relevant: "wt_queue s = ev # q \<Longrightarrow> relevant ev \<Longrightarrow>
     watch_step load relevant change s (s\<lparr>wt_queue := q, wt_armed := True\<rparr>)"
| event_skipped: "wt_queue s = ev # q \<Longrightarrow> \<not> relevant ev \<Longrightarrow>
     watch_step load relevant change s (s\<lparr>wt_queue := q\<rparr>)"
| fire: "wt_armed s \<Longrightarrow>
     watch_step load relevant change s
       (s\<lparr>wt_armed := False, wt_snap := (case load (wt_disk s) of None \<Rightarrow> wt_snap s | Some x \<Rightarrow> x)\<rparr>)"

inductive_cases watch_stepE: "watch_step load relevant change s t"

inductive watch_reach ::
  "('d \<Rightarrow> 's option) \<Rightarrow> ('v \<Rightarrow> bool) \<Rightarrow> ('d \<Rightarrow> 'v \<Rightarrow> 'd \<Rightarrow> bool) \<Rightarrow>
   ('d, 'v, 's) watch \<Rightarrow> ('d, 'v, 's) watch \<Rightarrow> bool"
  for load relevant change where
  start: "watch_reach load relevant change s s"
| step: "watch_reach load relevant change s t \<Longrightarrow> watch_step load relevant change t u \<Longrightarrow>
     watch_reach load relevant change s u"

text \<open>One change, its event and the timer: a run that ends idle.\<close>

lemma one_change_reach:
  assumes "change d ev d'" "relevant ev" "load d' = Some x"
  shows "watch_reach load relevant change \<lparr>wt_disk = d, wt_queue = [], wt_armed = False, wt_snap = s0\<rparr>
     \<lparr>wt_disk = d', wt_queue = [], wt_armed = False, wt_snap = x\<rparr>" (is "watch_reach _ _ _ ?s ?t")
proof -
  let ?s1 = "\<lparr>wt_disk = d', wt_queue = [ev], wt_armed = False, wt_snap = s0\<rparr>"
  let ?s2 = "\<lparr>wt_disk = d', wt_queue = [] :: 'b list, wt_armed = True, wt_snap = s0\<rparr>"
  have "watch_step load relevant change ?s ?s1"
    using watch_step.disk [of change ?s ev d' load relevant] assms(1) by simp
  moreover have "watch_step load relevant change ?s1 ?s2"
    using watch_step.event_relevant [of ?s1 ev "[]" relevant load change] assms(2) by simp
  moreover have "watch_step load relevant change ?s2 ?t"
    using watch_step.fire [of ?s2 load relevant change] assms(3) by simp
  ultimately show ?thesis by (meson watch_reach.intros)
qed

definition watch_synced :: "('d \<Rightarrow> 's option) \<Rightarrow> ('d, 'v, 's) watch \<Rightarrow> bool" where
  "watch_synced load s \<longleftrightarrow> (\<forall>x. load (wt_disk s) = Some x \<longrightarrow> wt_snap s = x)"

locale watched_dir =
  fixes load :: "'d \<Rightarrow> 's option" and relevant :: "'v \<Rightarrow> bool" and change :: "'d \<Rightarrow> 'v \<Rightarrow> 'd \<Rightarrow> bool"
  assumes irrelevant_change: "change d ev d' \<Longrightarrow> \<not> relevant ev \<Longrightarrow> load d' = load d"
begin

definition inv :: "('d, 'v, 's) watch \<Rightarrow> bool" where
  "inv s \<longleftrightarrow> watch_synced load s \<or> wt_armed s \<or> (\<exists>ev \<in> set (wt_queue s). relevant ev)"

lemma step_inv: "watch_step load relevant change s t \<Longrightarrow> inv s \<Longrightarrow> inv t"
  by (erule watch_stepE)
     (auto simp: inv_def watch_synced_def dest: irrelevant_change split: option.splits)

lemma reach_inv: "watch_reach load relevant change s t \<Longrightarrow> inv s \<Longrightarrow> inv t"
  by (induction rule: watch_reach.induct) (auto intro: step_inv)

text \<open>Once the loop has nothing left to do, the snapshot is what the directory holds.\<close>

lemma idle_synced:
  assumes "watch_reach load relevant change s t" "watch_synced load s"
    and "wt_queue t = []" "\<not> wt_armed t"
  shows "watch_synced load t"
  using reach_inv [OF assms(1)] assms(2-4) by (auto simp: inv_def)

end

section \<open>File events\<close>

text \<open>
  The events of the directory watcher (fsnotify) and the filter the registries use: a name with the
  extension, and an operation other than a change of attributes. \<open>fs_change\<close> says what an event
  reports: nothing but the named entry differs, and attribute changes keep every content.
\<close>

datatype fs_op = FsCreate | FsWrite | FsRemove | FsRename | FsChmod

type_synonym fs_event = "string \<times> fs_op list"

definition toml_event :: "fs_event \<Rightarrow> bool" where
  "toml_event ev \<longleftrightarrow> has_suffix (fst ev) ''.toml'' \<and>
     list_ex (\<lambda>opn. opn \<in> {FsWrite, FsCreate, FsRename, FsRemove}) (snd ev)"

definition fs_change :: "string \<Rightarrow> world \<Rightarrow> fs_event \<Rightarrow> world \<Rightarrow> bool" where
  "fs_change d w ev w' \<longleftrightarrow> fault_free w \<and> fault_free w' \<and> clean d \<in> set (w_dirs w) \<and> clean d \<in> set (w_dirs w') \<and>
     (let others = filter (\<lambda>e. fst e \<noteq> fst ev \<or> set (snd ev) \<subseteq> {FsChmod}) in
      others (dir_entries (clean d) w') = others (dir_entries (clean d) w) \<and>
      (\<forall>e \<in> set (others (dir_entries (clean d) w)).
         map_option f_data (get_file w' (join_path [d, fst e])) = map_option f_data (get_file w (join_path [d, fst e]))))"

lemma map_filter_cong_filter:
  "filter P xs = filter P ys \<Longrightarrow> (\<And>x. \<not> P x \<Longrightarrow> f x = None \<and> g x = None) \<Longrightarrow>
   (\<And>x. x \<in> set (filter P ys) \<Longrightarrow> f x = g x) \<Longrightarrow> List.map_filter f xs = List.map_filter g ys"
proof -
  assume fl: "filter P xs = filter P ys" and none: "\<And>x. \<not> P x \<Longrightarrow> f x = None \<and> g x = None"
    and eq: "\<And>x. x \<in> set (filter P ys) \<Longrightarrow> f x = g x"
  have drop: "List.map_filter h zs = List.map_filter h (filter P zs)"
    if "\<And>x. \<not> P x \<Longrightarrow> h x = None" for h :: "'a \<Rightarrow> 'b option" and zs
    using that by (induction zs) (auto simp: map_filter_simp split: option.splits)
  have cong: "List.map_filter f zs = List.map_filter g zs" if "\<And>x. x \<in> set zs \<Longrightarrow> f x = g x" for zs
    using that by (induction zs) (auto simp: map_filter_simp split: option.splits)
  show ?thesis using drop [of f xs] drop [of g ys] cong [of "filter P ys", OF eq] fl none by simp
qed

lemma dir_docs_change:
  assumes ch: "fs_change d w ev w'" and irr: "\<not> toml_event ev"
  shows "dir_docs parse ''.toml'' d w' = dir_docs parse ''.toml'' d w"
proof -
  let ?P = "\<lambda>e :: string \<times> bool. fst e \<noteq> fst ev \<or> set (snd ev) \<subseteq> {FsChmod}"
  have fl: "filter ?P (dir_entries (clean d) w') = filter ?P (dir_entries (clean d) w)"
    using ch by (simp add: fs_change_def Let_def)
  have dt: "map_option f_data (get_file w' (join_path [d, fst e])) = map_option f_data (get_file w (join_path [d, fst e]))"
    if "e \<in> set (filter ?P (dir_entries (clean d) w))" for e
    using ch that unfolding fs_change_def Let_def by blast
  have sfx: "\<not> has_suffix (fst e) ''.toml''" if "\<not> ?P e" for e
  proof -
    have real: "\<And>opn. opn \<noteq> FsChmod \<Longrightarrow> opn \<in> {FsWrite, FsCreate, FsRename, FsRemove}"
      by (metis fs_op.exhaust insertCI)
    from that obtain opn where opn: "opn \<in> set (snd ev)" "opn \<noteq> FsChmod" and e: "fst e = fst ev" by blast
    have "list_ex (\<lambda>opn. opn \<in> {FsWrite, FsCreate, FsRename, FsRemove}) (snd ev)"
      unfolding list_ex_iff using opn real by blast
    with irr e show ?thesis unfolding toml_event_def by metis
  qed
  show ?thesis unfolding dir_docs_def
  proof (rule map_filter_cong_filter [OF fl])
    fix e assume "e \<in> set (filter ?P (dir_entries (clean d) w))"
    from dt [OF this] show "entry_doc parse ''.toml'' d w' e = entry_doc parse ''.toml'' d w e"
      by (auto simp: entry_doc_def split: option.splits)
  next
    fix e assume "\<not> ?P e"
    from sfx [OF this]
    show "entry_doc parse ''.toml'' d w' e = None \<and> entry_doc parse ''.toml'' d w e = None"
      by (simp add: entry_doc_def)
  qed
qed

text \<open>A file appears in an empty directory: the change the examples use.\<close>

lemma demo_change:
  "fs_change ''/a'' (demo_world [] [''/a'']) (''x.toml'', [FsCreate])
     (demo_world [(''/a/x.toml'', text_file s)] [''/a''])"
proof -
  have "child_names ''/a'' (demo_world [(''/a/x.toml'', text_file s)] [''/a'']) = [''x.toml'']"
    "child_names ''/a'' (demo_world [] [''/a'']) = []"
    by (simp_all add: child_names_def demo_world_def has_prefix_def)
  moreover have "clean ''/a'' = ''/a''" by code_simp
  ultimately show ?thesis by (simp add: fs_change_def dir_entries_def) (simp add: demo_world_def)
qed

lemma demo_event: "toml_event (''x.toml'', [FsCreate])"
  by code_simp

lemma demo_reach:
  assumes "load (demo_world [(''/a/x.toml'', text_file s)] [''/a'']) = Some x"
  shows "watch_reach load toml_event (fs_change ''/a'')
     \<lparr>wt_disk = demo_world [] [''/a''], wt_queue = [], wt_armed = False, wt_snap = s0\<rparr>
     \<lparr>wt_disk = demo_world [(''/a/x.toml'', text_file s)] [''/a''], wt_queue = [], wt_armed = False, wt_snap = x\<rparr>"
  using one_change_reach [of "fs_change ''/a''" _ "(''x.toml'', [FsCreate])" _ toml_event load x s0]
    demo_change demo_event assms by blast

end
