(* ===== verification/Access.thy ===== *)
theory Access
  imports ConfDir
begin

text \<open>
  Access grants (\<^verbatim>\<open>internal/access/registry.go\<close>): validation and normalisation of a grant, loading
  of the grant files, lookup of an identity's role on a target, and the capability check of the
  mutation endpoints. The TOML decoder is a parameter: it gives the grants of a file and the keys
  it did not decode, or nothing for a malformed file.
\<close>

record grant =
  Identity :: string
  Target :: string
  Role :: string

datatype access_error = EmptyIdentity | EmptyTarget | InvalidRole string | AccessDirError io_error
  | AccessWatchError

definition grant_normal :: "grant \<Rightarrow> grant" where
  "grant_normal g = \<lparr>Identity = trim_space (to_lower (Identity g)),
     Target = trim_space (to_lower (Target g)), Role = trim_space (to_lower (Role g))\<rparr>"

definition grant_Validate :: "grant \<Rightarrow> access_error + grant" where
  "grant_Validate g =
     (let g' = grant_normal g in
      if Identity g' = [] then Inl EmptyIdentity
      else if Target g' = [] then Inl EmptyTarget
      else if Role g' = ''admin'' \<or> Role g' = ''superadmin'' then Inr g'
      else Inl (InvalidRole (Role g')))"

fun validate_grants :: "grant list \<Rightarrow> access_error + grant list" where
  "validate_grants [] = Inr []"
| "validate_grants (g # gs) =
     (case grant_Validate g of
        Inl e \<Rightarrow> Inl e
      | Inr g' \<Rightarrow> (case validate_grants gs of Inl e \<Rightarrow> Inl e | Inr gs' \<Rightarrow> Inr (g' # gs')))"

type_synonym grant_decoder = "string \<Rightarrow> (grant list \<times> string list) option"

text \<open>\<open>loadFile\<close> after the read: an unknown key or an invalid grant rejects the whole file.\<close>

definition access_parse :: "grant_decoder \<Rightarrow> string \<Rightarrow> grant list option" where
  "access_parse toml data =
     (case toml data of
        None \<Rightarrow> None
      | Some (gs, undecoded) \<Rightarrow>
          if undecoded \<noteq> [] then None
          else (case validate_grants gs of Inl e \<Rightarrow> None | Inr gs' \<Rightarrow> Some gs'))"

record access_registry =
  ac_dir :: string
  ac_grants :: "grant list"

definition grant_key :: "grant \<Rightarrow> string \<times> string \<times> string" where
  "grant_key g = (Identity g, Target g, Role g)"

definition access_Reload ::
  "grant_decoder \<Rightarrow> access_registry \<Rightarrow> world \<Rightarrow> access_error option \<times> access_registry \<times> world" where
  "access_Reload toml r w =
     (case os_ReadDir (ac_dir r) w of
        (Inl e, w1) \<Rightarrow> (Some (AccessDirError e), r, w1)
      | (Inr entries, w1) \<Rightarrow>
          (case load_entries (access_parse toml) ''.toml'' (ac_dir r) entries w1 of
             (gss, w2) \<Rightarrow> (None, r\<lparr>ac_grants := sort_key grant_key (concat gss)\<rparr>, w2)))"

text \<open>
  \<open>NewRegistry\<close>: the directory is created and a watcher put on it before the first load;
  \<open>watch_ok\<close> says whether the watcher (fsnotify) could be created and could watch the directory.
\<close>

definition access_NewRegistry ::
  "grant_decoder \<Rightarrow> bool \<Rightarrow> string \<Rightarrow> world \<Rightarrow> (access_error + access_registry) \<times> world" where
  "access_NewRegistry toml watch_ok d w =
     (case os_MkdirAll d w of
        (Inl e, w1) \<Rightarrow> (Inl (AccessDirError e), w1)
      | (Inr _, w1) \<Rightarrow>
          if \<not> watch_ok then (Inl AccessWatchError, w1)
          else (case access_Reload toml \<lparr>ac_dir = d, ac_grants = []\<rparr> w1 of
                  (Some e, _, w2) \<Rightarrow> (Inl e, w2)
                | (None, r, w2) \<Rightarrow> (Inr r, w2)))"

definition access_List :: "access_registry \<Rightarrow> grant list" where
  "access_List r = ac_grants r"

definition HasAnyGrants :: "access_registry \<Rightarrow> bool" where
  "HasAnyGrants r \<longleftrightarrow> length (ac_grants r) > 0"

text \<open>The loop of \<open>RoleFor\<close>; \<open>wild\<close> is its local variable \<open>wildcard\<close>.\<close>

fun role_loop :: "string \<Rightarrow> string \<Rightarrow> string \<Rightarrow> grant list \<Rightarrow> string option" where
  "role_loop i t wild [] = (if wild \<noteq> [] then Some wild else None)"
| "role_loop i t wild (g # gs) =
     (if Identity g \<noteq> i then role_loop i t wild gs
      else if Target g = t then Some (Role g)
      else if Target g = ''*'' then role_loop i t (Role g) gs
      else role_loop i t wild gs)"

definition RoleFor :: "access_registry \<Rightarrow> string \<Rightarrow> string \<Rightarrow> string option" where
  "RoleFor r identity target = role_loop (to_lower identity) (to_lower target) [] (ac_grants r)"

definition Allow :: "access_registry \<Rightarrow> string \<Rightarrow> string \<Rightarrow> string \<Rightarrow> bool" where
  "Allow r identity capability target =
     (case (case RoleFor r identity target of
              Some role \<Rightarrow> Some role
            | None \<Rightarrow> RoleFor r identity ''*'') of
        None \<Rightarrow> False
      | Some role \<Rightarrow>
          (if capability = ''service.write'' then role = ''admin'' \<or> role = ''superadmin''
           else if capability \<in> {''host.write'', ''access.write'', ''admin.transfer''} then role = ''superadmin''
           else False))"

section \<open>Well-formed registries\<close>

definition valid_role :: "string \<Rightarrow> bool" where
  "valid_role r \<longleftrightarrow> r = ''admin'' \<or> r = ''superadmin''"

definition grant_ok :: "grant \<Rightarrow> bool" where
  "grant_ok g \<longleftrightarrow> Identity g \<noteq> [] \<and> Target g \<noteq> [] \<and> valid_role (Role g)"

definition access_wf :: "access_registry \<Rightarrow> bool" where
  "access_wf r \<longleftrightarrow> list_all grant_ok (ac_grants r) \<and> sorted (map grant_key (ac_grants r))"

lemma Validate_ok: "grant_Validate g = Inr g' \<Longrightarrow> grant_ok g' \<and> g' = grant_normal g"
  by (auto simp: grant_Validate_def Let_def grant_ok_def valid_role_def split: if_splits)

lemma validate_grants_ok: "validate_grants gs = Inr gs' \<Longrightarrow> list_all grant_ok gs' \<and> gs' = map grant_normal gs"
  by (induction gs arbitrary: gs') (auto split: sum.splits dest!: Validate_ok)

lemma access_parse_ok: "access_parse toml data = Some gs \<Longrightarrow> list_all grant_ok gs"
  by (auto simp: access_parse_def split: option.splits if_splits sum.splits dest: validate_grants_ok)

lemma loaded_ok:
  "load_entries (access_parse toml) suf d es w = (gss, w') \<Longrightarrow> list_all grant_ok (concat gss)"
  using load_entries_sound [of "access_parse toml"] access_parse_ok
  by (fastforce simp: list_all_iff)

lemma Reload_wf_step: "access_wf r \<Longrightarrow> access_wf (fst (snd (access_Reload toml r w)))"
  using loaded_ok
  by (fastforce simp: access_Reload_def access_wf_def list_all_iff split: prod.splits sum.splits)

section \<open>What a role lookup means\<close>

text \<open>
  The roles the grants give an identity on exactly a target, and the role that a lookup is
  specified to find: on the exact target the lesser of them, otherwise of the wildcard grants
  the greater.
\<close>

definition roles_on :: "grant list \<Rightarrow> string \<Rightarrow> string \<Rightarrow> string set" where
  "roles_on gs i t = Role ` set (filter (\<lambda>g. Identity g = i \<and> Target g = t) gs)"

definition role_spec :: "grant list \<Rightarrow> string \<Rightarrow> string \<Rightarrow> string option" where
  "role_spec gs i t =
     (if ''admin'' \<in> roles_on gs i t then Some ''admin''
      else if ''superadmin'' \<in> roles_on gs i t then Some ''superadmin''
      else if ''superadmin'' \<in> roles_on gs i ''*'' then Some ''superadmin''
      else if ''admin'' \<in> roles_on gs i ''*'' then Some ''admin''
      else None)"

lemma admin_less: "(''admin'' :: string) < ''superadmin''" "\<not> (''superadmin'' :: string) \<le> ''admin''"
  by code_simp+

text \<open>The loop finds the first exact grant; without one, the last wildcard grant.\<close>

lemma role_loop_find:
  "role_loop i t wild gs =
     (case List.find (\<lambda>g. Identity g = i \<and> Target g = t) gs of
        Some g \<Rightarrow> Some (Role g)
      | None \<Rightarrow>
          (case filter (\<lambda>g. Identity g = i \<and> Target g = ''*'') gs of
             [] \<Rightarrow> if wild = [] then None else Some wild
           | h # hs \<Rightarrow> if Role (last (h # hs)) = [] then None else Some (Role (last (h # hs)))))"
  by (induction gs arbitrary: wild) (auto split: option.splits list.splits)

lemma first_exact:
  assumes ok: "list_all grant_ok gs" and srt: "sorted (map grant_key gs)"
    and fnd: "List.find (\<lambda>g. Identity g = i \<and> Target g = t) gs = Some g"
  shows "Role g = (if ''admin'' \<in> roles_on gs i t then ''admin'' else ''superadmin'')"
proof -
  from fnd obtain n where n: "n < length gs" "gs ! n = g" "Identity g = i" "Target g = t"
      "\<And>m. m < n \<Longrightarrow> \<not> (Identity (gs ! m) = i \<and> Target (gs ! m) = t)"
    by (auto simp: find_Some_iff)
  have mem: "Role g \<in> roles_on gs i t" using n nth_mem [OF n(1)] by (auto simp: roles_on_def)
  have valid: "Role g = ''admin'' \<or> Role g = ''superadmin''"
    using ok nth_mem [OF n(1)] n(2) by (auto simp: list_all_iff grant_ok_def valid_role_def)
  have least: "Role g \<le> r" if "r \<in> roles_on gs i t" for r
  proof -
    from that obtain h where h: "h \<in> set gs" "Identity h = i" "Target h = t" "Role h = r"
      by (auto simp: roles_on_def)
    then obtain k where k: "k < length gs" "gs ! k = h" by (auto simp: in_set_conv_nth)
    with n h have "n \<le> k" using not_less by blast
    then have "grant_key g \<le> grant_key h" using sorted_key_nth [OF srt, of n k] n(2) k by simp
    with n h show ?thesis by (simp add: grant_key_def)
  qed
  show ?thesis using mem valid least [of "''admin''"] admin_less by auto
qed

lemma last_wild:
  assumes ok: "list_all grant_ok gs" and srt: "sorted (map grant_key gs)"
    and ne: "filter (\<lambda>g. Identity g = i \<and> Target g = t) gs \<noteq> []"
  shows "Role (last (filter (\<lambda>g. Identity g = i \<and> Target g = t) gs)) =
     (if ''superadmin'' \<in> roles_on gs i t then ''superadmin'' else ''admin'')"
proof -
  let ?fs = "filter (\<lambda>g. Identity g = i \<and> Target g = t) gs"
  have srt': "sorted (map grant_key ?fs)" using srt by (rule sorted_filter)
  have l: "last ?fs \<in> set ?fs" using ne by (rule last_in_set)
  have valid: "Role (last ?fs) = ''admin'' \<or> Role (last ?fs) = ''superadmin''"
    using l ok by (auto simp: list_all_iff grant_ok_def valid_role_def)
  have mem: "Role (last ?fs) \<in> roles_on gs i t" using l by (auto simp: roles_on_def)
  have greatest: "r \<le> Role (last ?fs)" if "r \<in> roles_on gs i t" for r
  proof -
    from that obtain h where h: "h \<in> set ?fs" "Role h = r" by (auto simp: roles_on_def)
    then have "grant_key h \<le> grant_key (last ?fs)" by (intro sorted_key_last [OF srt'])
    with h l show ?thesis by (simp add: grant_key_def)
  qed
  show ?thesis using mem valid greatest [of "''superadmin''"] admin_less by auto
qed

lemma find_exact_None:
  "List.find (\<lambda>g. Identity g = i \<and> Target g = t) gs = None \<longleftrightarrow> roles_on gs i t = {}"
  by (auto simp: find_None_iff roles_on_def)

lemma filter_exact_Nil:
  "filter (\<lambda>g. Identity g = i \<and> Target g = t) gs = [] \<longleftrightarrow> roles_on gs i t = {}"
  by (auto simp: filter_empty_conv roles_on_def)

lemma roles_valid: "list_all grant_ok gs \<Longrightarrow> r \<in> roles_on gs i t \<Longrightarrow> r = ''admin'' \<or> r = ''superadmin''"
  by (auto simp: roles_on_def list_all_iff grant_ok_def valid_role_def)

lemma role_loop_spec:
  assumes ok: "list_all grant_ok gs" and srt: "sorted (map grant_key gs)"
  shows "role_loop i t [] gs = role_spec gs i t"
proof (cases "List.find (\<lambda>g. Identity g = i \<and> Target g = t) gs")
  case (Some g)
  have "Role g \<in> roles_on gs i t" using find_Some_in [OF Some] by (auto simp: roles_on_def)
  with first_exact [OF ok srt Some] roles_valid [OF ok, of "Role g"] Some show ?thesis
    by (simp add: role_loop_find role_spec_def split: if_splits)
next
  case None
  then have ex: "roles_on gs i t = {}" by (simp only: find_exact_None)
  show ?thesis
  proof (cases "filter (\<lambda>g. Identity g = i \<and> Target g = ''*'') gs")
    case Nil
    then have "roles_on gs i ''*'' = {}" by (simp only: filter_exact_Nil)
    with ex None Nil show ?thesis by (simp add: role_loop_find role_spec_def)
  next
    case (Cons h hs)
    have "Role h \<in> roles_on gs i ''*''"
      using Cons by (auto simp: roles_on_def filter_eq_Cons_iff)
    with last_wild [OF ok srt, of i "''*''"] roles_valid [OF ok, of "Role h" i "''*''"] ex None Cons
    show ?thesis by (auto simp: role_loop_find role_spec_def)
  qed
qed

lemma RoleFor_spec: "access_wf r \<Longrightarrow> RoleFor r i t = role_spec (ac_grants r) (to_lower i) (to_lower t)"
  by (simp add: RoleFor_def access_wf_def role_loop_spec split: option.splits)

lemma role_spec_Some:
  "role_spec gs i t = Some r \<Longrightarrow> \<exists>g \<in> set gs. Identity g = i \<and> (Target g = t \<or> Target g = ''*'') \<and> Role g = r"
  by (auto simp: role_spec_def roles_on_def split: if_splits)

section \<open>Reloading\<close>

lemma Reload_dir: "access_Reload toml r w = (e, r', w') \<Longrightarrow> ac_dir r' = ac_dir r"
  by (auto simp: access_Reload_def split: prod.splits sum.splits)

lemma Reload_ff:
  assumes "fault_free w"
  shows "access_Reload toml r w =
     (if clean (ac_dir r) \<in> set (w_dirs w)
      then (None, r\<lparr>ac_grants := sort_key grant_key (concat (dir_docs (access_parse toml) ''.toml'' (ac_dir r) w))\<rparr>,
            snd (snd (access_Reload toml r w)))
      else (Some (AccessDirError (if get_file w (ac_dir r) \<noteq> None then EIO else ENOENT)), r,
            snd (snd (access_Reload toml r w))))"
proof (cases "clean (ac_dir r) \<in> set (w_dirs w)")
  case True
  then show ?thesis using dir_docs_ff [OF assms, of "access_parse toml" "''.toml''" "ac_dir r"]
    by (auto simp: access_Reload_def ReadDir_ff [OF assms])
qed (use assms in \<open>simp add: access_Reload_def ReadDir_ff\<close>)

definition access_load :: "grant_decoder \<Rightarrow> access_registry \<Rightarrow> world \<Rightarrow> grant list option" where
  "access_load toml r w =
     (case access_Reload toml r w of (None, r', _) \<Rightarrow> Some (ac_grants r') | (Some _, _, _) \<Rightarrow> None)"

lemma access_load_ff:
  "fault_free w \<Longrightarrow> clean (ac_dir r) \<in> set (w_dirs w) \<Longrightarrow>
   access_load toml r w = Some (sort_key grant_key (concat (dir_docs (access_parse toml) ''.toml'' (ac_dir r) w)))"
  by (subst access_load_def, subst Reload_ff) simp_all

interpretation access_watch: watched_dir "access_load toml r" toml_event "fs_change (ac_dir r)"
proof unfold_locales
  fix w ev w' assume ch: "fs_change (ac_dir r) w ev w'" and irr: "\<not> toml_event ev"
  from ch have "fault_free w" "fault_free w'" "clean (ac_dir r) \<in> set (w_dirs w)" "clean (ac_dir r) \<in> set (w_dirs w')"
    by (simp_all add: fs_change_def)
  then show "access_load toml r w' = access_load toml r w"
    by (simp add: access_load_ff dir_docs_change [OF ch irr])
qed

section \<open>Properties\<close>

definition role_permits :: "string \<Rightarrow> string \<Rightarrow> bool" where
  "role_permits role cap \<longleftrightarrow>
     cap = ''service.write'' \<and> valid_role role \<or>
     cap \<in> {''host.write'', ''access.write'', ''admin.transfer''} \<and> role = ''superadmin''"

lemma role_spec_wild: "role_spec gs i t = None \<Longrightarrow> role_spec gs i ''*'' = None"
  by (auto simp: role_spec_def split: if_splits)

lemma to_lower_star: "to_lower ''*'' = ''*''"
  by code_simp

text \<open>
  C5 (capability check). In a well-formed registry a capability is allowed on a target exactly when
  the role the grants specify for the identity, in any letter case, permits it: an admin grant on
  the exact target outranks everything, then a superadmin grant on it, then the wildcard grants, the
  strongest first. The code's second look-up (on the wildcard) never changes the answer, and an
  unknown capability is never allowed.
\<close>

theorem access_allow_spec:
  assumes "access_wf r"
  shows "Allow r i cap t \<longleftrightarrow>
     (\<exists>role. role_spec (ac_grants r) (to_lower i) (to_lower t) = Some role \<and> role_permits role cap)"
proof (cases "role_spec (ac_grants r) (to_lower i) (to_lower t)")
  case None
  then show ?thesis
    using role_spec_wild [OF None] by (simp add: Allow_def RoleFor_spec [OF assms] to_lower_star)
next
  case (Some role)
  then show ?thesis
    by (simp add: Allow_def RoleFor_spec [OF assms] role_permits_def valid_role_def)
qed

theorem access_allow_spec_witness:
  "Allow \<lparr>ac_dir = ''/a'', ac_grants = [\<lparr>Identity = ''bob@x'', Target = ''*'', Role = ''admin''\<rparr>,
      \<lparr>Identity = ''bob@x'', Target = ''n1'', Role = ''superadmin''\<rparr>]\<rparr> ''Bob@x'' ''host.write'' ''N1''"
    (is "Allow ?r _ _ _")
proof -
  have "access_wf ?r" unfolding access_wf_def by (rule conjI) code_simp+
  moreover have "role_spec (ac_grants ?r) (to_lower ''Bob@x'') (to_lower ''N1'') = Some ''superadmin''"
    by code_simp
  ultimately show ?thesis
    using access_allow_spec [of ?r "''Bob@x''" "''host.write''" "''N1''"] by (simp add: role_permits_def)
qed

text \<open>
  C15 (reload of the grants). With no I/O error a reload ends well exactly when the directory exists, and the
  registry then holds the grants of every well-formed \<^verbatim>\<open>.toml\<close> file of the directory, each once per
  occurrence, and nothing else; whatever happens, a failed reload keeps the old grants and the
  grants are always valid, lower-case and sorted when they were before.
\<close>

theorem access_reload_contents:
  assumes "access_Reload toml r w = (e, r', w')"
  shows "(access_wf r \<longrightarrow> access_wf r') \<and> (e \<noteq> None \<longrightarrow> r' = r) \<and>
     (fault_free w \<longrightarrow>
        (e = None \<longleftrightarrow> clean (ac_dir r) \<in> set (w_dirs w)) \<and>
        (e = None \<longrightarrow> mset (ac_grants r') = mset (concat (dir_docs (access_parse toml) ''.toml'' (ac_dir r) w))))"
proof (intro conjI impI)
  show "access_wf r'" if "access_wf r" using Reload_wf_step [OF that, of toml w] assms by simp
  show "r' = r" if "e \<noteq> None" using assms that by (auto simp: access_Reload_def split: prod.splits sum.splits)
next
  assume ff: "fault_free w"
  show "e = None \<longleftrightarrow> clean (ac_dir r) \<in> set (w_dirs w)"
    using Reload_ff [OF ff, of toml r, unfolded assms] by (cases "clean (ac_dir r) \<in> set (w_dirs w)") simp_all
next
  assume ff: "fault_free w" and "e = None"
  then show "mset (ac_grants r') = mset (concat (dir_docs (access_parse toml) ''.toml'' (ac_dir r) w))"
    using Reload_ff [OF ff, of toml r, unfolded assms] by (cases "clean (ac_dir r) \<in> set (w_dirs w)") simp_all
qed

definition demo_grant :: grant where
  "demo_grant = \<lparr>Identity = ''bob@x'', Target = ''n1'', Role = ''admin''\<rparr>"

definition demo_toml :: grant_decoder where
  "demo_toml s = (if s = ''g'' then Some ([\<lparr>Identity = '' Bob@x'', Target = ''N1'', Role = ''Admin''\<rparr>], []) else None)"

theorem access_reload_contents_witness:
  "\<exists>r' w'. access_Reload demo_toml \<lparr>ac_dir = ''/a'', ac_grants = []\<rparr>
       (demo_world [(''/a/x.toml'', text_file ''g''), (''/a/bad.toml'', text_file ''?''), (''/a/y'', text_file ''g'')] [''/a'']) = (None, r', w') \<and>
     mset (ac_grants r') = {#demo_grant#}"
    (is "\<exists>r' w'. access_Reload ?t ?r ?w = _ \<and> _")
proof -
  obtain e r' w' where run: "access_Reload ?t ?r ?w = (e, r', w')" by (cases "access_Reload ?t ?r ?w") auto
  note ff = demo_fault_free [of "[(''/a/x.toml'', text_file ''g''), (''/a/bad.toml'', text_file ''?''), (''/a/y'', text_file ''g'')]" "[''/a'']"]
  have "clean (ac_dir ?r) \<in> set (w_dirs ?w)" by code_simp
  with access_reload_contents [OF run] ff have e: "e = None" by blast
  have "concat (dir_docs (access_parse ?t) ''.toml'' (ac_dir ?r) ?w) = [demo_grant]" by code_simp
  with access_reload_contents [OF run] ff e have "mset (ac_grants r') = {#demo_grant#}" by simp
  with run e show ?thesis by blast
qed

text \<open>
  C17 (live reload of the grants). Start in step with the directory, then let files of the directory change,
  events be delivered and the debounce timer fire in any order: whenever no event is queued and the
  timer is not armed, the registry holds what a reload of the present directory gives. In particular the event
  filter of the watch loop drops no event that matters.
\<close>

theorem access_watch_in_sync:
  assumes "watch_reach (access_load toml r) toml_event (fs_change (ac_dir r)) s t"
    and "watch_synced (access_load toml r) s" and "wt_queue t = []" and "\<not> wt_armed t"
  shows "watch_synced (access_load toml r) t"
  using access_watch.idle_synced [OF assms] .

theorem access_watch_in_sync_witness:
  "\<exists>t. watch_reach (access_load demo_toml \<lparr>ac_dir = ''/a'', ac_grants = []\<rparr>) toml_event (fs_change ''/a'')
       \<lparr>wt_disk = demo_world [] [''/a''], wt_queue = [], wt_armed = False, wt_snap = []\<rparr> t \<and>
     wt_snap t = [demo_grant]"
    (is "\<exists>t. watch_reach ?l _ _ ?s t \<and> _")
proof -
  let ?d = "demo_world [(''/a/x.toml'', text_file ''g'')] [''/a'']"
  let ?t = "\<lparr>wt_disk = ?d, wt_queue = [] :: fs_event list, wt_armed = False, wt_snap = [demo_grant]\<rparr>"
  have load: "?l (demo_world [] [''/a'']) = Some []" "?l ?d = Some [demo_grant]" by code_simp+
  have reach: "watch_reach ?l toml_event (fs_change ''/a'') ?s ?t"
    using demo_reach [of ?l] load(2) by blast
  have "watch_synced ?l ?t"
    by (rule access_watch_in_sync [where r = "\<lparr>ac_dir = ''/a'', ac_grants = []\<rparr>" and s = ?s])
       (use reach load in \<open>simp_all add: watch_synced_def\<close>)
  then have "wt_snap ?t = [demo_grant]" using load by (simp add: watch_synced_def)
  with reach show ?thesis by blast
qed

end
