(* ===== verification/AdminBootstrap.thy ===== *)
theory AdminBootstrap
  imports Http
begin

text \<open>
  The admin role at start-up (\<^verbatim>\<open>internal/admin/bootstrap.go\<close>) and the node's own name
  (\<^verbatim>\<open>cmd/tailkitd/hostname.go\<close>, \<open>resolveHostname\<close> of \<^verbatim>\<open>cmd/tailkitd/run.go\<close>): the bootstrap files, the peers a node asks,
  and the election among nodes that find no admin. The answer of a peer to the probe
  (\<open>GET /host\<close>) is a parameter; a failed probe is \<open>None\<close>. Hostnames are ASCII.
\<close>

section \<open>Bootstrap files\<close>

definition AdminDirPath :: string where "AdminDirPath = ''/etc/tailkitd''"
definition AdminKeyPath :: string where "AdminKeyPath = ''/etc/tailkitd/admin.key''"
definition AdminFencePath :: string where "AdminFencePath = ''/etc/tailkitd/admin.fence''"

text \<open>\<open>State\<close>: one flag; its lock makes each access atomic.\<close>

record admin_state = isAdmin :: bool

definition IsAdmin :: "admin_state \<Rightarrow> bool" where
  "IsAdmin s = isAdmin s"

definition SetAdmin :: "bool \<Rightarrow> admin_state \<Rightarrow> admin_state" where
  "SetAdmin v s = s\<lparr>isAdmin := v\<rparr>"

datatype admin_error = AdminIO io_error | KeyGenError | FenceError num_error

text \<open>One bootstrap file: created with the given content when the existence check finds nothing.\<close>

definition ensure_file :: "string \<Rightarrow> string option \<Rightarrow> world \<Rightarrow> admin_error option \<times> world" where
  "ensure_file p content w =
     (case os_Stat p w of
        (Inr _, w1) \<Rightarrow> (None, w1)
      | (Inl ENOENT, w1) \<Rightarrow>
          (case content of
             None \<Rightarrow> (Some KeyGenError, w1)
           | Some d \<Rightarrow>
               (case os_WriteFile p d 384 w1 of
                  (Inl e, w2) \<Rightarrow> (Some (AdminIO e), w2)
                | (Inr _, w2) \<Rightarrow> (None, w2)))
      | (Inl e, w1) \<Rightarrow> (Some (AdminIO e), w1))"

text \<open>\<open>rnd\<close> is what the random source gives for the key, \<open>None\<close> when it fails.\<close>

definition EnsureBootstrapFiles :: "8 word list option \<Rightarrow> world \<Rightarrow> admin_error option \<times> world" where
  "EnsureBootstrapFiles rnd w =
     (case os_MkdirAll AdminDirPath w of
        (Inl e, w1) \<Rightarrow> (Some (AdminIO e), w1)
      | (Inr _, w1) \<Rightarrow>
          (case ensure_file AdminKeyPath (map_option hex_encode rnd) w1 of
             (Some e, w2) \<Rightarrow> (Some e, w2)
           | (None, w2) \<Rightarrow> ensure_file AdminFencePath (Some [CHR ''0'', CHR 0x0A]) w2))"

definition GetAdminKey :: "string io" where
  "GetAdminKey w =
     (case os_ReadFile AdminKeyPath w of
        (Inl e, w1) \<Rightarrow> (Inl e, w1)
      | (Inr data, w1) \<Rightarrow> (Inr (trim_space data), w1))"

definition GetFenceToken :: "world \<Rightarrow> (admin_error + int) \<times> world" where
  "GetFenceToken w =
     (case os_ReadFile AdminFencePath w of
        (Inl e, w1) \<Rightarrow> (Inl (AdminIO e), w1)
      | (Inr data, w1) \<Rightarrow>
          (case parse_int (trim_space data) of
             Inl e \<Rightarrow> (Inl (FenceError e), w1)
           | Inr n \<Rightarrow> (Inr n, w1)))"

section \<open>Names\<close>

definition host_char :: "char \<Rightarrow> bool" where
  "host_char c \<longleftrightarrow> is_lower c \<or> is_digit c \<or> c = CHR ''-''"

definition host_char_or_dash :: "char \<Rightarrow> char" where
  "host_char_or_dash c = (if host_char c then c else CHR ''-'')"

definition SanitizeHostname :: "string \<Rightarrow> string" where
  "SanitizeHostname h = trim_by (\<lambda>c. c = CHR ''-'') (map host_char_or_dash (to_lower h))"

definition daemonHostnameForTailnetHost :: "string \<Rightarrow> string" where
  "daemonHostnameForTailnetHost h = ''tailkitd-'' @ SanitizeHostname h"

definition daemonHostnameForTailnetPeer :: "string \<Rightarrow> string" where
  "daemonHostnameForTailnetPeer h =
     ''tailkitd-'' @ trim_by (\<lambda>c. c = CHR ''-'') (map host_char_or_dash (to_lower h))"

text \<open>\<open>env\<close> is \<^verbatim>\<open>TAILKITD_HOSTNAME\<close>; \<open>os_host\<close> is \<open>os.Hostname\<close>.\<close>

definition resolveHostname :: "string \<Rightarrow> string \<Rightarrow> string option \<Rightarrow> string option" where
  "resolveHostname env tailnet os_host =
     (if env \<noteq> [] then Some env
      else if tailnet \<noteq> [] then Some (daemonHostnameForTailnetHost tailnet)
      else (case os_host of None \<Rightarrow> None | Some h \<Rightarrow> Some (''tailkitd-'' @ SanitizeHostname h)))"

section \<open>Election\<close>

text \<open>
  \<open>status\<close> gives the hostnames of the tailnet's peers (an entry may be nil), or is nil itself.
\<close>

definition PeerHostnames :: "string option list option \<Rightarrow> string \<Rightarrow> string list \<Rightarrow> string list" where
  "PeerHostnames st self defined =
     (case st of
        None \<Rightarrow> []
      | Some peers \<Rightarrow>
          sort [daemonHostnameForTailnetPeer h. Some h \<leftarrow> peers, h \<noteq> [] \<and> h \<noteq> self \<and> h \<in> set defined])"

text \<open>The probe loop: peers in order, up to the first that says it is the admin.\<close>

fun found_admin :: "(string \<Rightarrow> bool option) \<Rightarrow> string list \<Rightarrow> bool" where
  "found_admin probe [] = False"
| "found_admin probe (p # ps) =
     (case probe p of
        None \<Rightarrow> found_admin probe ps
      | Some b \<Rightarrow> if b then True else found_admin probe ps)"

definition DetermineIsAdmin :: "(string \<Rightarrow> bool option) \<Rightarrow> string \<Rightarrow> string list \<Rightarrow> bool" where
  "DetermineIsAdmin probe self peers =
     (if length peers = 0 then True
      else if found_admin probe peers then False
      else sort (self # peers) ! 0 = self)"

text \<open>\<open>BootstrapState\<close> repeats the decision, with a log line for each reason.\<close>

definition BootstrapState ::
  "8 word list option \<Rightarrow> (string \<Rightarrow> bool option) \<Rightarrow> string \<Rightarrow> string \<Rightarrow> string option list option \<Rightarrow> string list \<Rightarrow>
   world \<Rightarrow> (admin_error + admin_state) \<times> world" where
  "BootstrapState rnd probe self selfTailnet st defined w =
     (case EnsureBootstrapFiles rnd w of
        (Some e, w1) \<Rightarrow> (Inl e, w1)
      | (None, w1) \<Rightarrow>
          (let peers = PeerHostnames st selfTailnet defined;
               adm = (if length peers = 0 then True
                      else if found_admin probe peers then False
                      else sort (self # peers) ! 0 = self)
           in (Inr (SetAdmin adm \<lparr>isAdmin = False\<rparr>), w1)))"

lemma found_admin_iff: "found_admin probe ps \<longleftrightarrow> (\<exists>p \<in> set ps. probe p = Some True)"
  by (induction ps) (auto split: option.splits)

lemma hd_sort_Min: "sort (x # xs) ! 0 = Min (insert x (set xs))"
proof -
  have ne: "sort (x # xs) \<noteq> []" by (metis list.distinct(1) length_0_conv length_sort)
  then obtain y ys where y: "sort (x # xs) = y # ys" by (meson neq_Nil_conv)
  have srt: "sorted (y # ys)" by (simp only: y [symmetric] sorted_sort)
  have set: "set (y # ys) = insert x (set xs)" by (simp only: y [symmetric] set_sort list.set)
  have "Min (set (y # ys)) = y" using srt by (intro Min_eqI) auto
  then show ?thesis by (simp only: y set nth_Cons_0)
qed

lemma set_PeerHostnames:
  "set (PeerHostnames (Some peers) self defined) =
     daemonHostnameForTailnetPeer ` {h. Some h \<in> set peers \<and> h \<noteq> [] \<and> h \<noteq> self \<and> h \<in> set defined}"
  by (force simp: PeerHostnames_def split: option.splits if_splits)

lemma Determine_Min:
  "DetermineIsAdmin probe self peers \<longleftrightarrow>
     \<not> found_admin probe peers \<and> Min (insert self (set peers)) = self"
  unfolding DetermineIsAdmin_def hd_sort_Min by (cases peers) simp_all

lemma Bootstrap_Determine:
  "BootstrapState rnd probe self selfT st defined w = (Inr s, w') \<Longrightarrow>
   IsAdmin s = DetermineIsAdmin probe self (PeerHostnames st selfT defined)"
  by (auto simp: BootstrapState_def DetermineIsAdmin_def Let_def SetAdmin_def IsAdmin_def split: prod.splits option.splits)

lemma daemon_names_agree: "daemonHostnameForTailnetPeer h = daemonHostnameForTailnetHost h"
  by (simp add: daemonHostnameForTailnetPeer_def daemonHostnameForTailnetHost_def SanitizeHostname_def)

lemma bool_opt_neq: "x \<noteq> Some True \<Longrightarrow> x = None \<or> x = Some False"
  by (cases x) auto

section \<open>Properties of the names and of the election\<close>

lemma host_char_dash [simp]: "host_char (host_char_or_dash c)"
  by (simp add: host_char_or_dash_def host_char_def)

lemma host_char_lower: "host_char c \<Longrightarrow> lower_char c = c"
  by (auto simp: host_char_def lower_char_def is_lower_def is_digit_def is_upper_def)

lemma Sanitize_chars: "c \<in> set (SanitizeHostname h) \<Longrightarrow> host_char c"
  using set_trim_by [of "\<lambda>c. c = CHR ''-''" "map host_char_or_dash (to_lower h)"]
  by (auto simp: SanitizeHostname_def)

lemma trim_by_id: "s \<noteq> [] \<Longrightarrow> \<not> P (hd s) \<Longrightarrow> \<not> P (last s) \<Longrightarrow> trim_by P s = s"
proof -
  assume s: "s \<noteq> []" "\<not> P (hd s)" "\<not> P (last s)"
  then have "dropWhile P s = s" by (cases s) auto
  moreover have "dropWhile P (rev s) = rev s" using s(1,3) by (cases "rev s") (auto simp: last_rev hd_rev [symmetric])
  ultimately show ?thesis by (simp add: trim_by_def trim_right_by_def)
qed

text \<open>
  Node names: The sanitised host name has only lower-case letters, digits and hyphens, and no
  hyphen at either end; sanitising is idempotent; and the name a node registers under is the one its
  peers derive for it.
\<close>

theorem hostname_sanitized:
  "list_all host_char (SanitizeHostname h) \<and>
   (SanitizeHostname h = [] \<or> hd (SanitizeHostname h) \<noteq> CHR ''-'' \<and> last (SanitizeHostname h) \<noteq> CHR ''-'') \<and>
   SanitizeHostname (SanitizeHostname h) = SanitizeHostname h \<and>
   (h \<noteq> [] \<longrightarrow> resolveHostname [] h os_host = Some (daemonHostnameForTailnetPeer h))"
proof (intro conjI)
  let ?s = "SanitizeHostname h"
  show chars: "list_all host_char ?s" using Sanitize_chars by (auto simp: list_all_iff)
  show ends: "?s = [] \<or> hd ?s \<noteq> CHR ''-'' \<and> last ?s \<noteq> CHR ''-''"
    using trim_by_ends [of "\<lambda>c. c = CHR ''-''" "map host_char_or_dash (to_lower h)"]
    by (auto simp: SanitizeHostname_def)
  have "to_lower ?s = ?s" using chars host_char_lower
    unfolding to_lower_def by (intro map_idI) (auto simp: list_all_iff)
  moreover have "map host_char_or_dash ?s = ?s"
    using chars by (intro map_idI) (auto simp: list_all_iff host_char_or_dash_def)
  moreover have "trim_by (\<lambda>c. c = CHR ''-'') ?s = ?s"
  proof (cases "?s = []")
    case True
    then have "trim_by (\<lambda>c. c = CHR ''-'') ?s = trim_by (\<lambda>c. c = CHR ''-'') []" by simp
    also have "\<dots> = []" by (simp add: trim_by_def trim_right_by_def)
    finally show ?thesis using True by simp
  next
    case False
    with ends have "hd ?s \<noteq> CHR ''-''" "last ?s \<noteq> CHR ''-''" by simp_all
    then show ?thesis by (intro trim_by_id [OF False])
  qed
  ultimately show "SanitizeHostname ?s = ?s" by (subst SanitizeHostname_def) simp
  show "h \<noteq> [] \<longrightarrow> resolveHostname [] h os_host = Some (daemonHostnameForTailnetPeer h)"
    by (simp add: resolveHostname_def daemon_names_agree)
qed

theorem hostname_sanitized_witness:
  "list_all host_char (SanitizeHostname ''-My_Host.'') \<and> SanitizeHostname ''-My_Host.'' = ''my-host''"
  using hostname_sanitized [of "''-My_Host.''" None] by (rule conjI [OF conjunct1]) code_simp


lemma distinct_demo: "inj_on daemonHostnameForTailnetPeer (set [''Beta'', ''alpha''])"
  by code_simp

definition demo_etc :: world where
  "demo_etc = demo_world [(AdminKeyPath, text_file ''00ff''), (AdminFencePath, text_file ''0'')] [AdminDirPath]"

definition demo_boot :: "string \<Rightarrow> (admin_error + admin_state) \<times> world" where
  "demo_boot t = BootstrapState None (\<lambda>_. Some False) (daemonHostnameForTailnetPeer t) t
     (Some [Some ''alpha'', None, Some ''Beta'']) [''Beta'', ''alpha''] demo_etc"


text \<open>
  An explicit name breaks the election: Peers know a node by the name derived from its tailnet
  name, but it enters the election under \<^verbatim>\<open>TAILKITD_HOSTNAME\<close> as given (the code adds no \<^verbatim>\<open>tailkitd-\<close>). Where
  the two differ, two nodes that see each other, none admin, may both decline the role, or both take it.
\<close>

theorem election_explicit_name:
  "resolveHostname e t os_host = Some self \<Longrightarrow> e \<noteq> [] \<Longrightarrow> self = e \<and>
   (let peers = (\<lambda>t u. PeerHostnames (Some [Some u]) t [''alpha'', ''beta'']); probe = (\<lambda>_. Some False) in
     \<not> DetermineIsAdmin probe ''tailkitd-zeta'' (peers ''alpha'' ''beta'') \<and>
     \<not> DetermineIsAdmin probe ''tailkitd-beta'' (peers ''beta'' ''alpha'') \<and>
     DetermineIsAdmin probe ''tailkitd-alpha'' (peers ''alpha'' ''beta'') \<and>
     DetermineIsAdmin probe ''tailkitd-aa'' (peers ''beta'' ''alpha''))"
  by (rule conjI) (simp add: resolveHostname_def, code_simp)

theorem election_explicit_name_witness:
  "resolveHostname ''box'' ''alpha'' None = Some ''box'' \<and>
   \<not> DetermineIsAdmin (\<lambda>_. Some False) ''tailkitd-zeta'' (PeerHostnames (Some [Some ''beta'']) ''alpha'' [''alpha'', ''beta''])"
proof -
  have "resolveHostname ''box'' ''alpha'' None = Some ''box''" by code_simp
  with election_explicit_name [OF this] show ?thesis by (simp add: Let_def)
qed

section \<open>Properties of the bootstrap files\<close>

lemma os_Stat_same: "os_Stat p w = (r, w') \<Longrightarrow> same_files w w'"
  using quietD [OF quiet_ops(9)] .

lemma os_Stat_ENOENT:
  "os_Stat p w = (Inl ENOENT, w') \<Longrightarrow> get_file w p = None \<and> clean p \<notin> set (w_dirs w)"
  by (auto simp: os_Stat_def io_call_def Let_def get_file_def split: if_splits fault.splits)

lemma WriteFile_other:
  "os_WriteFile p d perm w = (r, w') \<Longrightarrow> clean q \<noteq> clean p \<Longrightarrow> get_file w' q = get_file w q"
  by (auto simp: os_WriteFile_def io_call_def Let_def split: if_splits fault.splits)

lemma WriteFile_Inr:
  "os_WriteFile p d perm w = (Inr u, w') \<Longrightarrow> get_file w p = None \<Longrightarrow>
   get_file w' p = Some \<lparr>f_data = d, f_perm = perm\<rparr>"
  by (auto simp: os_WriteFile_def io_call_def Let_def split: if_splits fault.splits)

lemma ensure_file_keeps:
  assumes "ensure_file p c w = (r, w')" "get_file w q = Some f"
  shows "get_file w' q = Some f"
proof -
  obtain x w1 where st: "os_Stat p w = (x, w1)" by fastforce
  have q: "get_file w1 q = Some f" using same_files_get [OF os_Stat_same [OF st]] assms(2) by simp
  show ?thesis
  proof (cases "x = Inl ENOENT")
    case False
    then have "w' = w1" using assms(1) st by (auto simp: ensure_file_def split: sum.splits io_error.splits)
    with q show ?thesis by simp
  next
    case True
    with os_Stat_ENOENT st assms(2) have ne: "clean q \<noteq> clean p" by (auto simp: get_file_def)
    show ?thesis
    proof (cases c)
      case None with True st assms(1) q show ?thesis by (simp add: ensure_file_def)
    next
      case (Some d)
      obtain y w2 where wr: "os_WriteFile p d 384 w1 = (y, w2)" by fastforce
      have "w' = w2" using True st assms(1) Some wr by (auto simp: ensure_file_def split: sum.splits)
      with WriteFile_other [OF wr ne] q show ?thesis by simp
    qed
  qed
qed

text \<open>
  Bootstrap files: Preparing the files never changes a file that exists, whatever fails and
  wherever the process dies: a node keeps its key and its fence across restarts.
\<close>

theorem bootstrap_keeps_files:
  assumes "EnsureBootstrapFiles rnd w = (r, w')" "get_file w q = Some f"
  shows "get_file w' q = Some f"
proof -
  obtain x w1 where mk: "os_MkdirAll AdminDirPath w = (x, w1)" by fastforce
  obtain y w2 where key: "ensure_file AdminKeyPath (map_option hex_encode rnd) w1 = (y, w2)" by fastforce
  have q: "get_file w1 q = Some f" "get_file w2 q = Some f"
    using MkdirAll_files [OF mk] assms(2) ensure_file_keeps [OF key] by simp_all
  show ?thesis
    using assms(1) q ensure_file_keeps [of AdminFencePath "Some [CHR ''0'', CHR 0x0A]" w2 r w' q f]
    by (cases x; cases y) (simp_all only: EnsureBootstrapFiles_def mk key prod.case sum.case option.case prod.inject)
qed

theorem bootstrap_keeps_files_witness:
  "\<exists>r w'. EnsureBootstrapFiles (Some []) demo_etc = (r, w') \<and>
     map_option f_data (get_file w' AdminKeyPath) = Some ''00ff''"
proof -
  obtain r w' where run: "EnsureBootstrapFiles (Some []) demo_etc = (r, w')" by fastforce
  have "get_file demo_etc AdminKeyPath = Some (text_file ''00ff'')" by code_simp
  with bootstrap_keeps_files [OF run this] run show ?thesis by (simp add: text_file_def)
qed

text \<open>A process that dies while it writes the key, and its restart.\<close>

definition demo_crash :: world where
  "demo_crash = (demo_world [] [''/etc'', AdminDirPath])\<lparr>w_fault := (\<lambda>n. if n = 2 then Dies 0 else Fine)\<rparr>"

definition restarted :: "world \<Rightarrow> world" where
  "restarted w = w\<lparr>w_dead := False, w_fault := (\<lambda>_. Fine)\<rparr>"

end
