(* ===== verification/Epoch.thy ===== *)
theory Epoch
  imports Http
begin

text \<open>
  The node's mutation epoch (\<^verbatim>\<open>internal/state/epoch.go\<close>): a counter kept in memory and in a file,
  which mutating requests must name. The state of the component is the counter; its file lives
  in the world. \<open>int64\<close> arithmetic wraps as in Go.
\<close>

record epoch =
  ep_path :: string
  ep_value :: int

datatype epoch_error = ReadError io_error | ParseError num_error | StaleEpoch int int
  | FutureEpoch int int | PersistError io_error

definition epoch_load :: "string \<Rightarrow> world \<Rightarrow> (epoch_error + int) \<times> world" where
  "epoch_load path w =
     (case os_ReadFile path w of
        (Inl ENOENT, w') \<Rightarrow> (Inr 0, w')
      | (Inl e, w') \<Rightarrow> (Inl (ReadError e), w')
      | (Inr data, w') \<Rightarrow>
          (case parse_int (trim_space data) of
             Inl e \<Rightarrow> (Inl (ParseError e), w')
           | Inr n \<Rightarrow> (Inr n, w')))"

definition NewEpoch :: "string \<Rightarrow> world \<Rightarrow> (epoch_error + epoch) \<times> world" where
  "NewEpoch path w =
     (case epoch_load path w of
        (Inl e, w') \<Rightarrow> (Inl e, w')
      | (Inr n, w') \<Rightarrow> (Inr \<lparr>ep_path = path, ep_value = n\<rparr>, w'))"

definition epoch_Current :: "epoch \<Rightarrow> int" where
  "epoch_Current e = ep_value e"

definition epoch_Validate :: "epoch \<Rightarrow> int \<Rightarrow> epoch_error option" where
  "epoch_Validate e c =
     (let current = epoch_Current e in
      if c < current then Some (StaleEpoch c current)
      else if c > current then Some (FutureEpoch c current)
      else None)"

text \<open>The in-memory value is bumped before the file is written, and stays bumped if that fails.\<close>

definition epoch_Increment :: "epoch \<Rightarrow> world \<Rightarrow> (epoch_error + int) \<times> epoch \<times> world" where
  "epoch_Increment e w =
     (let v = wrap64 (ep_value e + 1); e' = e\<lparr>ep_value := v\<rparr> in
      case os_MkdirAll (dir_of (ep_path e)) w of
        (Inl x, w1) \<Rightarrow> (Inl (PersistError x), e', w1)
      | (Inr _, w1) \<Rightarrow>
          (case AtomicWrite (ep_path e) (int_to_dec v @ [CHR 0x0A]) 384 w1 of
             (Inl x, w2) \<Rightarrow> (Inl (PersistError x), e', w2)
           | (Inr _, w2) \<Rightarrow> (Inr v, e', w2)))"

lemma Validate_None_iff: "epoch_Validate e c = None \<longleftrightarrow> c = ep_value e"
  by (auto simp: epoch_Validate_def epoch_Current_def Let_def)

lemma Increment_value: "ep_value (fst (snd (epoch_Increment e w))) = wrap64 (ep_value e + 1)"
  by (auto simp: epoch_Increment_def Let_def split: prod.splits sum.splits)

lemma Increment_path: "ep_path (fst (snd (epoch_Increment e w))) = ep_path e"
  by (auto simp: epoch_Increment_def Let_def split: prod.splits sum.splits)

lemma wrap64_succ_neq: "in_int64 i \<Longrightarrow> wrap64 (i + 1) \<noteq> i"
proof
  assume i: "in_int64 i" and eq: "wrap64 (i + 1) = i"
  have "(i + 1 + 2 ^ 63) mod 2 ^ 64 = i + 2 ^ 63" using eq unfolding wrap64_def by linarith
  moreover have "(i + 2 ^ 63) mod (2 ^ 64 :: int) = i + 2 ^ 63"
    using i by (intro mod_pos_pos_trivial) (simp_all add: in_int64_def int64_min_def int64_max_def)
  ultimately have "(i + 1 + 2 ^ 63) mod 2 ^ 64 = (i + 2 ^ 63) mod (2 ^ 64 :: int)" by simp
  then have "(2 ^ 64 :: int) dvd (i + 1 + 2 ^ 63) - (i + 2 ^ 63)" using mod_eq_dvd_iff by blast
  then have "(2 ^ 64 :: int) dvd 1" by (simp only: add_diff_cancel_left' add.assoc diff_add_eq_diff_diff_swap) (simp add: algebra_simps)
  then show False by simp
qed

lemma ff_Increment: "fault_free w \<Longrightarrow> fault_free (snd (snd (epoch_Increment e w)))"
  by (auto simp: epoch_Increment_def Let_def split: prod.splits sum.splits dest: ff_dests)

lemma Increment_InrE:
  assumes "epoch_Increment e w = (Inr v, e', w')"
  obtains w1 where "AtomicWrite (ep_path e) (int_to_dec v @ [CHR 0x0A]) 384 w1 = (Inr (), w')"
    "v = wrap64 (ep_value e + 1)" "e' = e\<lparr>ep_value := v\<rparr>"
proof -
  obtain x w1 where mk: "os_MkdirAll (dir_of (ep_path e)) w = (x, w1)" by fastforce
  obtain y w2 where aw: "AtomicWrite (ep_path e)
      (int_to_dec (wrap64 (ep_value e + 1)) @ [CHR 0x0A]) 384 w1 = (y, w2)" by fastforce
  let ?v = "wrap64 (ep_value e + 1)"
  have run: "epoch_Increment e w =
      (case x of Inl a \<Rightarrow> (Inl (PersistError a), e\<lparr>ep_value := ?v\<rparr>, w1)
       | Inr _ \<Rightarrow> (case y of Inl a \<Rightarrow> (Inl (PersistError a), e\<lparr>ep_value := ?v\<rparr>, w2)
                  | Inr _ \<Rightarrow> (Inr ?v, e\<lparr>ep_value := ?v\<rparr>, w2)))"
    by (simp only: epoch_Increment_def Let_def mk aw prod.case)
  from assms run obtain u where "y = Inr u" and eqs: "v = ?v" "e' = e\<lparr>ep_value := ?v\<rparr>" "w2 = w'"
    by (cases x; cases y) (simp_all only: sum.case prod.inject sum.inject sum.distinct HOL.simp_thms)
  then have "AtomicWrite (ep_path e) (int_to_dec v @ [CHR 0x0A]) 384 w1 = (Inr (), w')"
    using aw by (cases u) (simp only:)
  with eqs show ?thesis by (intro that) (simp_all only:)
qed

text \<open>
  Persistence round trip: When an increment reports success, the value it returns is on disk:
  a daemon that restarts from the resulting files, or reloads the epoch at any later moment when
  the read succeeds and the file is unchanged, starts from exactly that value, also where the
  64-bit counter has wrapped.
\<close>

theorem epoch_increment_reload:
  assumes inc: "epoch_Increment e w = (Inr v, e', w')"
    and load: "NewEpoch (ep_path e) w2 = (r, w3)"
    and disk: "get_file w2 (ep_path e) = get_file w' (ep_path e)"
    and alive: "fault_free w2"
  shows "r = Inr e' \<and> v = ep_value e' \<and> v = wrap64 (ep_value e + 1)"
proof -
  let ?v = "wrap64 (ep_value e + 1)" and ?p = "ep_path e"
  from inc obtain w1 where aw: "AtomicWrite ?p (int_to_dec ?v @ [CHR 0x0A]) 384 w1 = (Inr (), w')"
    and v: "v = ?v" and e': "e' = e\<lparr>ep_value := ?v\<rparr>"
    by (rule Increment_InrE) simp
  have "get_file w' ?p = Some \<lparr>f_data = int_to_dec ?v @ [CHR 0x0A], f_perm = 384\<rparr>"
    unfolding wrote_get [OF atomic_write_ok [OF aw]] by (rule if_P) (rule refl)
  with disk have "get_file w2 ?p = Some \<lparr>f_data = int_to_dec ?v @ [CHR 0x0A], f_perm = 384\<rparr>"
    by (rule trans)
  from ReadFile_fault_free [OF alive this] have "epoch_load ?p w2 = (Inr ?v, w2\<lparr>w_clock := Suc (w_clock w2)\<rparr>)"
    by (simp only: epoch_load_def prod.case sum.case ofile.simps trim_dec_line
        parse_int_dec [OF wrap64_in_range])
  then have "r = Inr \<lparr>ep_path = ?p, ep_value = ?v\<rparr>"
    using load by (auto simp: NewEpoch_def)
  with v e' show ?thesis by simp
qed

theorem epoch_increment_reload_witness:
  "\<exists>e' w' w3. epoch_Increment \<lparr>ep_path = ''/e/s'', ep_value = 41\<rparr> (demo_world [] []) = (Inr 42, e', w') \<and>
     NewEpoch ''/e/s'' (w'\<lparr>w_clock := 0\<rparr>) = (Inr e', w3) \<and> ep_value e' = 42"
    (is "\<exists>e' w' w3. ?run = _ \<and> _")
proof -
  let ?e = "\<lparr>ep_path = ''/e/s'', ep_value = 41\<rparr>"
  obtain r e' w' where run: "?run = (r, e', w')" by (cases ?run) auto
  have "fst ?run = Inr 42" by code_simp
  with run have r: "r = Inr 42" by simp
  have ff: "fault_free (w'\<lparr>w_clock := 0\<rparr>)" using ff_Increment [of "demo_world [] []" ?e] run by simp
  obtain r2 w3 where load: "NewEpoch ''/e/s'' (w'\<lparr>w_clock := 0\<rparr>) = (r2, w3)" by (cases "NewEpoch ''/e/s'' (w'\<lparr>w_clock := 0\<rparr>)") auto
  have "r2 = Inr e' \<and> 42 = ep_value e' \<and> 42 = wrap64 (ep_value ?e + 1)"
    using epoch_increment_reload [OF run [unfolded r], of "w'\<lparr>w_clock := 0\<rparr>" r2 w3] load ff by simp
  with run r load show ?thesis by auto
qed

end
