(* ===== verification/Services.thy ===== *)
theory Services
  imports ConfDir
begin

text \<open>
  Outsider services (\<^verbatim>\<open>internal/services/registry.go\<close>): validation of a service description, the
  files of \<^verbatim>\<open>services.d\<close>, the registry and its copies, and the listing endpoint
  (\<^verbatim>\<open>internal/api/services.go\<close>). A Go slice is a list option, \<open>None\<close> being the nil slice, which JSON
  prints as \<^verbatim>\<open>null\<close>. The TOML decoder is a parameter.
\<close>

type_synonym 'a slice = "'a list option"

record service_config =
  sv_Name :: string
  sv_Runtime :: string
  sv_Priority :: string
  sv_Tags :: "string slice"
  sv_ExpectedPorts :: "16 word slice"
  sv_SystemdUnit :: string
  sv_BinaryPath :: string
  sv_PidFile :: string

datatype service_error = EmptyName | NeedsUnit | UnitExcludesBinary | NeedsBinary | BinaryExcludesUnit
  | PortOnlyTargets | InvalidRuntime string | ServiceDirError io_error | ServiceWatchError

definition svc_defaults :: "service_config \<Rightarrow> service_config" where
  "svc_defaults s = s\<lparr>
     sv_Tags := (if sv_Tags s = None then Some [] else sv_Tags s),
     sv_ExpectedPorts := (if sv_ExpectedPorts s = None then Some [] else sv_ExpectedPorts s),
     sv_Priority := (if sv_Priority s = [] then ''normal'' else sv_Priority s)\<rparr>"

definition svc_Validate :: "service_config \<Rightarrow> service_error + service_config" where
  "svc_Validate s0 =
     (let s = s0\<lparr>sv_Runtime := to_lower (trim_space (sv_Runtime s0))\<rparr> in
      if sv_Name s = [] then Inl EmptyName
      else if sv_Runtime s = ''systemd'' then
        (if sv_SystemdUnit s = [] then Inl NeedsUnit
         else if sv_BinaryPath s \<noteq> [] \<or> sv_PidFile s \<noteq> [] then Inl UnitExcludesBinary
         else Inr (svc_defaults s))
      else if sv_Runtime s = ''binary'' then
        (if sv_BinaryPath s = [] \<or> sv_PidFile s = [] then Inl NeedsBinary
         else if sv_SystemdUnit s \<noteq> [] then Inl BinaryExcludesUnit
         else Inr (svc_defaults s))
      else if sv_Runtime s = ''port-only'' then
        (if sv_SystemdUnit s \<noteq> [] \<or> sv_BinaryPath s \<noteq> [] \<or> sv_PidFile s \<noteq> [] then Inl PortOnlyTargets
         else Inr (svc_defaults s))
      else Inl (InvalidRuntime (sv_Runtime s)))"

text \<open>\<open>append([]T(nil), xs...)\<close>: a copy, but an empty slice becomes the nil slice.\<close>

definition clone_slice :: "'a slice \<Rightarrow> 'a slice" where
  "clone_slice s = (case s of None \<Rightarrow> None | Some xs \<Rightarrow> if xs = [] then None else Some xs)"

definition cloneService :: "service_config \<Rightarrow> service_config" where
  "cloneService s = s\<lparr>sv_Tags := clone_slice (sv_Tags s), sv_ExpectedPorts := clone_slice (sv_ExpectedPorts s)\<rparr>"

definition cloneServices :: "(string \<times> service_config) list \<Rightarrow> (string \<times> service_config) list" where
  "cloneServices m = map (\<lambda>(k, s). (k, cloneService s)) m"

definition FilePath :: "string \<Rightarrow> string \<Rightarrow> string" where
  "FilePath d name = join_path [d, name @ ''.toml'']"

type_synonym service_decoder = "string \<Rightarrow> (service_config \<times> string list) option"

text \<open>\<open>loadOne\<close> after the read.\<close>

definition svc_parse :: "service_decoder \<Rightarrow> string \<Rightarrow> service_config option" where
  "svc_parse toml data =
     (case toml data of
        None \<Rightarrow> None
      | Some (s, undecoded) \<Rightarrow>
          if undecoded \<noteq> [] then None
          else (case svc_Validate s of Inl e \<Rightarrow> None | Inr s' \<Rightarrow> Some s'))"

definition by_name :: "service_config list \<Rightarrow> (string \<times> service_config) list" where
  "by_name ss = fold (\<lambda>s. AList.update (sv_Name s) s) ss []"

text \<open>A missing directory is an empty set of services; of two files with one name the later wins.\<close>

definition svc_LoadDir ::
  "service_decoder \<Rightarrow> string \<Rightarrow> world \<Rightarrow> (service_error + (string \<times> service_config) list) \<times> world" where
  "svc_LoadDir toml d w =
     (case os_ReadDir d w of
        (Inl ENOENT, w1) \<Rightarrow> (Inr [], w1)
      | (Inl e, w1) \<Rightarrow> (Inl (ServiceDirError e), w1)
      | (Inr entries, w1) \<Rightarrow>
          (case load_entries (svc_parse toml) ''.toml'' d entries w1 of (ss, w2) \<Rightarrow> (Inr (by_name ss), w2)))"

record service_registry =
  sr_dir :: string
  sr_services :: "(string \<times> service_config) list"

definition services_Reload ::
  "service_decoder \<Rightarrow> service_registry \<Rightarrow> world \<Rightarrow> service_error option \<times> service_registry \<times> world" where
  "services_Reload toml r w =
     (case svc_LoadDir toml (sr_dir r) w of
        (Inl e, w1) \<Rightarrow> (Some e, r, w1)
      | (Inr loaded, w1) \<Rightarrow> (None, r\<lparr>sr_services := cloneServices loaded\<rparr>, w1))"

definition services_NewRegistry ::
  "service_decoder \<Rightarrow> bool \<Rightarrow> string \<Rightarrow> world \<Rightarrow> (service_error + service_registry) \<times> world" where
  "services_NewRegistry toml watch_ok d w =
     (case os_MkdirAll d w of
        (Inl e, w1) \<Rightarrow> (Inl (ServiceDirError e), w1)
      | (Inr _, w1) \<Rightarrow>
          if \<not> watch_ok then (Inl ServiceWatchError, w1)
          else (case services_Reload toml \<lparr>sr_dir = d, sr_services = []\<rparr> w1 of
                  (Some e, _, w2) \<Rightarrow> (Inl e, w2)
                | (None, r, w2) \<Rightarrow> (Inr r, w2)))"

definition GetServices :: "service_registry \<Rightarrow> (string \<times> service_config) list" where
  "GetServices r = cloneServices (sr_services r)"

definition ListServices :: "service_registry \<Rightarrow> service_config list" where
  "ListServices r =
     map (\<lambda>n. cloneService (the (map_of (sr_services r) n))) (sort (map fst (sr_services r)))"

section \<open>Well-formed services\<close>

definition targets_ok :: "service_config \<Rightarrow> bool" where
  "targets_ok s \<longleftrightarrow>
     sv_Runtime s = ''systemd'' \<and> sv_SystemdUnit s \<noteq> [] \<and> sv_BinaryPath s = [] \<and> sv_PidFile s = [] \<or>
     sv_Runtime s = ''binary'' \<and> sv_SystemdUnit s = [] \<and> sv_BinaryPath s \<noteq> [] \<and> sv_PidFile s \<noteq> [] \<or>
     sv_Runtime s = ''port-only'' \<and> sv_SystemdUnit s = [] \<and> sv_BinaryPath s = [] \<and> sv_PidFile s = []"

definition svc_ok :: "service_config \<Rightarrow> bool" where
  "svc_ok s \<longleftrightarrow> sv_Name s \<noteq> [] \<and> sv_Priority s \<noteq> [] \<and> targets_ok s"

definition svc_norm :: "service_config \<Rightarrow> service_config" where
  "svc_norm s = s\<lparr>sv_Runtime := to_lower (trim_space (sv_Runtime s))\<rparr>"

text \<open>What validation accepts, and what it returns.\<close>

lemma svc_Validate_Inr:
  "svc_Validate s = Inr s' \<longleftrightarrow> sv_Name s \<noteq> [] \<and> targets_ok (svc_norm s) \<and> s' = svc_defaults (svc_norm s)"
proof -
  let ?rt = "to_lower (trim_space (sv_Runtime s))"
  consider "?rt = ''systemd''" | "?rt = ''binary''" | "?rt = ''port-only''"
    | "?rt \<noteq> ''systemd''" "?rt \<noteq> ''binary''" "?rt \<noteq> ''port-only''" by blast
  then show ?thesis
  proof cases
    case 4 then show ?thesis by (simp add: svc_Validate_def Let_def targets_ok_def svc_norm_def)
  qed (auto simp add: svc_Validate_def Let_def targets_ok_def svc_norm_def)
qed

lemma svc_defaults_fields [simp]:
  "sv_Name (svc_defaults s) = sv_Name s" "sv_Runtime (svc_defaults s) = sv_Runtime s"
  "targets_ok (svc_defaults s) = targets_ok s" "sv_Priority (svc_defaults s) \<noteq> []"
  by (simp_all add: svc_defaults_def targets_ok_def)

lemma svc_defaults_idem [simp]: "svc_defaults (svc_defaults s) = svc_defaults s"
  by (simp add: svc_defaults_def)

lemma sv_Name_norm [simp]: "sv_Name (svc_norm s) = sv_Name s"
  by (simp add: svc_norm_def)

lemma targets_ok_norm: "targets_ok s \<Longrightarrow> svc_norm s = s"
proof -
  assume "targets_ok s"
  then have "sv_Runtime s \<in> {''systemd'', ''binary'', ''port-only''}" by (auto simp: targets_ok_def)
  moreover have "\<forall>r \<in> {''systemd'', ''binary'', ''port-only''}. to_lower (trim_space r) = r" by code_simp
  ultimately have "to_lower (trim_space (sv_Runtime s)) = sv_Runtime s" by blast
  then show ?thesis by (simp add: svc_norm_def)
qed

lemma svc_Validate_ok: "svc_Validate s = Inr s' \<Longrightarrow> svc_ok s'"
  by (simp add: svc_Validate_Inr svc_ok_def)

lemma svc_Validate_name: "svc_Validate s = Inr s' \<Longrightarrow> sv_Name s' = sv_Name s"
  by (simp add: svc_Validate_Inr)

lemma svc_Validate_idem: "svc_Validate s = Inr s' \<Longrightarrow> svc_Validate s' = Inr s'"
  by (simp add: svc_Validate_Inr targets_ok_norm)

lemma svc_ok_clone [simp]: "svc_ok (cloneService s) = svc_ok s"
  by (simp add: svc_ok_def targets_ok_def cloneService_def)

lemma cloneService_fields [simp]:
  "sv_Name (cloneService s) = sv_Name s" "sv_Runtime (cloneService s) = sv_Runtime s"
  "sv_Priority (cloneService s) = sv_Priority s"
  by (simp_all add: cloneService_def)

lemma clone_slice_idem [simp]: "clone_slice (clone_slice s) = clone_slice s"
  by (simp add: clone_slice_def split: option.splits)

lemma cloneService_idem [simp]: "cloneService (cloneService s) = cloneService s"
  by (simp add: cloneService_def)

lemma svc_parse_ok: "svc_parse toml data = Some s \<Longrightarrow> svc_ok s"
  by (auto simp: svc_parse_def split: option.splits if_splits sum.splits dest: svc_Validate_ok)

section \<open>The registry\<close>

definition services_wf :: "service_registry \<Rightarrow> bool" where
  "services_wf r \<longleftrightarrow> distinct (map fst (sr_services r)) \<and>
     (\<forall>(k, s) \<in> set (sr_services r). k = sv_Name s \<and> svc_ok s \<and> cloneService s = s)"

lemma map_of_cloneServices: "map_of (cloneServices m) n = map_option cloneService (map_of m n)"
  by (induction m) (auto simp: cloneServices_def)

lemma keys_cloneServices [simp]: "map fst (cloneServices m) = map fst m"
  by (induction m) (auto simp: cloneServices_def)

lemma by_name_snoc: "by_name (ss @ [s]) = AList.update (sv_Name s) s (by_name ss)"
  by (simp add: by_name_def)

lemma by_name_Nil [simp]: "by_name [] = []"
  by (simp add: by_name_def)

lemma by_name_distinct: "distinct (map fst (by_name ss))"
  by (induction ss rule: rev_induct) (auto simp: by_name_snoc intro: distinct_update)

lemma by_name_lookup: "map_of (by_name ss) n = List.find (\<lambda>s. sv_Name s = n) (rev ss)"
  by (induction ss rule: rev_induct) (auto simp: by_name_snoc)

lemma by_name_entry: "(k, s) \<in> set (by_name ss) \<Longrightarrow> s \<in> set ss \<and> k = sv_Name s"
  using map_of_is_SomeI [OF by_name_distinct, of k s ss] find_Some_in
  by (fastforce simp: by_name_lookup)

lemma services_Reload_dir: "services_Reload toml r w = (e, r', w') \<Longrightarrow> sr_dir r' = sr_dir r"
  by (auto simp: services_Reload_def split: prod.splits sum.splits)

lemma svc_LoadDir_InrD:
  assumes "svc_LoadDir toml d w = (Inr m, w')"
  shows "\<exists>ss. m = by_name ss \<and> (\<forall>s \<in> set ss. svc_ok s)"
proof -
  obtain x w1 where rd: "os_ReadDir d w = (x, w1)" by fastforce
  show ?thesis
  proof (cases x)
    case (Inl e)
    with assms rd have "m = []" by (cases e) (auto simp: svc_LoadDir_def)
    then show ?thesis by (metis by_name_Nil empty_iff empty_set)
  next
    case (Inr es)
    obtain ss w2 where ld: "load_entries (svc_parse toml) ''.toml'' d es w1 = (ss, w2)" by fastforce
    with Inr rd assms have "m = by_name ss" by (simp add: svc_LoadDir_def)
    with load_entries_sound [OF ld] svc_parse_ok show ?thesis by blast
  qed
qed

lemma services_Reload_wf:
  assumes "services_Reload toml r w = (e, r', w')" "services_wf r"
  shows "services_wf r'"
proof -
  obtain x w1 where ld: "svc_LoadDir toml (sr_dir r) w = (x, w1)" by fastforce
  show ?thesis
  proof (cases x)
    case (Inl y) then show ?thesis using assms ld by (simp add: services_Reload_def)
  next
    case (Inr m)
    then obtain ss where m: "m = by_name ss" and ok: "\<forall>s \<in> set ss. svc_ok s"
      using svc_LoadDir_InrD ld by blast
    have "r' = r\<lparr>sr_services := cloneServices m\<rparr>" using assms(1) ld Inr by (simp add: services_Reload_def)
    moreover have "k = sv_Name s \<and> svc_ok s \<and> cloneService s = s" if "(k, s) \<in> set (cloneServices m)" for k s
      using that m ok by (auto simp: cloneServices_def dest!: by_name_entry)
    ultimately show ?thesis using m by (auto simp: services_wf_def by_name_distinct)
  qed
qed

lemma svc_LoadDir_ff:
  assumes "fault_free w" "clean d \<in> set (w_dirs w)"
  shows "\<exists>w2. svc_LoadDir toml d w = (Inr (by_name (dir_docs (svc_parse toml) ''.toml'' d w)), w2) \<and> fault_free w2"
  using dir_docs_ff [OF assms(1), of "svc_parse toml" "''.toml''" d] assms(2)
  by (auto simp: svc_LoadDir_def ReadDir_ff [OF assms(1)])

lemma services_Reload_ff:
  assumes "fault_free w" "clean (sr_dir r) \<in> set (w_dirs w)"
  shows "\<exists>w2. services_Reload toml r w =
     (None, r\<lparr>sr_services := cloneServices (by_name (dir_docs (svc_parse toml) ''.toml'' (sr_dir r) w))\<rparr>, w2) \<and>
     fault_free w2"
  using svc_LoadDir_ff [OF assms, of toml] by (auto simp: services_Reload_def)

definition services_load ::
  "service_decoder \<Rightarrow> service_registry \<Rightarrow> world \<Rightarrow> (string \<times> service_config) list option" where
  "services_load toml r w =
     (case services_Reload toml r w of (None, r', _) \<Rightarrow> Some (sr_services r') | (Some _, _, _) \<Rightarrow> None)"

lemma services_load_ff:
  "fault_free w \<Longrightarrow> clean (sr_dir r) \<in> set (w_dirs w) \<Longrightarrow>
   services_load toml r w = Some (cloneServices (by_name (dir_docs (svc_parse toml) ''.toml'' (sr_dir r) w)))"
  using services_Reload_ff [of w r toml] by (auto simp: services_load_def)

interpretation services_watch: watched_dir "services_load toml r" toml_event "fs_change (sr_dir r)"
proof unfold_locales
  fix w ev w' assume ch: "fs_change (sr_dir r) w ev w'" and irr: "\<not> toml_event ev"
  from ch have "fault_free w" "fault_free w'" "clean (sr_dir r) \<in> set (w_dirs w)" "clean (sr_dir r) \<in> set (w_dirs w')"
    by (simp_all add: fs_change_def)
  then show "services_load toml r w' = services_load toml r w"
    by (simp add: services_load_ff dir_docs_change [OF ch irr])
qed

lemma ListServices_names: "services_wf r \<Longrightarrow> map sv_Name (ListServices r) = sort (map fst (sr_services r))"
proof -
  assume wf: "services_wf r"
  have "sv_Name (the (map_of (sr_services r) n)) = n" if "n \<in> set (map fst (sr_services r))" for n
  proof -
    from that obtain s where s: "(n, s) \<in> set (sr_services r)" by auto
    with wf have "map_of (sr_services r) n = Some s" "n = sv_Name s"
      by (auto simp: services_wf_def)
    then show ?thesis by simp
  qed
  then have "map (sv_Name \<circ> (\<lambda>n. the (map_of (sr_services r) n))) (sort (map fst (sr_services r))) =
      sort (map fst (sr_services r))" by (intro map_idI) simp
  then show ?thesis by (simp add: ListServices_def o_def)
qed

lemma ListServices_set: "services_wf r \<Longrightarrow> set (ListServices r) = snd ` set (sr_services r)"
proof -
  assume wf: "services_wf r"
  have look: "cloneService (the (map_of (sr_services r) k)) = s" if "(k, s) \<in> set (sr_services r)" for k s
    using that wf by (auto simp: services_wf_def)
  have "set (ListServices r) = (\<lambda>(k, s). cloneService (the (map_of (sr_services r) k))) ` set (sr_services r)"
    by (force simp: ListServices_def image_image)
  also have "\<dots> = snd ` set (sr_services r)" using look by (intro image_cong) auto
  finally show ?thesis .
qed

section \<open>The listing endpoint\<close>

text \<open>
  \<open>ServicesHandler\<close>: the outsider services and then the tools. What \<open>Tools.List\<close> gives is a
  parameter (the interface \<open>toolLister\<close>); of a tool only three fields are used.
\<close>

record tool =
  tl_Name :: string
  tl_Version :: string
  tl_TsnetHost :: string

record service_response =
  rp_Name :: string
  rp_Source :: string
  rp_Runtime :: string
  rp_Priority :: string
  rp_Tags :: "string slice"
  rp_ExpectedPorts :: "16 word slice"
  rp_SystemdUnit :: string
  rp_BinaryPath :: string
  rp_PidFile :: string
  rp_ToolVersion :: string
  rp_ToolTsHost :: string

definition outsider_response :: "service_config \<Rightarrow> service_response" where
  "outsider_response c = \<lparr>rp_Name = sv_Name c, rp_Source = ''outsider'', rp_Runtime = sv_Runtime c,
     rp_Priority = sv_Priority c, rp_Tags = sv_Tags c, rp_ExpectedPorts = sv_ExpectedPorts c,
     rp_SystemdUnit = sv_SystemdUnit c, rp_BinaryPath = sv_BinaryPath c, rp_PidFile = sv_PidFile c,
     rp_ToolVersion = [], rp_ToolTsHost = []\<rparr>"

definition tool_response :: "tool \<Rightarrow> service_response" where
  "tool_response t = \<lparr>rp_Name = tl_Name t, rp_Source = ''tool'', rp_Runtime = ''tsnet'',
     rp_Priority = ''normal'', rp_Tags = Some [], rp_ExpectedPorts = Some [],
     rp_SystemdUnit = [], rp_BinaryPath = [], rp_PidFile = [],
     rp_ToolVersion = tl_Version t, rp_ToolTsHost = tl_TsnetHost t\<rparr>"

definition ServicesHandler ::
  "service_registry \<Rightarrow> 'e + tool list \<Rightarrow> request \<Rightarrow> (service_response list, 'e) response" where
  "ServicesHandler reg tools r =
     (if Method r \<noteq> ''GET'' then bad_method ''use GET''
      else (let unified = map outsider_response (ListServices reg) in
            case tools of
              Inl e \<Rightarrow> WriteError 500 ''failed to list tools'' []
            | Inr ts \<Rightarrow> WriteJSON 200 (unified @ map tool_response ts)))"

section \<open>Properties\<close>

text \<open>
  Service validation: A description is accepted exactly when it has a name, and its runtime, up to
  letter case and surrounding white space, is one of three, with exactly the target fields this
  runtime has; what is accepted is well-formed, and validating it again changes nothing.
\<close>

theorem service_validate_spec:
  "(\<exists>s'. svc_Validate s = Inr s') = (sv_Name s \<noteq> [] \<and> targets_ok (svc_norm s)) \<and>
   (svc_Validate s = Inr s' \<longrightarrow> s' = svc_defaults (svc_norm s) \<and> svc_ok s' \<and> svc_Validate s' = Inr s')"
  using svc_Validate_ok svc_Validate_idem by (auto simp: svc_Validate_Inr)

theorem service_validate_spec_witness:
  "\<exists>s'. svc_Validate \<lparr>sv_Name = ''web'', sv_Runtime = '' Systemd'', sv_Priority = [], sv_Tags = None,
       sv_ExpectedPorts = None, sv_SystemdUnit = ''web.service'', sv_BinaryPath = [], sv_PidFile = []\<rparr> = Inr s' \<and>
     svc_ok s' \<and> sv_Runtime s' = ''systemd'' \<and> sv_Priority s' = ''normal''"
    (is "\<exists>s'. svc_Validate ?s = _ \<and> _")
proof -
  have "sv_Name ?s \<noteq> [] \<and> targets_ok (svc_norm ?s)" by (rule conjI) code_simp+
  then obtain s' where s': "svc_Validate ?s = Inr s'" using service_validate_spec [of ?s] by blast
  then have "s' = svc_defaults (svc_norm ?s)" "svc_ok s'" using service_validate_spec [of ?s s'] by blast+
  moreover have "sv_Runtime (svc_defaults (svc_norm ?s)) = ''systemd'' \<and>
      sv_Priority (svc_defaults (svc_norm ?s)) = ''normal''"
    by code_simp
  ultimately show ?thesis using s' by metis
qed

text \<open>
  Service file paths: A service name from the URL holds no slash; then its file lies directly in the
  services directory, whatever the name (dots included), and different names have different files.
\<close>

theorem service_file_in_dir:
  assumes "is_abs d" "clean d \<noteq> ''/''" "slash \<notin> set n" "slash \<notin> set m"
  shows "dir_of (FilePath d n) = clean d \<and> (FilePath d n = FilePath d m \<longleftrightarrow> n = m)"
proof -
  have path: "FilePath d k = clean d @ slash # (k @ ''.toml'')" if "slash \<notin> set k" for k
    unfolding FilePath_def using join_path_child [OF assms(1) normal_comp_suffix [OF that] assms(2)] by simp
  have "canonical (clean d)" using clean_canonical assms(1) by blast
  moreover have "slash \<notin> set (n @ ''.toml'')" using assms(3) by simp
  ultimately show ?thesis using dir_of_child path assms(3,4) by simp
qed

theorem service_file_in_dir_witness:
  "dir_of (FilePath ''/s'' ''..'') = ''/s'' \<and> FilePath ''/s'' ''..'' \<noteq> FilePath ''/s'' ''.''"
proof -
  have "clean ''/s'' = ''/s''" "is_abs ''/s''" by code_simp+
  then show ?thesis using service_file_in_dir [of "''/s''" "''..''" "''.''"] by simp
qed

text \<open>
  Service listing: After a reload the listing gives each registered service once, in strictly increasing order
  of names, and every one is valid. With no I/O error the service of a name is the one of the last
  well-formed file, in directory order, that declares it.
\<close>

theorem services_listing:
  assumes "services_Reload toml r w = (None, r', w')" "services_wf r"
  shows "sorted_wrt (<) (map sv_Name (ListServices r')) \<and> set (ListServices r') = snd ` set (sr_services r') \<and>
     (\<forall>s \<in> set (ListServices r'). svc_ok s) \<and>
     (fault_free w \<and> clean (sr_dir r) \<in> set (w_dirs w) \<longrightarrow>
        map_of (sr_services r') n = map_option cloneService
          (List.find (\<lambda>s. sv_Name s = n) (rev (dir_docs (svc_parse toml) ''.toml'' (sr_dir r) w))))"
proof (intro conjI impI)
  have wf: "services_wf r'" using services_Reload_wf assms by blast
  then show "set (ListServices r') = snd ` set (sr_services r')" by (rule ListServices_set)
  with wf show "\<forall>s \<in> set (ListServices r'). svc_ok s" by (auto simp: services_wf_def)
  have "distinct (map fst (sr_services r'))" using wf by (simp add: services_wf_def)
  then show "sorted_wrt (<) (map sv_Name (ListServices r'))"
    by (simp only: ListServices_names [OF wf] strict_sorted_iff) simp
next
  assume "fault_free w \<and> clean (sr_dir r) \<in> set (w_dirs w)"
  then obtain w2 where "services_Reload toml r w =
      (None, r\<lparr>sr_services := cloneServices (by_name (dir_docs (svc_parse toml) ''.toml'' (sr_dir r) w))\<rparr>, w2)"
    using services_Reload_ff [of w r toml] by blast
  with assms(1) show "map_of (sr_services r') n = map_option cloneService
      (List.find (\<lambda>s. sv_Name s = n) (rev (dir_docs (svc_parse toml) ''.toml'' (sr_dir r) w)))"
    by (auto simp: map_of_cloneServices by_name_lookup)
qed

definition demo_service :: "string \<Rightarrow> string \<Rightarrow> service_config" where
  "demo_service n u = \<lparr>sv_Name = n, sv_Runtime = ''systemd'', sv_Priority = ''normal'', sv_Tags = None,
     sv_ExpectedPorts = None, sv_SystemdUnit = u, sv_BinaryPath = [], sv_PidFile = []\<rparr>"

definition demo_svc_toml :: service_decoder where
  "demo_svc_toml s = (if s = [] then None else Some (demo_service (take 1 s) (drop 1 s), []))"

theorem services_listing_witness:
  "\<exists>r' w'. services_Reload demo_svc_toml \<lparr>sr_dir = ''/s'', sr_services = []\<rparr>
       (demo_world [(''/s/x.toml'', text_file ''bu''), (''/s/y.toml'', text_file ''av''), (''/s/z.toml'', text_file ''bw'')] [''/s''])
       = (None, r', w') \<and>
     sorted_wrt (<) (map sv_Name (ListServices r')) \<and> map_of (sr_services r') ''b'' = Some (demo_service ''b'' ''w'')"
    (is "\<exists>r' w'. services_Reload ?t ?r ?w = _ \<and> _")
proof -
  have ff: "fault_free ?w \<and> clean (sr_dir ?r) \<in> set (w_dirs ?w)" by (rule conjI [OF demo_fault_free]) code_simp
  then obtain r' w' where run: "services_Reload ?t ?r ?w = (None, r', w')"
    using services_Reload_ff [of ?w ?r ?t] by blast
  have wf: "services_wf ?r" by (simp add: services_wf_def)
  have "map_option cloneService (List.find (\<lambda>s. sv_Name s = ''b'') (rev (dir_docs (svc_parse ?t) ''.toml'' (sr_dir ?r) ?w)))
      = Some (demo_service ''b'' ''w'')" by code_simp
  with services_listing [OF run wf, of "''b''"] ff run show ?thesis by metis
qed

text \<open>
  Empty lists become null: Validation replaces a missing list of tags or ports by an empty one, so
  that clients see a list; but the registry copies each service with \<^verbatim>\<open>append([]T(nil), xs...)\<close>, which turns an
  empty slice into nil: no listed service has an empty list, those without tags or ports show nil.
\<close>

theorem service_lists_nil:
  "(svc_Validate s = Inr s' \<longrightarrow> sv_Tags s' \<noteq> None \<and> sv_ExpectedPorts s' \<noteq> None) \<and>
   (\<forall>c \<in> set (ListServices r). sv_Tags c \<noteq> Some [] \<and> sv_ExpectedPorts c \<noteq> Some [])"
  by (auto simp: svc_Validate_Inr svc_defaults_def ListServices_def cloneService_def clone_slice_def
      split: option.splits if_splits)

theorem service_lists_nil_witness:
  "\<exists>s'. svc_Validate ((demo_service ''w'' ''u'')\<lparr>sv_Priority := []\<rparr>) = Inr s' \<and> sv_Tags s' = Some [] \<and>
     (\<forall>c \<in> set (ListServices \<lparr>sr_dir = ''/s'', sr_services = [(''w'', s')]\<rparr>). sv_Tags c = None)"
    (is "\<exists>s'. svc_Validate ?s = _ \<and> _")
proof -
  have "targets_ok ?s" by (simp add: demo_service_def targets_ok_def)
  then obtain s' where s': "svc_Validate ?s = Inr s'" "s' = svc_defaults ?s"
    by (simp add: svc_Validate_Inr targets_ok_norm) (simp add: demo_service_def)
  then have "sv_Tags s' = Some []" by (simp add: svc_defaults_def demo_service_def)
  moreover have "\<forall>c \<in> set (ListServices \<lparr>sr_dir = ''/s'', sr_services = [(''w'', s')]\<rparr>). sv_Tags c = None"
    using service_lists_nil [of ?s s' "\<lparr>sr_dir = ''/s'', sr_services = [(''w'', s')]\<rparr>"] s'(1) calculation
    by (auto simp: ListServices_def cloneService_def clone_slice_def)
  ultimately show ?thesis using s' by blast
qed

text \<open>
  Live reload of the services: Whenever no event is queued and the debounce timer is not armed, the
  registry holds what a reload of the present directory gives, in every interleaving of changes,
  events and timer that starts in step.
\<close>

theorem services_watch_in_sync:
  assumes "watch_reach (services_load toml r) toml_event (fs_change (sr_dir r)) s t"
    and "watch_synced (services_load toml r) s" and "wt_queue t = []" and "\<not> wt_armed t"
  shows "watch_synced (services_load toml r) t"
  using services_watch.idle_synced [OF assms] .

theorem services_watch_in_sync_witness:
  "\<exists>t. watch_reach (services_load demo_svc_toml \<lparr>sr_dir = ''/a'', sr_services = []\<rparr>) toml_event (fs_change ''/a'')
       \<lparr>wt_disk = demo_world [] [''/a''], wt_queue = [], wt_armed = False, wt_snap = []\<rparr> t \<and>
     wt_snap t = [(''b'', demo_service ''b'' ''u'')]"
    (is "\<exists>t. watch_reach ?l _ _ ?s t \<and> _")
proof -
  let ?d = "demo_world [(''/a/x.toml'', text_file ''bu'')] [''/a'']"
  let ?t = "\<lparr>wt_disk = ?d, wt_queue = [] :: fs_event list, wt_armed = False,
      wt_snap = [(''b'', demo_service ''b'' ''u'')]\<rparr>"
  have load: "?l (demo_world [] [''/a'']) = Some []" "?l ?d = Some [(''b'', demo_service ''b'' ''u'')]"
    by code_simp+
  have reach: "watch_reach ?l toml_event (fs_change ''/a'') ?s ?t"
    using demo_reach [of ?l] load(2) by blast
  have "watch_synced ?l ?t"
    by (rule services_watch_in_sync [where r = "\<lparr>sr_dir = ''/a'', sr_services = []\<rparr>" and s = ?s])
       (use reach load in \<open>simp_all add: watch_synced_def\<close>)
  then have "wt_snap ?t = [(''b'', demo_service ''b'' ''u'')]" using load by (simp add: watch_synced_def)
  with reach show ?thesis by blast
qed

end
