(* ===== verification/HostConfig.thy ===== *)
theory HostConfig
  imports Services
begin

text \<open>
  The fleet's host file (\<^verbatim>\<open>internal/config/host.go\<close>): reading and validating it, generating it on the
  first start, and the manager that keeps the hosts and the node's own entry in memory. A nil slice or
  map is \<open>None\<close>; the TOML codec is a parameter.
\<close>

record host_config =
  hc_Name :: string
  hc_Role :: string
  hc_Environment :: string
  hc_Provider :: string
  hc_InstanceType :: string
  hc_Tags :: "string slice"
  hc_Metadata :: "(string \<times> string) list option"

datatype host_error = HostIO io_error | HostParse | HostUnknownKey string | NoHosts | HostNameRequired nat
  | DuplicateHost string | NoSelfHost string | SelfRequired | NameMismatch string | HostEncode | HostWatchError

type_synonym host_decoder = "string \<Rightarrow> (host_config list \<times> string list) option"
type_synonym host_encoder = "host_config list \<Rightarrow> string option"

definition or_default :: "string \<Rightarrow> string \<Rightarrow> string" where
  "or_default s d = (if s = [] then d else s)"

definition host_SetDefaults :: "string \<Rightarrow> host_config \<Rightarrow> host_config" where
  "host_SetDefaults name h = h\<lparr>
     hc_Name := or_default (hc_Name h) name,
     hc_Role := or_default (hc_Role h) ''unclassified'',
     hc_Environment := or_default (hc_Environment h) ''default'',
     hc_Provider := or_default (hc_Provider h) ''unknown'',
     hc_Tags := (if hc_Tags h = None then Some [] else hc_Tags h),
     hc_Metadata := (if hc_Metadata h = None then Some [] else hc_Metadata h)\<rparr>"

text \<open>The loop of \<open>LoadHostFile\<close>: index, names seen, hosts left.\<close>

fun check_hosts :: "nat \<Rightarrow> string list \<Rightarrow> host_config list \<Rightarrow> host_error + host_config list" where
  "check_hosts i seen [] = Inr []"
| "check_hosts i seen (h # hs) =
     (let h' = host_SetDefaults (hc_Name h) h in
      if hc_Name h' = [] then Inl (HostNameRequired i)
      else if hc_Name h' \<in> set seen then Inl (DuplicateHost (hc_Name h'))
      else (case check_hosts (Suc i) (hc_Name h' # seen) hs of
              Inl e \<Rightarrow> Inl e
            | Inr hs' \<Rightarrow> Inr (h' # hs')))"

definition parse_hosts :: "host_decoder \<Rightarrow> string \<Rightarrow> host_error + host_config list" where
  "parse_hosts toml data =
     (case toml data of
        None \<Rightarrow> Inl HostParse
      | Some (hs, undecoded) \<Rightarrow>
          (case undecoded of
             k # _ \<Rightarrow> Inl (HostUnknownKey k)
           | [] \<Rightarrow> if length hs = 0 then Inl NoHosts else check_hosts 0 [] hs))"

definition LoadHostFile :: "host_decoder \<Rightarrow> string \<Rightarrow> world \<Rightarrow> (host_error + host_config list) \<times> world" where
  "LoadHostFile toml p w =
     (case os_ReadFile p w of
        (Inl e, w1) \<Rightarrow> (Inl (HostIO e), w1)
      | (Inr data, w1) \<Rightarrow> (parse_hosts toml data, w1))"

definition cloneHostConfig :: "host_config \<Rightarrow> host_config" where
  "cloneHostConfig h = h\<lparr>hc_Tags := clone_slice (hc_Tags h),
     hc_Metadata := Some (case hc_Metadata h of None \<Rightarrow> [] | Some m \<Rightarrow> m)\<rparr>"

definition cloneHostConfigs :: "host_config list \<Rightarrow> host_config list" where
  "cloneHostConfigs hs = map cloneHostConfig hs"

definition WriteHostFile ::
  "host_encoder \<Rightarrow> string \<Rightarrow> host_config list \<Rightarrow> world \<Rightarrow> host_error option \<times> world" where
  "WriteHostFile enc p hs w =
     (case enc (cloneHostConfigs hs) of
        None \<Rightarrow> (Some HostEncode, w)
      | Some data \<Rightarrow>
          (case AtomicWrite p data 420 w of
             (Inl e, w1) \<Rightarrow> (Some (HostIO e), w1)
           | (Inr _, w1) \<Rightarrow> (None, w1)))"

definition empty_host :: host_config where
  "empty_host = \<lparr>hc_Name = [], hc_Role = [], hc_Environment = [], hc_Provider = [], hc_InstanceType = [],
     hc_Tags = None, hc_Metadata = None\<rparr>"

definition EnsureHostConfig ::
  "host_encoder \<Rightarrow> host_decoder \<Rightarrow> string \<Rightarrow> string \<Rightarrow> world \<Rightarrow> (host_error + host_config list) \<times> world" where
  "EnsureHostConfig enc toml p self w =
     (case os_MkdirAll (dir_of p) w of
        (Inl e, w1) \<Rightarrow> (Inl (HostIO e), w1)
      | (Inr _, w1) \<Rightarrow>
          (case os_Stat p w1 of
             (Inl ENOENT, w2) \<Rightarrow>
               (let hosts = [host_SetDefaults self empty_host] in
                case WriteHostFile enc p hosts w2 of
                  (Some e, w3) \<Rightarrow> (Inl e, w3)
                | (None, w3) \<Rightarrow> (Inr hosts, w3))
           | (Inl e, w2) \<Rightarrow> (Inl (HostIO e), w2)
           | (Inr _, w2) \<Rightarrow> LoadHostFile toml p w2))"

record host_manager =
  hm_hosts :: "host_config list"
  hm_self :: host_config
  hm_path :: string
  hm_selfTailnetName :: string

definition resolveSelfHost :: "host_config list \<Rightarrow> string \<Rightarrow> host_error + host_config" where
  "resolveSelfHost hs name =
     (case List.find (\<lambda>h. hc_Name h = name) hs of
        Some h \<Rightarrow> Inr (cloneHostConfig h)
      | None \<Rightarrow> Inl (NoSelfHost name))"

definition NewHostManager ::
  "host_encoder \<Rightarrow> host_decoder \<Rightarrow> bool \<Rightarrow> string \<Rightarrow> string \<Rightarrow> world \<Rightarrow> (host_error + host_manager) \<times> world" where
  "NewHostManager enc toml watch_ok p selfName w =
     (case EnsureHostConfig enc toml p selfName w of
        (Inl e, w1) \<Rightarrow> (Inl e, w1)
      | (Inr hosts, w1) \<Rightarrow>
          (case resolveSelfHost hosts selfName of
             Inl e \<Rightarrow> (Inl e, w1)
           | Inr self \<Rightarrow>
               if \<not> watch_ok then (Inl HostWatchError, w1)
               else (Inr \<lparr>hm_hosts = cloneHostConfigs hosts, hm_self = cloneHostConfig self,
                          hm_path = p, hm_selfTailnetName = selfName\<rparr>, w1)))"

definition hm_Get :: "host_manager \<Rightarrow> host_config" where
  "hm_Get m = cloneHostConfig (hm_self m)"

definition hm_All :: "host_manager \<Rightarrow> host_config list" where
  "hm_All m = cloneHostConfigs (hm_hosts m)"

definition hm_Names :: "host_manager \<Rightarrow> string list" where
  "hm_Names m = sort (map hc_Name (hm_hosts m))"

definition hm_SelfName :: "host_manager \<Rightarrow> string" where
  "hm_SelfName m = hm_selfTailnetName m"

text \<open>Replace the first entry of a name, or append it (\<open>ReplaceSelf\<close>, and \<open>pushHostConfig\<close> of the API).\<close>

fun replace_host :: "string \<Rightarrow> host_config \<Rightarrow> host_config list \<Rightarrow> host_config list" where
  "replace_host n c [] = [c]"
| "replace_host n c (h # hs) = (if hc_Name h = n then c # hs else h # replace_host n c hs)"

definition ReplaceSelf :: "host_config option \<Rightarrow> host_manager \<Rightarrow> host_error option \<times> host_manager" where
  "ReplaceSelf cfg m =
     (case cfg of
        None \<Rightarrow> (Some SelfRequired, m)
      | Some c0 \<Rightarrow>
          (let c = host_SetDefaults (hm_selfTailnetName m) (cloneHostConfig c0) in
           if hc_Name c \<noteq> hm_selfTailnetName m then (Some (NameMismatch (hc_Name c)), m)
           else (None, m\<lparr>hm_hosts := replace_host (hm_selfTailnetName m) c (cloneHostConfigs (hm_hosts m)),
                         hm_self := cloneHostConfig c\<rparr>)))"

definition hm_Reload :: "host_decoder \<Rightarrow> host_manager \<Rightarrow> world \<Rightarrow> host_error option \<times> host_manager \<times> world" where
  "hm_Reload toml m w =
     (case LoadHostFile toml (hm_path m) w of
        (Inl e, w1) \<Rightarrow> (Some e, m, w1)
      | (Inr hosts, w1) \<Rightarrow>
          (case resolveSelfHost hosts (hm_selfTailnetName m) of
             Inl e \<Rightarrow> (Some e, m, w1)
           | Inr self \<Rightarrow> (None, m\<lparr>hm_hosts := cloneHostConfigs hosts, hm_self := cloneHostConfig self\<rparr>, w1)))"

section \<open>Well-formed managers\<close>

definition host_ok :: "host_config \<Rightarrow> bool" where
  "host_ok h \<longleftrightarrow> hc_Name h \<noteq> [] \<and> hc_Role h \<noteq> [] \<and> hc_Environment h \<noteq> [] \<and> hc_Provider h \<noteq> [] \<and>
     hc_Metadata h \<noteq> None"

definition hosts_ok :: "host_config list \<Rightarrow> bool" where
  "hosts_ok hs \<longleftrightarrow> list_all host_ok hs \<and> distinct (map hc_Name hs)"

definition hm_wf :: "host_manager \<Rightarrow> bool" where
  "hm_wf m \<longleftrightarrow> hosts_ok (hm_hosts m) \<and> hc_Name (hm_self m) = hm_selfTailnetName m \<and>
     hm_self m \<in> cloneHostConfig ` set (hm_hosts m)"

lemma host_SetDefaults_Name [simp]: "hc_Name (host_SetDefaults n h) = or_default (hc_Name h) n"
  by (simp add: host_SetDefaults_def)

lemma or_default_simps [simp]: "or_default s s = s" "(or_default s d = []) = (s = [] \<and> d = [])"
  "or_default (or_default s d) e = (if s = [] \<and> d = [] then e else or_default s d)"
  by (simp_all add: or_default_def)

lemma host_ok_defaults [simp]: "host_ok (host_SetDefaults n h) \<longleftrightarrow> hc_Name h \<noteq> [] \<or> n \<noteq> []"
  by (auto simp: host_ok_def host_SetDefaults_def)

lemma cloneHostConfig_Name [simp]: "hc_Name (cloneHostConfig h) = hc_Name h"
  by (simp add: cloneHostConfig_def)

lemma host_ok_clone [simp]: "host_ok h \<Longrightarrow> host_ok (cloneHostConfig h)"
  by (auto simp: host_ok_def cloneHostConfig_def)

lemma cloneHostConfig_idem [simp]: "cloneHostConfig (cloneHostConfig h) = cloneHostConfig h"
  by (simp add: cloneHostConfig_def)

lemma hosts_ok_clone: "hosts_ok hs \<Longrightarrow> hosts_ok (cloneHostConfigs hs)"
  by (auto simp: hosts_ok_def cloneHostConfigs_def list_all_iff o_def)

text \<open>A host as loaded: its defaults filled in.\<close>

definition host_loaded :: "host_config \<Rightarrow> host_config" where
  "host_loaded h = host_SetDefaults (hc_Name h) h"

lemma host_loaded_Name [simp]: "hc_Name (host_loaded h) = hc_Name h"
  by (simp add: host_loaded_def)

lemma check_hosts_Inr:
  "check_hosts i seen hs = Inr hs' \<longleftrightarrow> hs' = map host_loaded hs \<and>
     (\<forall>h \<in> set hs. hc_Name h \<noteq> []) \<and> distinct (map hc_Name hs) \<and> set (map hc_Name hs) \<inter> set seen = {}"
proof (induction hs arbitrary: i seen hs')
  case (Cons h hs)
  show ?case
  proof (cases "hc_Name h = [] \<or> hc_Name h \<in> set seen")
    case False
    define cond where "cond \<longleftrightarrow> (\<forall>h \<in> set hs. hc_Name h \<noteq> []) \<and> distinct (map hc_Name hs) \<and>
        set (map hc_Name hs) \<inter> set (hc_Name h # seen) = {}"
    have IH: "check_hosts (Suc i) (hc_Name h # seen) hs = Inr hs'' \<longleftrightarrow> hs'' = map host_loaded hs \<and> cond" for hs''
      unfolding cond_def by (rule Cons.IH)
    have "check_hosts i seen (h # hs) = (case check_hosts (Suc i) (hc_Name h # seen) hs of
        Inl e \<Rightarrow> Inl e | Inr hs'' \<Rightarrow> Inr (host_loaded h # hs''))"
      using False by (simp add: host_loaded_def split: sum.splits)
    then have "check_hosts i seen (h # hs) = Inr hs' \<longleftrightarrow> hs' = host_loaded h # map host_loaded hs \<and> cond"
      using IH by (cases "check_hosts (Suc i) (hc_Name h # seen) hs") auto
    moreover have "cond \<longleftrightarrow> (\<forall>h \<in> set (h # hs). hc_Name h \<noteq> []) \<and> distinct (map hc_Name (h # hs)) \<and>
        set (map hc_Name (h # hs)) \<inter> set seen = {}"
      using False by (auto simp: cond_def)
    ultimately show ?thesis by simp
  qed (auto simp: Let_def)
qed auto

text \<open>Which files load, and as what.\<close>

lemma parse_hosts_Inr:
  "parse_hosts toml data = Inr hs' \<longleftrightarrow>
     (\<exists>hs. toml data = Some (hs, []) \<and> hs \<noteq> [] \<and> (\<forall>h \<in> set hs. hc_Name h \<noteq> []) \<and>
       distinct (map hc_Name hs) \<and> hs' = map host_loaded hs)"
  by (auto simp: parse_hosts_def check_hosts_Inr split: option.splits list.splits)

lemma parse_hosts_ok: "parse_hosts toml data = Inr hs \<Longrightarrow> hosts_ok hs"
  by (auto simp: parse_hosts_Inr hosts_ok_def list_all_iff host_loaded_def o_def)

lemma LoadHostFile_ok: "LoadHostFile toml p w = (Inr hs, w') \<Longrightarrow> hosts_ok hs"
  using parse_hosts_ok by (auto simp: LoadHostFile_def split: prod.splits sum.splits)

lemma resolveSelf_Inr:
  "resolveSelfHost hs n = Inr s \<Longrightarrow> hc_Name s = n \<and> s \<in> cloneHostConfig ` set hs"
  by (auto simp: resolveSelfHost_def split: option.splits dest!: find_Some_in)

lemma hm_build_wf:
  assumes "hosts_ok hosts" "resolveSelfHost hosts n = Inr s"
    and "hm_hosts m = cloneHostConfigs hosts" "hm_self m = cloneHostConfig s" "hm_selfTailnetName m = n"
  shows "hm_wf m"
  using assms(1,3-5) resolveSelf_Inr [OF assms(2)] hosts_ok_clone
  by (auto simp: hm_wf_def cloneHostConfigs_def image_image)

lemma hm_Reload_wf:
  assumes "hm_Reload toml m w = (e, m', w')" "hm_wf m"
  shows "hm_wf m'"
proof -
  obtain x w1 where ld: "LoadHostFile toml (hm_path m) w = (x, w1)" by fastforce
  show ?thesis
  proof (cases x)
    case (Inl a) then show ?thesis using assms ld by (simp add: hm_Reload_def)
  next
    case (Inr hs)
    with ld have ok: "hosts_ok hs" using LoadHostFile_ok by blast
    show ?thesis
    proof (cases "resolveSelfHost hs (hm_selfTailnetName m)")
      case (Inl a) then show ?thesis using assms ld Inr by (simp add: hm_Reload_def)
    next
      case (Inr s)
      with assms(1) ld \<open>x = Inr hs\<close> have "m' = m\<lparr>hm_hosts := cloneHostConfigs hs, hm_self := cloneHostConfig s\<rparr>"
        by (simp add: hm_Reload_def)
      then show ?thesis using hm_build_wf [OF ok Inr, of m'] by simp
    qed
  qed
qed

lemma replace_host_names:
  "map hc_Name (replace_host n c hs) = (if n \<in> set (map hc_Name hs) then map hc_Name hs else map hc_Name hs @ [n])"
  if "hc_Name c = n"
  using that by (induction hs) auto

lemma set_replace_host: "set (replace_host n c hs) \<subseteq> insert c (set hs)" "c \<in> set (replace_host n c hs)"
  by (induction hs) auto

lemma replace_host_ok: "hosts_ok hs \<Longrightarrow> host_ok c \<Longrightarrow> hc_Name c = n \<Longrightarrow> hosts_ok (replace_host n c hs)"
  using set_replace_host [where c = c and n = n and hs = hs] replace_host_names [where c = c and n = n and hs = hs]
  by (auto simp: hosts_ok_def list_all_iff)

lemma ReplaceSelf_wf: "ReplaceSelf cfg m = (e, m') \<Longrightarrow> hm_wf m \<Longrightarrow> hm_selfTailnetName m \<noteq> [] \<Longrightarrow> hm_wf m'"
  using set_replace_host(2)
  by (auto simp: ReplaceSelf_def Let_def hm_wf_def intro!: replace_host_ok hosts_ok_clone
      split: option.splits if_splits)

section \<open>Watching the file\<close>

text \<open>
  The watch loop of the manager filters by the file's path. \<open>host_change\<close>: an event names the path
  of what changed; only an event of the file itself, other than an attribute change, may change what
  it holds.
\<close>

definition host_event :: "string \<Rightarrow> fs_event \<Rightarrow> bool" where
  "host_event p ev \<longleftrightarrow> clean (fst ev) = clean p \<and>
     list_ex (\<lambda>opn. opn \<in> {FsWrite, FsCreate, FsRename, FsRemove}) (snd ev)"

definition host_change :: "string \<Rightarrow> world \<Rightarrow> fs_event \<Rightarrow> world \<Rightarrow> bool" where
  "host_change p w ev w' \<longleftrightarrow> fault_free w \<and> fault_free w' \<and>
     (clean (fst ev) = clean p \<and> \<not> set (snd ev) \<subseteq> {FsChmod} \<or>
      map_option f_data (get_file w' p) = map_option f_data (get_file w p))"

definition host_load :: "host_decoder \<Rightarrow> host_manager \<Rightarrow> world \<Rightarrow> (host_config list \<times> host_config) option" where
  "host_load toml m w =
     (case hm_Reload toml m w of (None, m', _) \<Rightarrow> Some (hm_hosts m', hm_self m') | (Some _, _, _) \<Rightarrow> None)"

lemma LoadHostFile_ff:
  "fault_free w \<Longrightarrow> fst (LoadHostFile toml p w) =
     (case map_option f_data (get_file w p) of
        Some d \<Rightarrow> parse_hosts toml d
      | None \<Rightarrow> Inl (HostIO (if clean p \<in> set (w_dirs w) then EIO else ENOENT)))"
  by (simp add: LoadHostFile_def ReadFile_ff_cases split: option.splits)

lemma host_load_ff:
  "fault_free w \<Longrightarrow> host_load toml m w =
     (case map_option f_data (get_file w (hm_path m)) of
        None \<Rightarrow> None
      | Some d \<Rightarrow>
          (case parse_hosts toml d of
             Inl _ \<Rightarrow> None
           | Inr hosts \<Rightarrow>
               (case resolveSelfHost hosts (hm_selfTailnetName m) of
                  Inl _ \<Rightarrow> None
                | Inr self \<Rightarrow> Some (cloneHostConfigs hosts, cloneHostConfig self))))"
  using LoadHostFile_ff [of w toml "hm_path m"]
  by (cases "LoadHostFile toml (hm_path m) w")
     (auto simp: host_load_def hm_Reload_def split: option.splits sum.splits)

lemma not_only_chmod: "\<not> set ops \<subseteq> {FsChmod} \<Longrightarrow> list_ex (\<lambda>opn. opn \<in> {FsWrite, FsCreate, FsRename, FsRemove}) ops"
proof -
  assume "\<not> set ops \<subseteq> {FsChmod}"
  then obtain opn where "opn \<in> set ops" "opn \<noteq> FsChmod" by blast
  moreover from this have "opn \<in> {FsWrite, FsCreate, FsRename, FsRemove}" by (metis fs_op.exhaust insertCI)
  ultimately show ?thesis unfolding list_ex_iff by blast
qed

interpretation host_watch: watched_dir "host_load toml m" "host_event (hm_path m)" "host_change (hm_path m)"
proof unfold_locales
  fix w ev w' assume ch: "host_change (hm_path m) w ev w'" and irr: "\<not> host_event (hm_path m) ev"
  then have "\<not> (clean (fst ev) = clean (hm_path m) \<and> \<not> set (snd ev) \<subseteq> {FsChmod})"
    using not_only_chmod unfolding host_event_def by blast
  with ch have "fault_free w" "fault_free w'"
    "map_option f_data (get_file w' (hm_path m)) = map_option f_data (get_file w (hm_path m))"
    unfolding host_change_def by blast+
  then show "host_load toml m w' = host_load toml m w" by (simp add: host_load_ff)
qed

section \<open>Properties\<close>

text \<open>
  The manager's invariant: Every reload, whatever fails, and every replacement of the own entry, accepted
  or refused, keeps the manager well-formed: hosts with distinct non-empty names and their defaults
  filled in, the own entry being a copy of one of them with the node's name. A failing operation changes nothing.
\<close>

theorem host_manager_invariant:
  assumes "hm_wf m" "hm_selfTailnetName m \<noteq> []"
  shows "(hm_Reload toml m w = (e, m1, w') \<longrightarrow>
       hm_wf m1 \<and> hm_selfTailnetName m1 = hm_selfTailnetName m \<and> (e \<noteq> None \<longrightarrow> m1 = m)) \<and>
     (ReplaceSelf cfg m = (e', m2) \<longrightarrow>
       hm_wf m2 \<and> hm_selfTailnetName m2 = hm_selfTailnetName m \<and> (e' \<noteq> None \<longrightarrow> m2 = m) \<and>
       (e' = None \<longrightarrow> (\<exists>c. cfg = Some c \<and> hm_Get m2 = cloneHostConfig (host_SetDefaults (hm_selfTailnetName m) (cloneHostConfig c)))))"
proof (intro conjI impI)
  assume r: "hm_Reload toml m w = (e, m1, w')"
  show "hm_wf m1" using hm_Reload_wf [OF r assms(1)] .
  show "hm_selfTailnetName m1 = hm_selfTailnetName m" "e \<noteq> None \<Longrightarrow> m1 = m"
    using r by (auto simp: hm_Reload_def split: prod.splits sum.splits)
next
  assume r: "ReplaceSelf cfg m = (e', m2)"
  show "hm_wf m2" using ReplaceSelf_wf [OF r assms] .
  show "hm_selfTailnetName m2 = hm_selfTailnetName m" "e' \<noteq> None \<Longrightarrow> m2 = m"
    "e' = None \<Longrightarrow> \<exists>c. cfg = Some c \<and> hm_Get m2 = cloneHostConfig (host_SetDefaults (hm_selfTailnetName m) (cloneHostConfig c))"
    using r by (auto simp: ReplaceSelf_def Let_def hm_Get_def split: option.splits if_splits)
qed

definition demo_host :: "string \<Rightarrow> string \<Rightarrow> host_config" where
  "demo_host n r = \<lparr>hc_Name = n, hc_Role = r, hc_Environment = ''e'', hc_Provider = ''p'', hc_InstanceType = [],
     hc_Tags = None, hc_Metadata = Some []\<rparr>"

theorem host_manager_invariant_witness:
  "\<exists>m2. ReplaceSelf (Some (demo_host [] ''db''))
      \<lparr>hm_hosts = [demo_host ''a'' ''web''], hm_self = demo_host ''a'' ''web'', hm_path = ''/h'', hm_selfTailnetName = ''a''\<rparr> = (None, m2) \<and>
     hm_wf m2 \<and> hc_Role (hm_Get m2) = ''db''"
    (is "\<exists>m2. ReplaceSelf ?c ?m = _ \<and> _")
proof -
  obtain e m2 where run: "ReplaceSelf ?c ?m = (e, m2)" by fastforce
  have "fst (ReplaceSelf ?c ?m) = None" by code_simp
  with run have e: "e = None" by simp
  have wf: "hm_wf ?m" by code_simp
  have "hm_selfTailnetName ?m \<noteq> []" by simp
  note inv = host_manager_invariant [OF wf this, where cfg = ?c and e' = e and ?m2.0 = m2]
  have "hm_wf m2 \<and> hm_Get m2 = cloneHostConfig (host_SetDefaults ''a'' (cloneHostConfig (demo_host [] ''db'')))"
    using inv run e by auto
  moreover have "hc_Role (cloneHostConfig (host_SetDefaults ''a'' (cloneHostConfig (demo_host [] ''db'')))) = ''db''"
    by code_simp
  ultimately show ?thesis using run e by auto
qed

text \<open>
  Write and read back: If the TOML codec reads back what it wrote for these hosts, with nil slices kept, then
  hosts with distinct non-empty names that are written with no I/O error load again, in order,
  as copies with the defaults filled in.
\<close>

theorem host_file_roundtrip:
  assumes codec: "enc (cloneHostConfigs hs) = Some data" "dec data = Some (cloneHostConfigs hs, [])"
    and hosts: "hs \<noteq> []" "\<forall>h \<in> set hs. hc_Name h \<noteq> []" "distinct (map hc_Name hs)"
    and world: "WriteHostFile enc p hs w = (None, w1)" "fault_free w"
  shows "fst (LoadHostFile dec p w1) = Inr (map host_loaded (cloneHostConfigs hs))"
proof -
  from world(1) codec(1) have aw: "AtomicWrite p data 420 w = (Inr (), w1)"
    by (auto simp: WriteHostFile_def split: prod.splits sum.splits)
  have "fault_free w1" using ffD [OF ff_atomic_write aw world(2)] .
  moreover have "wrote p \<lparr>f_data = data, f_perm = 420\<rparr> w w1" using atomic_write_ok [OF aw] .
  then have "get_file w1 p = Some \<lparr>f_data = data, f_perm = 420\<rparr>" by (simp add: wrote_get)
  moreover have "parse_hosts dec data = Inr (map host_loaded (cloneHostConfigs hs))"
    using codec(2) hosts by (auto simp: parse_hosts_Inr cloneHostConfigs_def o_def)
  ultimately show ?thesis by (simp add: LoadHostFile_ff)
qed

theorem host_file_roundtrip_witness:
  "\<exists>w1. WriteHostFile (\<lambda>_. Some ''d'') ''/e/h'' [demo_host ''a'' [], demo_host ''b'' ''db''] (demo_world [] [''/e'']) = (None, w1) \<and>
     fst (LoadHostFile (\<lambda>_. Some ([demo_host ''a'' [], demo_host ''b'' ''db''], [])) ''/e/h'' w1) =
       Inr (map host_loaded [demo_host ''a'' [], demo_host ''b'' ''db''])"
    (is "\<exists>w1. WriteHostFile ?enc _ ?hs ?w = _ \<and> _")
proof -
  obtain e w1 where run: "WriteHostFile ?enc ''/e/h'' ?hs ?w = (e, w1)" by fastforce
  have "fst (WriteHostFile ?enc ''/e/h'' ?hs ?w) = None" by code_simp
  with run have e: "e = None" by simp
  have cl: "cloneHostConfigs ?hs = ?hs" by code_simp
  have ok: "?hs \<noteq> []" "\<forall>h \<in> set ?hs. hc_Name h \<noteq> []" "distinct (map hc_Name ?hs)" by (simp_all add: demo_host_def)
  show ?thesis
    using host_file_roundtrip [where enc = ?enc and hs = ?hs and data = "''d''" and dec = "\<lambda>_. Some (?hs, [])",
        OF _ _ ok run [unfolded e] demo_fault_free] run e cl by simp
qed

end
