(* ===== verification/GoBase64.thy ===== *)
theory GoBase64
  imports Prelude
begin

text \<open>
  \<^verbatim>\<open>base64.StdEncoding\<close> of Go's standard library on byte strings: encoding with padding, and the
  non-strict decoder, which skips carriage returns and newlines, ignores the unused low bits of the last
  character and refuses anything after the padding. The two are inverse in one direction.
\<close>

definition b64_alphabet :: string where
  "b64_alphabet = ''ABCDEFGHIJKLMNOPQRSTUVWXYZabcdefghijklmnopqrstuvwxyz0123456789+/''"

definition b64_char :: "nat \<Rightarrow> char" where
  "b64_char n = b64_alphabet ! (n mod 64)"

definition b64_val :: "char \<Rightarrow> nat option" where
  "b64_val c = map_of (zip b64_alphabet [0..<64]) c"

definition byte_val :: "char \<Rightarrow> nat" where "byte_val c = of_char c"
definition byte_char :: "nat \<Rightarrow> char" where "byte_char n = char_of n"

fun b64_encode :: "string \<Rightarrow> string" where
  "b64_encode [] = []"
| "b64_encode [a] = (let n = byte_val a in [b64_char (n div 4), b64_char (n mod 4 * 16), CHR ''='', CHR ''=''])"
| "b64_encode [a, b] =
     (let n = byte_val a; m = byte_val b in
      [b64_char (n div 4), b64_char (n mod 4 * 16 + m div 16), b64_char (m mod 16 * 4), CHR ''=''])"
| "b64_encode (a # b # c # r) =
     (let n = byte_val a; m = byte_val b; k = byte_val c in
      b64_char (n div 4) # b64_char (n mod 4 * 16 + m div 16) # b64_char (m mod 16 * 4 + k div 64) #
      b64_char (k mod 64) # b64_encode r)"

fun b64_quanta :: "string \<Rightarrow> string option" where
  "b64_quanta [] = Some []"
| "b64_quanta (a # b # c # d # r) =
     (case (b64_val a, b64_val b) of
        (Some x, Some y) \<Rightarrow>
          (let p = byte_char (x * 4 + y div 16) in
           if c = CHR ''='' then (if d = CHR ''='' \<and> r = [] then Some [p] else None)
           else (case b64_val c of
                   None \<Rightarrow> None
                 | Some z \<Rightarrow>
                     (let q = byte_char (y mod 16 * 16 + z div 4) in
                      if d = CHR ''='' then (if r = [] then Some [p, q] else None)
                      else (case b64_val d of
                              None \<Rightarrow> None
                            | Some u \<Rightarrow>
                                (case b64_quanta r of
                                   None \<Rightarrow> None
                                 | Some bs \<Rightarrow> Some (p # q # byte_char (z mod 4 * 64 + u) # bs))))))
      | _ \<Rightarrow> None)"
| "b64_quanta _ = None"

definition b64_decode :: "string \<Rightarrow> string option" where
  "b64_decode s = b64_quanta (filter (\<lambda>c. c \<noteq> CHR 0x0A \<and> c \<noteq> CHR 0x0D) s)"

lemma b64_val_char: "n < 64 \<Longrightarrow> b64_val (b64_char n) = Some n"
proof -
  have "\<forall>n \<in> set [0..<64]. b64_val (b64_char n) = Some n" by code_simp
  then show "n < 64 \<Longrightarrow> b64_val (b64_char n) = Some n" by auto
qed

lemma b64_char_plain: "b64_char n \<noteq> CHR ''=''" "b64_char n \<noteq> CHR 0x0A" "b64_char n \<noteq> CHR 0x0D" "\<not> is_space (b64_char n)"
proof -
  have "\<forall>c \<in> set b64_alphabet. c \<noteq> CHR ''='' \<and> c \<noteq> CHR 0x0A \<and> c \<noteq> CHR 0x0D \<and> \<not> is_space c" by code_simp
  moreover have "length b64_alphabet = 64" by code_simp
  then have "b64_char n \<in> set b64_alphabet" by (simp add: b64_char_def)
  ultimately show "b64_char n \<noteq> CHR ''=''" "b64_char n \<noteq> CHR 0x0A" "b64_char n \<noteq> CHR 0x0D" "\<not> is_space (b64_char n)"
    by blast+
qed

lemma byte_val_bound: "byte_val c < 256"
  by (simp add: byte_val_def)

lemma byte_char_val [simp]: "byte_char (byte_val c) = c"
  by (simp add: byte_char_def byte_val_def)

lemma byte_parts:
  "byte_val a div 4 < 64" "byte_val a mod 4 < 4" "byte_val a div 16 < 16" "byte_val a mod 16 < 16"
  "byte_val a div 64 < 4" "byte_val a mod 64 < 64"
proof -
  note b = byte_val_bound [of a]
  show "byte_val a div 4 < 64" using less_mult_imp_div_less [of "byte_val a" 64 4] b by simp
  show "byte_val a div 16 < 16" using less_mult_imp_div_less [of "byte_val a" 16 16] b by simp
  show "byte_val a div 64 < 4" using less_mult_imp_div_less [of "byte_val a" 4 64] b by simp
qed simp_all

lemma six_bits:
  "byte_val a mod 4 * 16 < 64" "byte_val a mod 16 * 4 < 64"
  "byte_val a mod 4 * 16 + byte_val b div 16 < 64" "byte_val b mod 16 * 4 + byte_val c div 64 < 64"
  using byte_parts [of a] byte_parts [of b] byte_parts [of c] by linarith+

lemma eight_bits:
  "byte_val a div 4 * 4 + (byte_val a mod 4 * 16) div 16 = byte_val a"
  "byte_val a div 4 * 4 + (byte_val a mod 4 * 16 + byte_val b div 16) div 16 = byte_val a"
  "(byte_val a mod 4 * 16 + byte_val b div 16) mod 16 * 16 + (byte_val b mod 16 * 4) div 4 = byte_val b"
  "(byte_val a mod 4 * 16 + byte_val b div 16) mod 16 * 16 + (byte_val b mod 16 * 4 + byte_val c div 64) div 4 = byte_val b"
  "(byte_val b mod 16 * 4 + byte_val c div 64) mod 4 * 64 + byte_val c mod 64 = byte_val c"
  using byte_parts(3) [of b] byte_parts(5) [of c] by (simp_all add: div_mult_mod_eq)

lemma b64_quanta_encode: "b64_quanta (b64_encode s) = Some s"
proof (induction s rule: b64_encode.induct)
  case (2 a)
  show ?case by (simp add: Let_def b64_val_char b64_char_plain byte_parts six_bits eight_bits)
next
  case (3 a b)
  show ?case by (simp add: Let_def b64_val_char b64_char_plain byte_parts six_bits eight_bits)
next
  case (4 a b c r)
  show ?case by (simp add: Let_def b64_val_char b64_char_plain byte_parts six_bits eight_bits 4)
qed simp

definition plain_char :: "char \<Rightarrow> bool" where
  "plain_char c \<longleftrightarrow> c \<noteq> CHR 0x0A \<and> c \<noteq> CHR 0x0D \<and> \<not> is_space c"

lemma b64_encode_plain: "list_all plain_char (b64_encode s)"
proof -
  have eq: "plain_char (CHR ''='')" by code_simp
  have "plain_char (b64_char n)" for n by (simp add: plain_char_def b64_char_plain)
  then show ?thesis by (induction s rule: b64_encode.induct) (simp_all add: Let_def eq)
qed

lemma b64_decode_encode: "b64_decode (b64_encode s) = Some s"
proof -
  have "filter (\<lambda>c. c \<noteq> CHR 0x0A \<and> c \<noteq> CHR 0x0D) (b64_encode s) = b64_encode s"
    using b64_encode_plain [of s] by (intro filter_True) (simp add: list_all_iff plain_char_def)
  then show ?thesis by (simp add: b64_decode_def b64_quanta_encode)
qed

lemma trim_line: "list_all plain_char s \<Longrightarrow> trim_space (s @ [CHR 0x0A]) = s"
proof -
  assume pl: "list_all plain_char s"
  then have ns: "\<And>x. x \<in> set s \<Longrightarrow> \<not> is_space x" by (simp add: list_all_iff plain_char_def)
  have nl: "is_space (CHR 0x0A)" by code_simp
  show ?thesis
  proof (cases "s = []")
    case True with nl show ?thesis by (simp add: trim_space_def trim_by_def trim_right_by_def)
  next
    case False
    then have "dropWhile is_space (s @ [CHR 0x0A]) = s @ [CHR 0x0A]" using ns by (cases s) auto
    moreover have "dropWhile is_space (rev s) = rev s" using ns by (intro dropWhile_none) simp
    ultimately show ?thesis using nl by (simp add: trim_space_def trim_by_def trim_right_by_def)
  qed
qed

lemmas b64_trim_line = trim_line [OF b64_encode_plain]

end
