(* ===== verification/AdminApi.thy ===== *)
theory AdminApi
  imports Access AdminBootstrap Epoch HostConfig GoBase64
begin

text \<open>
  The mutation endpoints (\<^verbatim>\<open>internal/api/admin.go\<close>, \<^verbatim>\<open>internal/api/access.go\<close>): the check of key, epoch and
  capability, the handlers behind it, and the transfer of the admin role between nodes. The node's
  state is a record of its components; files live in the world. JSON and TOML codecs and the
  HTTP call to another node are fields of the environment. Logging is left out.
\<close>

record write_request =
  wq_Path :: string
  wq_Perm :: "32 word"
  wq_Encoding :: string
  wq_Data :: string

record admin_env =
  ae_Hostname :: string
  ae_HostConfigPath :: string
  ae_ServicesDir :: string
  ae_AdminFencePath :: string
  json_host :: "string \<Rightarrow> host_config option"
  json_service :: "string \<Rightarrow> service_config option"
  json_grants :: "string \<Rightarrow> grant list option"
  json_transfer :: "string \<Rightarrow> string option"
  json_promotion :: "string \<Rightarrow> int option"
  json_write :: "string \<Rightarrow> write_request option"
  enc_service :: "service_config \<Rightarrow> string option"
  enc_grants :: "grant list \<Rightarrow> string option"
  enc_hosts :: host_encoder
  dec_service :: service_decoder
  dec_grants :: grant_decoder
  dec_hosts :: host_decoder
  http_promote :: "string \<Rightarrow> int \<Rightarrow> nat option"

record node =
  nd_host :: host_manager
  nd_services :: service_registry
  nd_admin :: admin_state
  nd_access :: "access_registry option"
  nd_epoch :: "epoch option"

datatype promote_error = PromoteTransport | PromoteRejected nat

datatype api_error = ApiEpoch epoch_error | EpochMissing | EpochInvalid | ApiGrant access_error
  | ApiHost host_error | ApiIO io_error | ApiService service_error | ApiPromote promote_error

datatype admin_body = Success | NewAdmin string | Grants "grant list"

type_synonym reply = "(admin_body, api_error) response"
type_synonym handler = "request \<Rightarrow> node \<Rightarrow> world \<Rightarrow> reply \<times> node \<times> world"

definition HostsConfigPath :: string where "HostsConfigPath = ''/etc/tailkitd/hosts.toml''"
definition DefaultServicesDir :: string where "DefaultServicesDir = ''/etc/tailkitd/services.d''"
definition DefaultAccessDir :: string where "DefaultAccessDir = ''/etc/tailkitd/access.d''"

definition hostConfigPath :: "admin_env \<Rightarrow> string" where
  "hostConfigPath e = (if ae_HostConfigPath e \<noteq> [] then ae_HostConfigPath e else HostsConfigPath)"

definition servicesDir :: "admin_env \<Rightarrow> string" where
  "servicesDir e = (if ae_ServicesDir e \<noteq> [] then ae_ServicesDir e else DefaultServicesDir)"

definition adminFencePath :: "admin_env \<Rightarrow> string" where
  "adminFencePath e = (if ae_AdminFencePath e \<noteq> [] then ae_AdminFencePath e else AdminFencePath)"

definition Promote :: "admin_env \<Rightarrow> string \<Rightarrow> int \<Rightarrow> promote_error option" where
  "Promote e host fence =
     (case http_promote e host fence of
        None \<Rightarrow> Some PromoteTransport
      | Some st \<Rightarrow> if st \<noteq> 200 then Some (PromoteRejected st) else None)"

section \<open>Sending a response\<close>

text \<open>
  A \<open>http.ResponseWriter\<close> sends the headers with the first write: setting a header later changes
  the header map, but not what the client received.
\<close>

record writer =
  wr_header :: "(string \<times> string) list"
  wr_sent :: reply

definition send_response :: "reply \<Rightarrow> writer" where
  "send_response r = \<lparr>wr_header = rs_header r, wr_sent = r\<rparr>"

definition set_header :: "string \<Rightarrow> string \<Rightarrow> writer \<Rightarrow> writer" where
  "set_header k v wr = wr\<lparr>wr_header := AList.update k v (wr_header wr)\<rparr>"

definition with_header :: "string \<Rightarrow> string \<Rightarrow> reply \<Rightarrow> reply" where
  "with_header k v r = r\<lparr>rs_header := AList.update k v (rs_header r)\<rparr>"

section \<open>The check\<close>

definition isMutationMethod :: "string \<Rightarrow> bool" where
  "isMutationMethod m \<longleftrightarrow> m \<in> {''POST'', ''PUT'', ''PATCH'', ''DELETE''}"

definition parseCallerEpoch :: "string \<Rightarrow> api_error + int" where
  "parseCallerEpoch raw =
     (if raw = [] then Inl EpochMissing
      else (case parse_int raw of Inl _ \<Rightarrow> Inl EpochInvalid | Inr n \<Rightarrow> Inr n))"

definition host_parts :: "string \<Rightarrow> string list" where
  "host_parts path = split_on slash (trim_prefix path ''/admin/hosts/'')"

definition requiredCapability :: "string \<Rightarrow> string \<times> string" where
  "requiredCapability path =
     (if path = ''/admin/transfer'' then (''admin.transfer'', ''*'')
      else if path = ''/admin/access/grants'' then (''access.write'', ''*'')
      else if path = ''/admin/files/write'' then (''host.write'', ''*'')
      else if has_suffix path ''/config'' then (''host.write'', ''*'')
      else if contains path ''/services/'' then
        (if length (host_parts path) \<ge> 3 then (''service.write'', host_parts path ! 2) else ([], []))
      else ([], []))"

definition check_epoch :: "request \<Rightarrow> node \<Rightarrow> reply option" where
  "check_epoch r n =
     (case nd_epoch n of
        None \<Rightarrow> None
      | Some ep \<Rightarrow>
          if \<not> isMutationMethod (Method r) then None
          else (case parseCallerEpoch (Header r ''X-State-Epoch'') of
                  Inl e \<Rightarrow> Some (WriteErrorE 400 [] e)
                | Inr c \<Rightarrow>
                    (case epoch_Validate ep c of
                       Some e \<Rightarrow> Some (with_header ''X-State-Epoch'' (int_to_dec (epoch_Current ep))
                                        (WriteErrorE 409 [] (ApiEpoch e)))
                     | None \<Rightarrow> None)))"

definition check_access :: "request \<Rightarrow> node \<Rightarrow> reply option" where
  "check_access r n =
     (case nd_access n of
        None \<Rightarrow> None
      | Some reg \<Rightarrow>
          if \<not> HasAnyGrants reg then None
          else (case Caller r of
                  None \<Rightarrow> Some (WriteError 403 ''caller identity unavailable'' [])
                | Some c \<Rightarrow>
                    if UserLogin c = [] then Some (WriteError 403 ''caller identity unavailable'' [])
                    else (case requiredCapability (Path r) of
                            (cap, target) \<Rightarrow>
                              if cap \<noteq> [] \<and> \<not> Allow reg (UserLogin c) cap target
                              then Some (WriteError 403 ''insufficient privileges for this action'' [])
                              else None)))"

text \<open>\<open>requireAdminKey\<close>, in two parts: the checks before the handler, and the handler with what follows it.\<close>

definition admin_check :: "request \<Rightarrow> node \<Rightarrow> world \<Rightarrow> reply option \<times> world" where
  "admin_check r n w =
     (case GetAdminKey w of
        (Inl _, w1) \<Rightarrow> (Some (WriteError 403 ''admin key not configured on this node'' []), w1)
      | (Inr localKey, w1) \<Rightarrow>
          if Header r ''X-Admin-Key'' \<noteq> localKey then (Some (WriteError 401 ''invalid admin key'' []), w1)
          else (case check_epoch r n of
                  Some resp \<Rightarrow> (Some resp, w1)
                | None \<Rightarrow> (check_access r n, w1)))"

definition admin_commit :: "handler \<Rightarrow> request \<Rightarrow> node \<Rightarrow> world \<Rightarrow> writer \<times> node \<times> world" where
  "admin_commit next r n w =
     (case next r n w of
        (resp, n1, w1) \<Rightarrow>
          (let wr = send_response resp in
           case nd_epoch n1 of
             None \<Rightarrow> (wr, n1, w1)
           | Some ep \<Rightarrow>
               if isMutationMethod (Method r) \<and> 200 \<le> status resp \<and> status resp < 300
               then (case epoch_Increment ep w1 of
                       (Inl _, ep', w2) \<Rightarrow> (wr, n1\<lparr>nd_epoch := Some ep'\<rparr>, w2)
                     | (Inr v, ep', w2) \<Rightarrow>
                         (set_header ''X-State-Epoch'' (int_to_dec v) wr, n1\<lparr>nd_epoch := Some ep'\<rparr>, w2))
               else (wr, n1, w1)))"

definition requireAdminKey :: "handler \<Rightarrow> request \<Rightarrow> node \<Rightarrow> world \<Rightarrow> writer \<times> node \<times> world" where
  "requireAdminKey next r n w =
     (case admin_check r n w of
        (Some resp, w1) \<Rightarrow> (send_response resp, n, w1)
      | (None, w1) \<Rightarrow> admin_commit next r n w1)"

section \<open>Access grants\<close>

text \<open>\<open>AccessHandler\<close> with its registry; the validated grants replace the one file \<^verbatim>\<open>grants.toml\<close>.\<close>

definition AccessHandler :: "admin_env \<Rightarrow> access_registry \<Rightarrow> request \<Rightarrow> world \<Rightarrow> reply \<times> access_registry \<times> world" where
  "AccessHandler e reg r w =
     (if Method r = ''GET'' then (WriteJSON 200 (Grants (access_List reg)), reg, w)
      else if Method r = ''POST'' then
        (case json_grants e (Body r) of
           None \<Rightarrow> (WriteError 400 ''invalid request body'' [], reg, w)
         | Some gs0 \<Rightarrow>
             (case validate_grants gs0 of
                Inl x \<Rightarrow> (WriteErrorE 400 ''invalid grant: '' (ApiGrant x), reg, w)
              | Inr gs \<Rightarrow>
                  (case enc_grants e gs of
                     None \<Rightarrow> (WriteError 500 ''failed to encode grants'' [], reg, w)
                   | Some data \<Rightarrow>
                       (let path = join_path [DefaultAccessDir, ''grants.toml''] in
                        case os_MkdirAll (dir_of path) w of
                          (Inl _, w1) \<Rightarrow> (WriteError 500 ''failed to create access dir'' [], reg, w1)
                        | (Inr _, w1) \<Rightarrow>
                            (case AtomicWrite path data 420 w1 of
                               (Inl x, w2) \<Rightarrow> (WriteErrorE 409 ''transaction failed: '' (ApiIO x), reg, w2)
                             | (Inr _, w2) \<Rightarrow>
                                 (case access_Reload (dec_grants e) reg w2 of
                                    (Some _, reg', w3) \<Rightarrow>
                                      (WriteError 500 ''failed to reload access grants'' [], reg', w3)
                                  | (None, reg', w3) \<Rightarrow> (WriteJSON 200 Success, reg', w3)))))))
      else (bad_method ''use GET or POST'', reg, w))"

definition handleAccessGrants :: "admin_env \<Rightarrow> handler" where
  "handleAccessGrants e r n w =
     (case nd_access n of
        None \<Rightarrow> (WriteError 500 ''access registry unavailable'' [], n, w)
      | Some reg \<Rightarrow>
          (case AccessHandler e reg r w of (resp, reg', w1) \<Rightarrow> (resp, n\<lparr>nd_access := Some reg'\<rparr>, w1)))"

section \<open>Hosts and services\<close>

definition pushHostConfig :: "admin_env \<Rightarrow> handler" where
  "pushHostConfig e r n w =
     (case json_host e (Body r) of
        None \<Rightarrow> (WriteError 400 ''invalid json body'' [], n, w)
      | Some req0 \<Rightarrow>
          (let selfName = hm_SelfName (nd_host n); req = host_SetDefaults selfName req0 in
           if hc_Name req \<noteq> selfName then (WriteError 400 ''host name must match local tailscale peer'' [], n, w)
           else (let hosts = replace_host selfName req (hm_All (nd_host n)) in
                 case WriteHostFile (enc_hosts e) (hostConfigPath e) hosts w of
                   (Some x, w1) \<Rightarrow> (WriteErrorE 409 ''transaction failed: '' (ApiHost x), n, w1)
                 | (None, w1) \<Rightarrow>
                     (case hm_Reload (dec_hosts e) (nd_host n) w1 of
                        (Some _, m', w2) \<Rightarrow> (WriteError 500 ''failed to reload host config'' [], n\<lparr>nd_host := m'\<rparr>, w2)
                      | (None, m', w2) \<Rightarrow> (WriteJSON 200 Success, n\<lparr>nd_host := m'\<rparr>, w2)))))"

definition pushService :: "admin_env \<Rightarrow> string \<Rightarrow> handler" where
  "pushService e name r n w =
     (case json_service e (Body r) of
        None \<Rightarrow> (WriteError 400 ''invalid json body'' [], n, w)
      | Some req0 \<Rightarrow>
          (case svc_Validate (req0\<lparr>sv_Name := name\<rparr>) of
             Inl x \<Rightarrow> (WriteErrorE 400 ''validation failed: '' (ApiService x), n, w)
           | Inr req \<Rightarrow>
               (case enc_service e req of
                  None \<Rightarrow> (WriteError 500 ''failed to encode service config'' [], n, w)
                | Some data \<Rightarrow>
                    (let path = FilePath (servicesDir e) name in
                     case os_MkdirAll (dir_of path) w of
                       (Inl _, w1) \<Rightarrow> (WriteError 500 ''failed to create services dir'' [], n, w1)
                     | (Inr _, w1) \<Rightarrow>
                         (case AtomicWrite path data 420 w1 of
                            (Inl x, w2) \<Rightarrow> (WriteErrorE 409 ''transaction failed: '' (ApiIO x), n, w2)
                          | (Inr _, w2) \<Rightarrow>
                              (case services_Reload (dec_service e) (nd_services n) w2 of
                                 (Some _, s', w3) \<Rightarrow>
                                   (WriteError 500 ''failed to reload services'' [], n\<lparr>nd_services := s'\<rparr>, w3)
                               | (None, s', w3) \<Rightarrow> (WriteJSON 200 Success, n\<lparr>nd_services := s'\<rparr>, w3)))))))"

definition deleteService :: "admin_env \<Rightarrow> string \<Rightarrow> handler" where
  "deleteService e name r n w =
     (case os_Remove (FilePath (servicesDir e) name) w of
        (Inl ENOENT, w1) \<Rightarrow> (WriteError 404 ''service not found'' [], n, w1)
      | (Inl _, w1) \<Rightarrow> (WriteError 500 ''delete failed'' [], n, w1)
      | (Inr _, w1) \<Rightarrow>
          (case services_Reload (dec_service e) (nd_services n) w1 of
             (Some _, s', w2) \<Rightarrow> (WriteError 500 ''failed to reload services'' [], n\<lparr>nd_services := s'\<rparr>, w2)
           | (None, s', w2) \<Rightarrow> (WriteHeader 204, n\<lparr>nd_services := s'\<rparr>, w2)))"

definition handleHostMutation :: "admin_env \<Rightarrow> handler" where
  "handleHostMutation e r n w =
     (let parts = host_parts (Path r) in
      if length parts < 2 then (WriteError 404 ''not found'' [], n, w)
      else if parts ! 0 \<noteq> ''me'' \<and> parts ! 0 \<noteq> ae_Hostname e
      then (WriteError 400 ''hostname does not match local node'' [], n, w)
      else if length parts = 2 \<and> parts ! 1 = ''config'' \<and> Method r = ''POST'' then pushHostConfig e r n w
      else if length parts = 3 \<and> parts ! 1 = ''services'' \<and> Method r = ''POST'' then pushService e (parts ! 2) r n w
      else if length parts = 3 \<and> parts ! 1 = ''services'' \<and> Method r = ''DELETE'' then deleteService e (parts ! 2) r n w
      else (WriteError 404 ''not found'' [], n, w))"

section \<open>The admin role\<close>

definition fence_line :: "int \<Rightarrow> string" where
  "fence_line f = int_to_dec f @ [CHR 0x0A]"

definition transferAdmin :: "admin_env \<Rightarrow> handler" where
  "transferAdmin e r n w =
     (if Method r \<noteq> ''POST'' then (bad_method ''use POST'', n, w)
      else if \<not> IsAdmin (nd_admin n) then (WriteError 403 ''this node is not the admin'' [], n, w)
      else (case json_transfer e (Body r) of
              None \<Rightarrow> (WriteError 400 ''invalid request body'' [], n, w)
            | Some target \<Rightarrow>
                if target = [] then (WriteError 400 ''invalid request body'' [], n, w)
                else (case GetFenceToken w of
                        (Inl _, w1) \<Rightarrow> (WriteError 500 ''failed to read fence token'' [], n, w1)
                      | (Inr cur, w1) \<Rightarrow>
                          (let new = wrap64 (cur + 1) in
                           case AtomicWrite (adminFencePath e) (fence_line new) 384 w1 of
                             (Inl _, w2) \<Rightarrow> (WriteError 500 ''failed to update fence token'' [], n, w2)
                           | (Inr _, w2) \<Rightarrow>
                               (case Promote e target new of
                                  Some x \<Rightarrow>
                                    (case AtomicWrite (adminFencePath e) (fence_line cur) 384 w2 of
                                       (_, w3) \<Rightarrow> (WriteErrorE 409 ''transfer failed: '' (ApiPromote x), n, w3))
                                | None \<Rightarrow> (WriteJSON 200 (NewAdmin target), n\<lparr>nd_admin := SetAdmin False (nd_admin n)\<rparr>, w2))))))"

definition acceptPromotion :: "admin_env \<Rightarrow> handler" where
  "acceptPromotion e r n w =
     (if Method r \<noteq> ''POST'' then (bad_method ''use POST'', n, w)
      else (case json_promotion e (Body r) of
              None \<Rightarrow> (WriteError 400 ''invalid request body'' [], n, w)
            | Some f \<Rightarrow>
                if f < 0 then (WriteError 400 ''invalid request body'' [], n, w)
                else (case AtomicWrite (adminFencePath e) (fence_line f) 384 w of
                        (Inl _, w1) \<Rightarrow> (WriteError 500 ''failed to write fence token'' [], n, w1)
                      | (Inr _, w1) \<Rightarrow> (WriteJSON 200 Success, n\<lparr>nd_admin := SetAdmin True (nd_admin n)\<rparr>, w1))))"

section \<open>Writing a file\<close>

definition allowedAtomicWritePath :: "admin_env \<Rightarrow> string \<Rightarrow> bool" where
  "allowedAtomicWritePath e p \<longleftrightarrow>
     p = hostConfigPath e \<or> p = adminFencePath e \<or>
     has_prefix p (servicesDir e @ ''/'') \<and> has_suffix p ''.toml''"

definition decode_data :: "string \<Rightarrow> string \<Rightarrow> reply + string" where
  "decode_data enc data =
     (if enc = [] \<or> enc = ''utf-8'' then Inr data
      else if enc = ''base64'' then
        (case b64_decode data of
           None \<Rightarrow> Inl (WriteError 400 ''invalid base64 data'' [])
         | Some d \<Rightarrow> Inr d)
      else Inl (WriteError 400 ''invalid encoding'' []))"

definition atomicWriteFile :: "admin_env \<Rightarrow> handler" where
  "atomicWriteFile e r n w =
     (if Method r \<noteq> ''POST'' then (bad_method ''use POST'', n, w)
      else (case json_write e (Body r) of
              None \<Rightarrow> (WriteError 400 ''invalid request body'' [], n, w)
            | Some q \<Rightarrow>
                if \<not> allowedAtomicWritePath e (wq_Path q)
                then (WriteError 403 ''path is not allowlisted'' [], n, w)
                else (case decode_data (wq_Encoding q) (wq_Data q) of
                        Inl resp \<Rightarrow> (resp, n, w)
                      | Inr data \<Rightarrow>
                          (let perm = (if wq_Perm q = 0 then 420 else unat (wq_Perm q)) in
                           case os_MkdirAll (dir_of (wq_Path q)) w of
                             (Inl _, w1) \<Rightarrow> (WriteError 500 ''failed to create parent dir'' [], n, w1)
                           | (Inr _, w1) \<Rightarrow>
                               (case AtomicWrite (wq_Path q) data perm w1 of
                                  (Inl x, w2) \<Rightarrow> (WriteErrorE 409 ''transaction failed: '' (ApiIO x), n, w2)
                                | (Inr _, w2) \<Rightarrow> (WriteJSON 200 Success, n, w2))))))"

section \<open>Routing\<close>

definition AdminHandler :: "admin_env \<Rightarrow> request \<Rightarrow> node \<Rightarrow> world \<Rightarrow> writer \<times> node \<times> world" where
  "AdminHandler e r n w =
     (if Path r = ''/admin/internal/accept-promotion''
      then (case acceptPromotion e r n w of (resp, n1, w1) \<Rightarrow> (send_response resp, n1, w1))
      else if Path r = ''/admin/transfer'' then requireAdminKey (transferAdmin e) r n w
      else if Path r = ''/admin/files/write'' then requireAdminKey (atomicWriteFile e) r n w
      else if Path r = ''/admin/access/grants'' then requireAdminKey (handleAccessGrants e) r n w
      else if has_prefix (Path r) ''/admin/hosts/'' then requireAdminKey (handleHostMutation e) r n w
      else (send_response (WriteError 404 ''not found'' []), n, w))"

end
