(* ===== verification/AdminProps.thy ===== *)
theory AdminProps
  imports AdminApi
begin

text \<open>
  What the mutation endpoints guarantee: which requests can change the node, how the epoch moves,
  what a push or a transfer leaves behind, and where the guards have gaps.
\<close>

section \<open>Requests that change nothing\<close>

definition unchanged :: "node \<Rightarrow> world \<Rightarrow> node \<Rightarrow> world \<Rightarrow> bool" where
  "unchanged n w n' w' \<longleftrightarrow> n' = n \<and> same_files w w'"

lemma GetAdminKey_quiet: "GetAdminKey w = (x, w') \<Longrightarrow> same_files w w'"
  using quietD [OF quiet_ops(8)] by (fastforce simp: GetAdminKey_def split: prod.splits sum.splits)

lemma admin_check_quiet: "admin_check r n w = (x, w') \<Longrightarrow> same_files w w'"
  using GetAdminKey_quiet by (fastforce simp: admin_check_def split: prod.splits sum.splits if_splits option.splits)

text \<open>The checks that passed, when they all passed.\<close>

definition key_ok :: "request \<Rightarrow> world \<Rightarrow> bool" where
  "key_ok r w \<longleftrightarrow> (\<exists>f. get_file w AdminKeyPath = Some f \<and> Header r ''X-Admin-Key'' = trim_space (f_data f))"

definition epoch_ok :: "request \<Rightarrow> node \<Rightarrow> bool" where
  "epoch_ok r n \<longleftrightarrow> (\<forall>ep. nd_epoch n = Some ep \<and> isMutationMethod (Method r) \<longrightarrow>
     parse_int (Header r ''X-State-Epoch'') = Inr (ep_value ep))"

definition capability_ok :: "request \<Rightarrow> node \<Rightarrow> bool" where
  "capability_ok r n \<longleftrightarrow> (\<forall>reg. nd_access n = Some reg \<and> HasAnyGrants reg \<longrightarrow>
     (\<exists>c. Caller r = Some c \<and> UserLogin c \<noteq> [] \<and>
        (fst (requiredCapability (Path r)) \<noteq> [] \<longrightarrow>
         Allow reg (UserLogin c) (fst (requiredCapability (Path r))) (snd (requiredCapability (Path r))))))"

lemma ReadFile_Inr:
  "os_ReadFile p w = (Inr d, w') \<Longrightarrow> \<exists>f. get_file w p = Some f \<and> f_data f = d"
  by (auto simp: os_ReadFile_def io_call_def Let_def get_file_def split: if_splits fault.splits option.splits)

lemma check_epoch_None: "check_epoch r n = None \<Longrightarrow> epoch_ok r n"
  by (auto simp: check_epoch_def epoch_ok_def parseCallerEpoch_def Validate_None_iff
      split: option.splits if_splits sum.splits)

lemma check_access_None: "check_access r n = None \<Longrightarrow> capability_ok r n"
  by (auto simp: check_access_def capability_ok_def split: option.splits if_splits prod.splits)

lemma GetAdminKey_Inr:
  "GetAdminKey w = (Inr k, w') \<Longrightarrow> \<exists>f. get_file w AdminKeyPath = Some f \<and> k = trim_space (f_data f)"
  using ReadFile_Inr by (fastforce simp: GetAdminKey_def split: prod.splits sum.splits)

lemma admin_check_None:
  assumes "admin_check r n w = (None, w')"
  shows "key_ok r w \<and> epoch_ok r n \<and> capability_ok r n"
proof -
  obtain x w1 where key: "GetAdminKey w = (x, w1)" by fastforce
  with assms obtain k where k: "x = Inr k" by (cases x) (auto simp: admin_check_def)
  with assms key have hd: "Header r ''X-Admin-Key'' = k" by (auto simp: admin_check_def split: if_splits)
  have ce: "check_epoch r n = None" "check_access r n = None"
    using assms key k hd by (auto simp: admin_check_def split: option.splits)
  have "key_ok r w" using GetAdminKey_Inr [of w k w1] key k hd by (auto simp: key_ok_def)
  with check_epoch_None check_access_None ce show ?thesis by blast
qed

section \<open>The handlers without a mutating method\<close>

lemma no_mutation_method: "\<not> isMutationMethod m \<Longrightarrow> m \<noteq> ''POST'' \<and> m \<noteq> ''DELETE''"
  by (auto simp: isMutationMethod_def)

definition inert :: "handler \<Rightarrow> bool" where
  "inert next \<longleftrightarrow> (\<forall>r n w. \<not> isMutationMethod (Method r) \<longrightarrow> (\<exists>resp. next r n w = (resp, n, w)))"

lemma inert_handlers:
  "inert (transferAdmin e)" "inert (atomicWriteFile e)" "inert (handleAccessGrants e)" "inert (handleHostMutation e)"
  by (auto simp: inert_def transferAdmin_def atomicWriteFile_def handleAccessGrants_def AccessHandler_def
      handleHostMutation_def Let_def dest!: no_mutation_method split: option.splits)

lemma commit_inert:
  "inert next \<Longrightarrow> \<not> isMutationMethod (Method r) \<Longrightarrow> admin_commit next r n w = (wr, n', w') \<Longrightarrow> n' = n \<and> w' = w"
proof -
  assume "inert next" and m: "\<not> isMutationMethod (Method r)" and run: "admin_commit next r n w = (wr, n', w')"
  then obtain resp where "next r n w = (resp, n, w)" unfolding inert_def by blast
  with m run show "n' = n \<and> w' = w" by (auto simp: admin_commit_def Let_def split: option.splits)
qed

section \<open>The capability of a route\<close>

lemma host_parts_join: "has_prefix path ''/admin/hosts/'' \<Longrightarrow> path = ''/admin/hosts/'' @ join_with slash (host_parts path)"
  unfolding host_parts_def join_split by (rule trim_prefix_join [symmetric])

lemma list2: "length xs = 2 \<Longrightarrow> xs = [xs ! 0, xs ! 1]"
  by (cases xs; cases "tl xs") auto

lemma list3: "length xs = 3 \<Longrightarrow> xs = [xs ! 0, xs ! 1, xs ! 2]"
  by (cases xs; cases "tl xs"; cases "tl (tl xs)") auto

lemma config_route:
  assumes "has_prefix path ''/admin/hosts/''" "length (host_parts path) = 2" "host_parts path ! 1 = ''config''"
  shows "has_suffix path ''/config''"
proof -
  have "join_with slash (host_parts path) = host_parts path ! 0 @ ''/config''"
    using list2 [OF assms(2)] assms(3) by (metis join_with.simps(2,3))
  with host_parts_join [OF assms(1)] have "path = (''/admin/hosts/'' @ host_parts path ! 0) @ ''/config''" by simp
  then show ?thesis unfolding has_suffix_iff by blast
qed

lemma service_route:
  assumes "has_prefix path ''/admin/hosts/''" "length (host_parts path) = 3" "host_parts path ! 1 = ''services''"
  shows "contains path ''/services/''"
proof -
  have "join_with slash (host_parts path) = host_parts path ! 0 @ ''/services/'' @ host_parts path ! 2"
    using list3 [OF assms(2)] assms(3) by (metis append_Cons append_Nil join_with.simps(2,3))
  with host_parts_join [OF assms(1)]
  have "path = (''/admin/hosts/'' @ host_parts path ! 0) @ ''/services/'' @ host_parts path ! 2" by simp
  then show ?thesis by (metis contains_append)
qed

lemma host_capability:
  assumes "has_prefix (Path r) ''/admin/hosts/''" "fst (requiredCapability (Path r)) = []"
  shows "\<exists>resp. handleHostMutation e r n w = (resp, n, w) \<and> 400 \<le> status resp"
proof -
  have "\<not> has_suffix (Path r) ''/config''" using assms(2) by (auto simp: requiredCapability_def split: if_splits)
  then have c: "\<not> (length (host_parts (Path r)) = 2 \<and> host_parts (Path r) ! 1 = ''config'')"
    using config_route assms(1) by blast
  have "\<not> (contains (Path r) ''/services/'' \<and> length (host_parts (Path r)) \<ge> 3)"
    using assms(2) by (auto simp: requiredCapability_def split: if_splits)
  then have s: "\<not> (length (host_parts (Path r)) = 3 \<and> host_parts (Path r) ! 1 = ''services'')"
    using service_route assms(1) by auto
  show ?thesis using c s by (auto simp: handleHostMutation_def Let_def)
qed

section \<open>Who may change a node\<close>

lemma requireAdminKey_run:
  assumes "requireAdminKey next r n w = (wr, n', w')"
  shows "unchanged n w n' w' \<and> 400 \<le> status (wr_sent wr) \<or>
     (\<exists>w1. admin_check r n w = (None, w1) \<and> admin_commit next r n w1 = (wr, n', w'))"
proof -
  obtain x w1 where ck: "admin_check r n w = (x, w1)" by fastforce
  show ?thesis
  proof (cases x)
    case None with assms ck show ?thesis by (simp add: requireAdminKey_def)
  next
    case (Some resp)
    with assms ck have "n' = n" "w' = w1" "wr_sent wr = resp" by (auto simp: requireAdminKey_def send_response_def)
    moreover have "400 \<le> status resp"
      using ck Some by (auto simp: admin_check_def check_epoch_def check_access_def with_header_def
          split: prod.splits sum.splits if_splits option.splits)
    ultimately show ?thesis using admin_check_quiet [OF ck] by (simp add: unchanged_def)
  qed
qed

lemma commit_4xx:
  "next r n w = (resp, n, w) \<Longrightarrow> 400 \<le> status resp \<Longrightarrow> admin_commit next r n w = (wr, n', w') \<Longrightarrow> n' = n \<and> w' = w"
  by (auto simp: admin_commit_def Let_def split: option.splits)

text \<open>The four guarded routes, as one case analysis.\<close>

lemma AdminHandler_cases:
  assumes "AdminHandler e r n w = (wr, n', w')"
  obtains (accept) resp where "Path r = ''/admin/internal/accept-promotion''"
      "acceptPromotion e r n w = (resp, n', w')" "wr = send_response resp"
    | (guarded) nxt where "requireAdminKey nxt r n w = (wr, n', w')" "inert nxt"
      "nxt \<in> {transferAdmin e, atomicWriteFile e, handleAccessGrants e, handleHostMutation e}"
      "fst (requiredCapability (Path r)) = [] \<Longrightarrow> nxt = handleHostMutation e \<and> has_prefix (Path r) ''/admin/hosts/''"
      "Path r \<noteq> ''/admin/internal/accept-promotion''"
    | (none) "n' = n" "w' = w" "wr = send_response (WriteError 404 ''not found'' [])"
      "Path r \<noteq> ''/admin/internal/accept-promotion''"
proof -
  have cap: "fst (requiredCapability ''/admin/transfer'') \<noteq> []" "fst (requiredCapability ''/admin/files/write'') \<noteq> []"
    "fst (requiredCapability ''/admin/access/grants'') \<noteq> []" by code_simp+
  consider "Path r = ''/admin/internal/accept-promotion''" | "Path r = ''/admin/transfer''" | "Path r = ''/admin/files/write''"
    | "Path r = ''/admin/access/grants''"
    | "Path r \<noteq> ''/admin/internal/accept-promotion''" "Path r \<noteq> ''/admin/transfer''" "Path r \<noteq> ''/admin/files/write''"
      "Path r \<noteq> ''/admin/access/grants''" by blast
  then show ?thesis
  proof cases
    case 1
    obtain resp n1 w1 where run: "acceptPromotion e r n w = (resp, n1, w1)" using prod_cases3 by blast
    with 1 assms have "wr = send_response resp" "n1 = n'" "w1 = w'" by (simp_all add: AdminHandler_def)
    with 1 run show ?thesis by (intro accept) simp_all
  next
    case 2 with assms cap show ?thesis by (intro guarded [of "transferAdmin e"]) (simp_all add: AdminHandler_def inert_handlers)
  next
    case 3 with assms cap show ?thesis by (intro guarded [of "atomicWriteFile e"]) (simp_all add: AdminHandler_def inert_handlers)
  next
    case 4 with assms cap show ?thesis by (intro guarded [of "handleAccessGrants e"]) (simp_all add: AdminHandler_def inert_handlers)
  next
    case 5
    show ?thesis
    proof (cases "has_prefix (Path r) ''/admin/hosts/''")
      case True with 5 assms show ?thesis
        by (intro guarded [of "handleHostMutation e"]) (simp_all add: AdminHandler_def inert_handlers)
    next
      case False with 5 assms show ?thesis by (intro none) (simp_all add: AdminHandler_def)
    qed
  qed
qed

lemma AdminHandler_guard:
  assumes "AdminHandler e r n w = (wr, n', w')" "Path r \<noteq> ''/admin/internal/accept-promotion''"
    and "\<not> unchanged n w n' w'"
  shows "isMutationMethod (Method r) \<and> key_ok r w \<and> epoch_ok r n \<and> capability_ok r n \<and>
     fst (requiredCapability (Path r)) \<noteq> []"
  using assms(1)
proof (cases rule: AdminHandler_cases)
  case accept with assms(2) show ?thesis by simp
next
  case none with assms(3) show ?thesis by (simp add: unchanged_def)
next
  case (guarded nxt)
  from requireAdminKey_run [OF guarded(1)] assms(3) obtain w1
    where ck: "admin_check r n w = (None, w1)" and cm: "admin_commit nxt r n w1 = (wr, n', w')" by blast
  have moved: "\<not> (n' = n \<and> w' = w1)" using assms(3) admin_check_quiet [OF ck] by (auto simp: unchanged_def)
  have "isMutationMethod (Method r)" using commit_inert [OF guarded(2) _ cm] moved by blast
  moreover have "fst (requiredCapability (Path r)) \<noteq> []"
  proof
    assume "fst (requiredCapability (Path r)) = []"
    with guarded(4) have hs: "nxt = handleHostMutation e" "has_prefix (Path r) ''/admin/hosts/''" by simp_all
    obtain resp where "nxt r n w1 = (resp, n, w1)" "400 \<le> status resp"
      using host_capability [OF hs(2) \<open>fst (requiredCapability (Path r)) = []\<close>] hs(1) by blast
    with commit_4xx cm moved show False by blast
  qed
  ultimately show ?thesis using admin_check_None [OF ck] by blast
qed

text \<open>
  C2 (who may change a node). A request to an administration route other than accept-promotion changes the node or its
  files only if its method is a mutation, its key is the content of the key file, its epoch is the node's, and,
  once grants exist, its caller is known and has, on the target the route names, a capability that the
  route does require: no mutating route is without one.
\<close>

theorem admin_guard:
  assumes "AdminHandler e r n w = (wr, n', w')" "Path r \<noteq> ''/admin/internal/accept-promotion''"
    and "\<not> unchanged n w n' w'"
  shows "isMutationMethod (Method r) \<and> key_ok r w \<and> epoch_ok r n \<and> capability_ok r n \<and>
     fst (requiredCapability (Path r)) \<noteq> []"
  using AdminHandler_guard [OF assms] .

text \<open>A concrete node, environment and requests for the examples.\<close>

definition demo_env :: admin_env where
  "demo_env = \<lparr>ae_Hostname = ''tailkitd-a'', ae_HostConfigPath = [], ae_ServicesDir = [], ae_AdminFencePath = [],
     json_host = (\<lambda>_. None), json_service = (\<lambda>s. Some (demo_service [] s)), json_grants = (\<lambda>_. None),
     json_transfer = (\<lambda>s. Some s), json_promotion = (\<lambda>s. case parse_int s of Inl _ \<Rightarrow> None | Inr n \<Rightarrow> Some n),
     json_write = (\<lambda>_. None), enc_service = (\<lambda>s. Some (sv_Name s @ sv_SystemdUnit s)), enc_grants = (\<lambda>_. None), enc_hosts = (\<lambda>_. None),
     dec_service = demo_svc_toml, dec_grants = (\<lambda>_. None), dec_hosts = (\<lambda>_. None), http_promote = (\<lambda>_ _. Some 200)\<rparr>"

definition demo_node :: node where
  "demo_node = \<lparr>nd_host = \<lparr>hm_hosts = [], hm_self = empty_host, hm_path = [], hm_selfTailnetName = ''a''\<rparr>,
     nd_services = \<lparr>sr_dir = DefaultServicesDir, sr_services = []\<rparr>, nd_admin = \<lparr>isAdmin = True\<rparr>,
     nd_access = Some \<lparr>ac_dir = DefaultAccessDir, ac_grants = [\<lparr>Identity = ''bob@x'', Target = ''*'', Role = ''superadmin''\<rparr>]\<rparr>,
     nd_epoch = Some \<lparr>ep_path = ''/etc/tailkitd/state.epoch'', ep_value = 7\<rparr>\<rparr>"

definition demo_request :: "string \<Rightarrow> string \<Rightarrow> string \<Rightarrow> request" where
  "demo_request m p b = \<lparr>Method = m, Path = p,
     Header = (\<lambda>k. if k = ''X-Admin-Key'' then ''k1'' else if k = ''X-State-Epoch'' then ''7'' else []),
     Query = (\<lambda>_. []), Body = b, Caller = Some \<lparr>Hostname = ''h'', UserLogin = ''Bob@x''\<rparr>\<rparr>"

definition demo_disk :: world where
  "demo_disk = demo_world [(AdminKeyPath, text_file (''k1'' @ [CHR 0x0A])), (AdminFencePath, text_file (fence_line 3))]
     [''/etc'', AdminDirPath]"

theorem admin_guard_witness:
  "key_ok (demo_request ''POST'' ''/admin/transfer'' ''b'') demo_disk \<and>
   epoch_ok (demo_request ''POST'' ''/admin/transfer'' ''b'') demo_node \<and>
   capability_ok (demo_request ''POST'' ''/admin/transfer'' ''b'') demo_node"
proof -
  let ?r = "demo_request ''POST'' ''/admin/transfer'' ''b''"
  obtain wr n' w' where run: "AdminHandler demo_env ?r demo_node demo_disk = (wr, n', w')" using prod_cases3 by blast
  have "isAdmin (nd_admin (fst (snd (AdminHandler demo_env ?r demo_node demo_disk)))) = False" by code_simp
  then have "n' \<noteq> demo_node" using run by (auto simp: demo_node_def)
  then have "\<not> unchanged demo_node demo_disk n' w'" by (simp add: unchanged_def)
  moreover have "Path ?r \<noteq> ''/admin/internal/accept-promotion''" by (simp add: demo_request_def)
  ultimately show ?thesis using admin_guard [OF run] by blast
qed

section \<open>The epoch\<close>

definition keeps_epoch :: "handler \<Rightarrow> bool" where
  "keeps_epoch nxt \<longleftrightarrow> (\<forall>r n w resp n' w'. nxt r n w = (resp, n', w') \<longrightarrow> nd_epoch n' = nd_epoch n \<and>
     ''X-State-Epoch'' \<notin> fst ` set (rs_header resp))"

lemma reply_headers [simp]:
  "fst ` set (rs_header (WriteJSON st v)) = {''Content-Type''}"
  "fst ` set (rs_header (WriteError st m h)) = {''Content-Type''}"
  "fst ` set (rs_header (WriteErrorE st m x)) = {''Content-Type''}"
  "fst ` set (rs_header (WriteHeader st)) = {}"
  "fst ` set (rs_header (bad_method h)) = {''Content-Type''}"
  by (simp_all add: WriteJSON_def WriteError_def WriteErrorE_def WriteHeader_def bad_method_def json_type_def)

lemma keeps_epochI:
  "(\<And>r n w. nd_epoch (fst (snd (nxt r n w))) = nd_epoch n) \<Longrightarrow>
   (\<And>r n w. fst ` set (rs_header (fst (nxt r n w))) \<subseteq> {''Content-Type''}) \<Longrightarrow> keeps_epoch nxt"
proof -
  assume ep: "\<And>r n w. nd_epoch (fst (snd (nxt r n w))) = nd_epoch n"
    and hd: "\<And>r n w. fst ` set (rs_header (fst (nxt r n w))) \<subseteq> {''Content-Type''}"
  have "''X-State-Epoch'' \<notin> A" if "A \<subseteq> {''Content-Type''}" for A :: "string set" using that by auto
  then show "keeps_epoch nxt"
    unfolding keeps_epoch_def using ep hd by (metis fst_conv snd_conv)
qed

lemma transfer_epoch: "keeps_epoch (transferAdmin e)"
  by (rule keeps_epochI; simp add: transferAdmin_def Let_def split: prod.splits sum.splits option.splits)

lemma accept_epoch: "keeps_epoch (acceptPromotion e)"
  by (rule keeps_epochI; simp add: acceptPromotion_def Let_def split: prod.splits sum.splits option.splits)

lemma write_epoch: "keeps_epoch (atomicWriteFile e)"
  by (rule keeps_epochI; simp add: atomicWriteFile_def decode_data_def Let_def split: prod.splits sum.splits option.splits)

lemma grants_epoch: "keeps_epoch (handleAccessGrants e)"
proof (rule keeps_epochI)
  show "nd_epoch (fst (snd (handleAccessGrants e r n w))) = nd_epoch n" for r n w
    by (simp add: handleAccessGrants_def split: option.splits prod.splits)
  have "fst ` set (rs_header (fst (AccessHandler e reg r w))) \<subseteq> {''Content-Type''}" for reg r w
    by (simp add: AccessHandler_def Let_def split: prod.splits sum.splits option.splits)
  then show "fst ` set (rs_header (fst (handleAccessGrants e r n w))) \<subseteq> {''Content-Type''}" for r n w
    by (simp add: handleAccessGrants_def split: option.splits prod.splits) (metis fst_conv)
qed

lemma push_host_epoch: "keeps_epoch (pushHostConfig e)"
  by (rule keeps_epochI; simp add: pushHostConfig_def Let_def split: prod.splits sum.splits option.splits)

lemma push_service_epoch: "keeps_epoch (pushService e nm)"
  by (rule keeps_epochI; simp add: pushService_def Let_def split: prod.splits sum.splits option.splits)

lemma delete_service_epoch: "keeps_epoch (deleteService e nm)"
  by (rule keeps_epochI; simp add: deleteService_def Let_def split: prod.splits sum.splits option.splits io_error.splits)

lemma hosts_epoch: "keeps_epoch (handleHostMutation e)"
  using push_host_epoch [of e] push_service_epoch [of e] delete_service_epoch [of e]
  unfolding keeps_epoch_def handleHostMutation_def Let_def by (auto split: if_splits)

lemmas handlers_epoch = transfer_epoch write_epoch grants_epoch hosts_epoch

lemma commit_sent:
  assumes "admin_commit nxt r n w = (wr, n', w')"
  shows "\<exists>n1 w1. nxt r n w = (wr_sent wr, n1, w1) \<and>
     (\<forall>ep. nd_epoch n1 = Some ep \<longrightarrow> (\<exists>ep'. nd_epoch n' = Some ep' \<and> ep_value ep' =
        (if isMutationMethod (Method r) \<and> 200 \<le> status (wr_sent wr) \<and> status (wr_sent wr) < 300
         then wrap64 (ep_value ep + 1) else ep_value ep)))"
proof -
  obtain resp n1 w1 where run: "nxt r n w = (resp, n1, w1)" using prod_cases3 by blast
  have sent: "wr_sent wr = resp"
    using assms run by (auto simp: admin_commit_def Let_def send_response_def set_header_def
        split: option.splits if_splits prod.splits sum.splits)
  have "\<exists>ep'. nd_epoch n' = Some ep' \<and> ep_value ep' =
        (if isMutationMethod (Method r) \<and> 200 \<le> status resp \<and> status resp < 300
         then wrap64 (ep_value ep + 1) else ep_value ep)" if ep: "nd_epoch n1 = Some ep" for ep
  proof (cases "isMutationMethod (Method r) \<and> 200 \<le> status resp \<and> status resp < 300")
    case True
    obtain x ep' w2 where inc: "epoch_Increment ep w1 = (x, ep', w2)" using prod_cases3 by blast
    have "nd_epoch n' = Some ep'"
      using assms run ep True inc by (auto simp: admin_commit_def Let_def split: sum.splits)
    with True Increment_value [of ep w1] inc show ?thesis by simp
  next
    case False
    then have "n' = n1" using assms run ep by (auto simp: admin_commit_def Let_def split: if_splits)
    with ep False show ?thesis by auto
  qed
  with run sent show ?thesis by blast
qed

lemma AdminHandler_epoch:
  assumes "AdminHandler e r n w = (wr, n', w')" "nd_epoch n = Some ep"
  shows "\<exists>ep'. nd_epoch n' = Some ep' \<and> ep_value ep' =
     (if Path r \<noteq> ''/admin/internal/accept-promotion'' \<and> isMutationMethod (Method r) \<and>
         200 \<le> status (wr_sent wr) \<and> status (wr_sent wr) < 300
      then wrap64 (ep_value ep + 1) else ep_value ep)"
  using assms(1)
proof (cases rule: AdminHandler_cases)
  case (accept resp)
  with accept_epoch [of e] assms(2) show ?thesis unfolding keeps_epoch_def by metis
next
  case none with assms(2) show ?thesis by (simp add: send_response_def)
next
  case (guarded nxt)
  from requireAdminKey_run [OF guarded(1)] show ?thesis
  proof
    assume "unchanged n w n' w' \<and> 400 \<le> status (wr_sent wr)"
    with assms(2) show ?thesis by (auto simp: unchanged_def)
  next
    assume "\<exists>w1. admin_check r n w = (None, w1) \<and> admin_commit nxt r n w1 = (wr, n', w')"
    then obtain w1 where cm: "admin_commit nxt r n w1 = (wr, n', w')" by blast
    have "keeps_epoch nxt" using guarded(3) handlers_epoch by blast
    with commit_sent [OF cm] assms(2) guarded(5) show ?thesis unfolding keeps_epoch_def by (metis (no_types, lifting))
  qed
qed

text \<open>
  C3 (the epoch counts the mutations). A request moves a node's epoch, by exactly one, if and only if it is a
  mutation that a guarded route answered with success (2xx): refused and failed requests, reads and accepted
  promotions leave it.
\<close>

theorem admin_epoch_step:
  assumes "AdminHandler e r n w = (wr, n', w')" "nd_epoch n = Some ep"
  shows "\<exists>ep'. nd_epoch n' = Some ep' \<and> ep_value ep' =
     (if Path r \<noteq> ''/admin/internal/accept-promotion'' \<and> isMutationMethod (Method r) \<and>
         200 \<le> status (wr_sent wr) \<and> status (wr_sent wr) < 300
      then wrap64 (ep_value ep + 1) else ep_value ep)"
  using AdminHandler_epoch [OF assms] .

theorem admin_epoch_step_witness:
  "\<exists>ep'. nd_epoch (fst (snd (AdminHandler demo_env (demo_request ''POST'' ''/admin/transfer'' ''b'') demo_node demo_disk))) = Some ep' \<and>
     ep_value ep' = 8"
proof -
  let ?r = "demo_request ''POST'' ''/admin/transfer'' ''b''"
  obtain wr n' w' where run: "AdminHandler demo_env ?r demo_node demo_disk = (wr, n', w')" using prod_cases3 by blast
  have "status (wr_sent (fst (AdminHandler demo_env ?r demo_node demo_disk))) = 200" by code_simp
  moreover have "nd_epoch demo_node = Some \<lparr>ep_path = ''/etc/tailkitd/state.epoch'', ep_value = 7\<rparr>" by (simp add: demo_node_def)
  moreover have "wrap64 (7 + 1) = 8" by code_simp
  ultimately show ?thesis
    using admin_epoch_step [OF run, of "\<lparr>ep_path = ''/etc/tailkitd/state.epoch'', ep_value = 7\<rparr>"] run
    by (simp add: demo_request_def isMutationMethod_def)
qed

lemma AdminHandler_success:
  assumes "AdminHandler e r n w = (wr, n', w')" "Path r \<noteq> ''/admin/internal/accept-promotion''"
    and "status (wr_sent wr) < 300"
  shows "epoch_ok r n \<and> capability_ok r n"
  using assms(1)
proof (cases rule: AdminHandler_cases)
  case accept with assms(2) show ?thesis by simp
next
  case none with assms(3) show ?thesis by (simp add: send_response_def)
next
  case (guarded nxt)
  from requireAdminKey_run [OF guarded(1)] assms(3) obtain w1 where "admin_check r n w = (None, w1)" by fastforce
  with admin_check_None show ?thesis by blast
qed



text \<open>
  The epoch in the response: A refusal for a wrong epoch carries the node's epoch; a successful mutation does
  not carry the new one, although the code sets it: the handler has already sent the response, so the
  header map changes but not what the client receives.
\<close>

theorem admin_epoch_header:
  assumes "AdminHandler e r n w = (wr, n', w')" "status (wr_sent wr) < 300"
  shows "''X-State-Epoch'' \<notin> fst ` set (rs_header (wr_sent wr))"
  using assms(1)
proof (cases rule: AdminHandler_cases)
  case (accept resp)
  with accept_epoch [of e] show ?thesis unfolding keeps_epoch_def send_response_def by (metis writer.select_convs(2))
next
  case none with assms(2) show ?thesis by (simp add: send_response_def)
next
  case (guarded nxt)
  from requireAdminKey_run [OF guarded(1)] assms(2) obtain w1
    where cm: "admin_commit nxt r n w1 = (wr, n', w')" by fastforce
  have "keeps_epoch nxt" using guarded(3) handlers_epoch by blast
  with commit_sent [OF cm] show ?thesis unfolding keeps_epoch_def by metis
qed

theorem admin_epoch_header_witness:
  "let wr = fst (AdminHandler demo_env (demo_request ''POST'' ''/admin/transfer'' ''b'') demo_node demo_disk) in
   status (wr_sent wr) = 200 \<and> map_of (wr_header wr) ''X-State-Epoch'' = Some ''8'' \<and>
   ''X-State-Epoch'' \<notin> fst ` set (rs_header (wr_sent wr))"
proof -
  let ?r = "demo_request ''POST'' ''/admin/transfer'' ''b''"
  obtain wr n' w' where run: "AdminHandler demo_env ?r demo_node demo_disk = (wr, n', w')" using prod_cases3 by blast
  have "status (wr_sent (fst (AdminHandler demo_env ?r demo_node demo_disk))) = 200 \<and>
      map_of (wr_header (fst (AdminHandler demo_env ?r demo_node demo_disk))) ''X-State-Epoch'' = Some ''8''" by code_simp
  with admin_epoch_header [OF run] run show ?thesis by (simp add: Let_def)
qed

section \<open>Concurrent mutations\<close>

text \<open>
  The epoch check is not atomic: The epoch is compared before the handler and bumped after it, with
  no lock between. Two mutations that name the same epoch and whose checks both run before the first handler
  both take effect; the epoch then moves by two.
\<close>

theorem admin_epoch_race:
  assumes "admin_check r1 n w = (None, w1)" "admin_check r2 n w1 = (None, w2)"
    and "admin_commit nxt1 r1 n w2 = (wr1, n1, w3)" "admin_commit nxt2 r2 n1 w3 = (wr2, n2, w4)"
    and "isMutationMethod (Method r1)" "isMutationMethod (Method r2)" "keeps_epoch nxt1" "keeps_epoch nxt2"
    and "status (wr_sent wr1) = 200" "status (wr_sent wr2) = 200" "nd_epoch n = Some ep"
  shows "parse_int (Header r1 ''X-State-Epoch'') = Inr (ep_value ep) \<and>
     parse_int (Header r2 ''X-State-Epoch'') = Inr (ep_value ep) \<and>
     (\<exists>ep'. nd_epoch n2 = Some ep' \<and> ep_value ep' = wrap64 (wrap64 (ep_value ep + 1) + 1))"
proof (intro conjI)
  show "parse_int (Header r1 ''X-State-Epoch'') = Inr (ep_value ep)"
    using admin_check_None [OF assms(1)] assms(5,11) by (simp add: epoch_ok_def)
  show "parse_int (Header r2 ''X-State-Epoch'') = Inr (ep_value ep)"
    using admin_check_None [OF assms(2)] assms(6,11) by (simp add: epoch_ok_def)
  obtain ep1 where "nd_epoch n1 = Some ep1" "ep_value ep1 = wrap64 (ep_value ep + 1)"
    using commit_sent [OF assms(3)] assms(5,7,9,11) unfolding keeps_epoch_def by force
  then show "\<exists>ep'. nd_epoch n2 = Some ep' \<and> ep_value ep' = wrap64 (wrap64 (ep_value ep + 1) + 1)"
    using commit_sent [OF assms(4)] assms(6,8,10) unfolding keeps_epoch_def by force
qed

definition demo_push :: "string \<Rightarrow> string \<Rightarrow> request" where
  "demo_push nm u = demo_request ''POST'' (''/admin/hosts/me/services/'' @ nm) u"

theorem admin_epoch_race_witness:
  "\<exists>w2 wr1 n1 w3 wr2 n2 w4. snd (admin_check (demo_push ''b'' ''u'') demo_node demo_disk) = w2 \<and>
     admin_commit (handleHostMutation demo_env) (demo_push ''b'' ''u'') demo_node (snd (admin_check (demo_push ''b'' ''v'') demo_node w2)) = (wr1, n1, w3) \<and>
     admin_commit (handleHostMutation demo_env) (demo_push ''b'' ''v'') n1 w3 = (wr2, n2, w4) \<and>
     status (wr_sent wr1) = 200 \<and> status (wr_sent wr2) = 200 \<and> map_option ep_value (nd_epoch n2) = Some 9 \<and>
     map_of (sr_services (nd_services n2)) ''b'' = Some (demo_service ''b'' ''v'')"
proof -
  let ?r1 = "demo_push ''b'' ''u''" and ?r2 = "demo_push ''b'' ''v''" and ?h = "handleHostMutation demo_env"
  obtain x1 w1 where c1: "admin_check ?r1 demo_node demo_disk = (x1, w1)" by fastforce
  obtain x2 w2 where c2: "admin_check ?r2 demo_node w1 = (x2, w2)" by fastforce
  obtain wr1 n1 w3 where m1: "admin_commit ?h ?r1 demo_node w2 = (wr1, n1, w3)" using prod_cases3 by blast
  obtain wr2 n2 w4 where m2: "admin_commit ?h ?r2 n1 w3 = (wr2, n2, w4)" using prod_cases3 by blast
  define probe where "probe = (case admin_check ?r1 demo_node demo_disk of (x1, w1) \<Rightarrow>
      (case admin_check ?r2 demo_node w1 of (x2, w2) \<Rightarrow>
      (case admin_commit ?h ?r1 demo_node w2 of (wr1, n1, w3) \<Rightarrow>
      (case admin_commit ?h ?r2 n1 w3 of (wr2, n2, w4) \<Rightarrow>
        (map_option status x1, map_option status x2, status (wr_sent wr1), status (wr_sent wr2),
         map_of (sr_services (nd_services n2)) ''b'')))))"
  have "probe = (None, None, 200, 200, Some (demo_service ''b'' ''v''))" unfolding probe_def by code_simp
  then have st: "x1 = None" "x2 = None" "status (wr_sent wr1) = 200" "status (wr_sent wr2) = 200"
    "map_of (sr_services (nd_services n2)) ''b'' = Some (demo_service ''b'' ''v'')"
    unfolding probe_def c1 c2 m1 m2 prod.case by simp_all
  have ep: "nd_epoch demo_node = Some \<lparr>ep_path = ''/etc/tailkitd/state.epoch'', ep_value = 7\<rparr>" by (simp add: demo_node_def)
  have mut: "isMutationMethod (Method ?r1)" "isMutationMethod (Method ?r2)"
    by (simp_all add: demo_push_def demo_request_def isMutationMethod_def)
  have "wrap64 (wrap64 (7 + 1) + 1) = 9" by code_simp
  then have last: "map_option ep_value (nd_epoch n2) = Some 9"
    using admin_epoch_race [OF c1 [unfolded st] c2 [unfolded st] m1 m2 mut hosts_epoch hosts_epoch st(3,4) ep] by auto
  have "snd (admin_check ?r1 demo_node demo_disk) = w1" using c1 by simp
  moreover have "admin_commit ?h ?r1 demo_node (snd (admin_check ?r2 demo_node w1)) = (wr1, n1, w3)" using c2 m1 by simp
  ultimately show ?thesis using m2 st(3-5) last by blast
qed

section \<open>The admin role\<close>

text \<open>
  Promotion needs no key: A \<open>POST\<close> to accept-promotion with any non-negative fence, whatever its key, epoch
  and caller and however small the fence, makes the node admin with that fence, if the disk works.
\<close>

theorem accept_promotion_open:
  assumes "Path r = ''/admin/internal/accept-promotion''" "Method r = ''POST''" "json_promotion e (Body r) = Some f" "0 \<le> f"
    and "fault_free w" "clean (dir_of (adminFencePath e)) \<in> set (w_dirs w)" "clean (adminFencePath e) \<notin> set (w_dirs w)"
  shows "\<exists>wr n' w'. AdminHandler e r n w = (wr, n', w') \<and> status (wr_sent wr) = 200 \<and> IsAdmin (nd_admin n') \<and>
     map_option f_data (get_file w' (adminFencePath e)) = Some (fence_line f)"
proof -
  obtain w' where aw: "AtomicWrite (adminFencePath e) (fence_line f) 384 w = (Inr (), w')"
    and wr: "wrote (adminFencePath e) \<lparr>f_data = fence_line f, f_perm = 384\<rparr> w w'"
    using atomic_write_fault_free [OF assms(5-7)] by blast
  from wr have "get_file w' (adminFencePath e) = Some \<lparr>f_data = fence_line f, f_perm = 384\<rparr>" by (simp add: wrote_get)
  with aw assms(1-4) show ?thesis
    by (simp add: AdminHandler_def acceptPromotion_def send_response_def SetAdmin_def IsAdmin_def)
qed

theorem accept_promotion_open_witness:
  "\<exists>wr n' w'. AdminHandler demo_env ((demo_request ''POST'' ''/admin/internal/accept-promotion'' ''0'')\<lparr>Header := (\<lambda>_. []), Caller := None\<rparr>)
       (demo_node\<lparr>nd_admin := \<lparr>isAdmin = False\<rparr>\<rparr>) demo_disk = (wr, n', w') \<and> status (wr_sent wr) = 200 \<and> IsAdmin (nd_admin n') \<and>
     map_option f_data (get_file w' (adminFencePath demo_env)) = Some (fence_line 0)"
proof (rule accept_promotion_open)
  show "fault_free demo_disk" by (simp add: demo_disk_def)
  show "json_promotion demo_env (Body ((demo_request ''POST'' ''/admin/internal/accept-promotion'' ''0'')\<lparr>Header := (\<lambda>_. []), Caller := None\<rparr>)) = Some 0"
    by (simp add: demo_request_def) code_simp
  show "clean (dir_of (adminFencePath demo_env)) \<in> set (w_dirs demo_disk)" "clean (adminFencePath demo_env) \<notin> set (w_dirs demo_disk)"
    by code_simp+
qed (simp_all add: demo_request_def)

lemma ff_write_succeeds:
  "fault_free w \<Longrightarrow> clean (dir_of p) \<in> set (w_dirs w) \<Longrightarrow> clean p \<notin> set (w_dirs w) \<Longrightarrow>
   AtomicWrite p d perm w = (v, w') \<Longrightarrow> v = Inr ()"
  using atomic_write_fault_free [of w p d perm] by auto

lemma fence_read:
  "fault_free w \<Longrightarrow> map_option f_data (get_file w AdminFencePath) = Some (fence_line f) \<Longrightarrow> in_int64 f \<Longrightarrow>
   fst (GetFenceToken w) = Inr f"
  by (auto simp: GetFenceToken_def ReadFile_ff_cases fence_line_def trim_dec_line parse_int_dec)

lemma fence_same:
  "fault_free w \<Longrightarrow> fault_free w' \<Longrightarrow> same_files w w' \<Longrightarrow> fst (GetFenceToken w') = fst (GetFenceToken w)"
proof -
  assume ff: "fault_free w" "fault_free w'" and same: "same_files w w'"
  have g: "get_file w' AdminFencePath = get_file w AdminFencePath" by (rule same_files_get [OF same])
  have d: "w_dirs w' = w_dirs w" using same by (simp add: same_files_def)
  show "fst (GetFenceToken w') = fst (GetFenceToken w)"
    by (simp add: GetFenceToken_def ReadFile_ff_cases [OF ff(1)] ReadFile_ff_cases [OF ff(2)] g d split: option.splits sum.splits)
qed

lemma GetFence_world: "snd (GetFenceToken w) = snd (os_ReadFile AdminFencePath w)"
  by (simp add: GetFenceToken_def split: prod.splits sum.splits)

lemma ff_GetFence: "fault_free w \<Longrightarrow> GetFenceToken w = (x, w') \<Longrightarrow> fault_free w' \<and> same_files w w'"
  using GetFence_world [of w] io_keepsD [OF ff_ops(8), of w AdminFencePath] quiet_ops(8) [of AdminFencePath]
  by (simp add: quiet_def)

lemma fence_written:
  assumes "AtomicWrite AdminFencePath (fence_line f) 384 w = (Inr (), w')" "fault_free w" "in_int64 f"
  shows "fst (GetFenceToken w') = Inr f"
proof -
  have "wrote AdminFencePath \<lparr>f_data = fence_line f, f_perm = 384\<rparr> w w'" using atomic_write_ok [OF assms(1)] .
  then have "map_option f_data (get_file w' AdminFencePath) = Some (fence_line f)" by (simp add: wrote_get)
  with fence_read ffD [OF ff_atomic_write assms(1,2)] assms(3) show ?thesis by blast
qed

lemma fence_refused:
  assumes "AtomicWrite AdminFencePath d perm w = (Inl x, w')" "fault_free w"
  shows "fst (GetFenceToken w') = fst (GetFenceToken w) \<and> fault_free w'"
  using fence_same [OF assms(2) _ atomic_write_error [OF assms(1)]] ffD [OF ff_atomic_write assms] by blast

lemma parse_fence_range: "fst (GetFenceToken w) = Inr cur \<Longrightarrow> in_int64 cur"
  by (auto simp: GetFenceToken_def parse_int_def Let_def split: prod.splits sum.splits if_splits list.splits)



text \<open>
  A lost reply leaves two admins: When the old admin transfers and the new one accepts that
  promotion, the new one is admin; the old one stays admin exactly when it does not receive the
  200, for instance because the reply was lost, and then both are.
\<close>

theorem transfer_pair:
  assumes transfer: "transferAdmin e1 r1 n1 w1 = (resp1, n1', w1')" "Method r1 = ''POST''" "IsAdmin (nd_admin n1)"
      "json_transfer e1 (Body r1) = Some t" "t \<noteq> []" "fst (GetFenceToken w1) = Inr cur" "in_int64 (cur + 1)"
      "fault_free w1" "clean (dir_of (adminFencePath e1)) \<in> set (w_dirs w1)" "clean (adminFencePath e1) \<notin> set (w_dirs w1)"
    and accept: "acceptPromotion e2 r2 n2 w2 = (resp2, n2', w2')" "json_promotion e2 (Body r2) = Some (cur + 1)" "status resp2 = 200"
  shows "IsAdmin (nd_admin n2') \<and> (IsAdmin (nd_admin n1') \<longleftrightarrow> http_promote e1 t (cur + 1) \<noteq> Some 200)"
proof
  show "IsAdmin (nd_admin n2')"
    using accept by (auto simp: acceptPromotion_def SetAdmin_def IsAdmin_def split: if_splits prod.splits sum.splits)
  obtain x u1 where ft: "GetFenceToken w1 = (x, u1)" by fastforce
  with transfer(6) have x: "x = Inr cur" by simp
  have ff: "fault_free u1" "same_files w1 u1" using ff_GetFence [OF transfer(8) ft] by simp_all
  then have "clean (dir_of (adminFencePath e1)) \<in> set (w_dirs u1)" "clean (adminFencePath e1) \<notin> set (w_dirs u1)"
    using transfer(9,10) by (simp_all add: same_files_def)
  then obtain u2 where aw: "AtomicWrite (adminFencePath e1) (fence_line (cur + 1)) 384 u1 = (Inr (), u2)"
    using atomic_write_fault_free [OF ff(1)] by blast
  obtain v u3 where bk: "AtomicWrite (adminFencePath e1) (fence_line cur) 384 u2 = (v, u3)" by fastforce
  have w: "wrap64 (cur + 1) = cur + 1" using transfer(7) by (rule wrap64_id)
  have "n1' = (case Promote e1 t (cur + 1) of Some _ \<Rightarrow> n1 | None \<Rightarrow> n1\<lparr>nd_admin := SetAdmin False (nd_admin n1)\<rparr>)"
    using transfer(1-5) ft x aw bk w by (auto simp: transferAdmin_def Let_def split: option.splits)
  moreover have "Promote e1 t (cur + 1) = None \<longleftrightarrow> http_promote e1 t (cur + 1) = Some 200"
    by (simp add: Promote_def split: option.splits)
  ultimately show "IsAdmin (nd_admin n1') \<longleftrightarrow> http_promote e1 t (cur + 1) \<noteq> Some 200"
    using transfer(3) by (cases "Promote e1 t (cur + 1)") (auto simp: SetAdmin_def IsAdmin_def)
qed

theorem transfer_pair_witness:
  "let e1 = demo_env\<lparr>http_promote := (\<lambda>_ _. None)\<rparr>;
       n1' = fst (snd (transferAdmin e1 (demo_request ''POST'' ''/admin/transfer'' ''b'') demo_node demo_disk));
       n2' = fst (snd (acceptPromotion demo_env (demo_request ''POST'' [] ''4'') (demo_node\<lparr>nd_admin := \<lparr>isAdmin = False\<rparr>\<rparr>) demo_disk))
   in IsAdmin (nd_admin n1') \<and> IsAdmin (nd_admin n2')"
proof -
  let ?e1 = "demo_env\<lparr>http_promote := (\<lambda>_ _. None)\<rparr>" and ?r1 = "demo_request ''POST'' ''/admin/transfer'' ''b''"
    and ?r2 = "demo_request ''POST'' [] ''4''" and ?n2 = "demo_node\<lparr>nd_admin := \<lparr>isAdmin = False\<rparr>\<rparr>"
  obtain resp1 n1' w1' where run1: "transferAdmin ?e1 ?r1 demo_node demo_disk = (resp1, n1', w1')" using prod_cases3 by blast
  obtain resp2 n2' w2' where run2: "acceptPromotion demo_env ?r2 ?n2 demo_disk = (resp2, n2', w2')" using prod_cases3 by blast
  have "status (fst (acceptPromotion demo_env ?r2 ?n2 demo_disk)) = 200" by code_simp
  with run2 have st: "status resp2 = 200" by simp
  have facts: "fst (GetFenceToken demo_disk) = Inr 3" "in_int64 (3 + 1)" "IsAdmin (nd_admin demo_node)"
    "clean (dir_of (adminFencePath ?e1)) \<in> set (w_dirs demo_disk)" "clean (adminFencePath ?e1) \<notin> set (w_dirs demo_disk)"
    "json_transfer ?e1 (Body ?r1) = Some ''b''" "json_promotion demo_env (Body ?r2) = Some 4"
    by code_simp+
  have "IsAdmin (nd_admin n2') \<and> (IsAdmin (nd_admin n1') \<longleftrightarrow> http_promote ?e1 ''b'' (3 + 1) \<noteq> Some 200)"
  proof (rule transfer_pair [OF run1 _ facts(3,6) _ facts(1,2) _ facts(4,5) run2])
    show "fault_free demo_disk" by (simp add: demo_disk_def)
    show "json_promotion demo_env (Body ?r2) = Some (3 + 1)" using facts(7) by simp
  qed (use st in \<open>simp_all add: demo_request_def\<close>)
  with run1 run2 show ?thesis by (simp add: Let_def)
qed

section \<open>Files\<close>

lemma allowed_canonical:
  assumes "allowedAtomicWritePath e p" "canonical p" "canonical (servicesDir e)" "servicesDir e \<noteq> ''/''"
  shows "p = hostConfigPath e \<or> p = adminFencePath e \<or> path_under (servicesDir e) p \<and> has_suffix p ''.toml''"
  using assms canonical_under by (auto simp: allowedAtomicWritePath_def)

lemma atomicWriteFile_writes:
  assumes "atomicWriteFile e r n w = (resp, n', w')" "get_file w' q \<noteq> get_file w q"
  shows "\<exists>wr d. json_write e (Body r) = Some wr \<and> allowedAtomicWritePath e (wq_Path wr) \<and> clean q = clean (wq_Path wr) \<and>
     Inr d = decode_data (wq_Encoding wr) (wq_Data wr) \<and>
     get_file w' q = Some \<lparr>f_data = d, f_perm = (if wq_Perm wr = 0 then 420 else unat (wq_Perm wr))\<rparr>"
proof -
  from assms have m: "Method r = ''POST''" by (auto simp: atomicWriteFile_def split: if_splits)
  from assms m obtain wr where wr: "json_write e (Body r) = Some wr" by (auto simp: atomicWriteFile_def split: option.splits)
  from assms m wr have al: "allowedAtomicWritePath e (wq_Path wr)" by (auto simp: atomicWriteFile_def split: if_splits)
  from assms m wr al obtain d where d: "decode_data (wq_Encoding wr) (wq_Data wr) = Inr d"
    by (auto simp: atomicWriteFile_def split: sum.splits)
  let ?p = "if wq_Perm wr = 0 then 420 else unat (wq_Perm wr)"
  obtain x w1 where mk: "os_MkdirAll (dir_of (wq_Path wr)) w = (x, w1)" by fastforce
  obtain y w2 where aw: "AtomicWrite (wq_Path wr) d ?p w1 = (y, w2)" by fastforce
  note run = assms(1) [unfolded atomicWriteFile_def Let_def]
  have same1: "get_file w1 q = get_file w q" using MkdirAll_files [OF mk] .
  have "w' = (case x of Inl _ \<Rightarrow> w1 | Inr _ \<Rightarrow> w2)"
    using run m wr al d mk aw by (cases x; cases y) (simp_all split: if_splits)
  with assms(2) same1 have x: "w' = w2" by (cases x) simp_all
  from atomic_write_cases [OF aw] show ?thesis
  proof
    assume "\<exists>z. y = Inl z \<and> same_files w1 w2"
    with assms(2) x same1 same_files_get show ?thesis by metis
  next
    assume "y = Inr () \<and> wrote (wq_Path wr) \<lparr>f_data = d, f_perm = ?p\<rparr> w1 w2"
    then have gw: "get_file w2 q = (if clean q = clean (wq_Path wr) then Some \<lparr>f_data = d, f_perm = ?p\<rparr> else get_file w1 q)"
      using wrote_get by blast
    with assms(2) x same1 have "clean q = clean (wq_Path wr)" by metis
    with gw x wr al d show ?thesis by metis
  qed
qed

text \<open>
  C16 (the file endpoint's allow list). Whatever fails, a write request changes at most the one file it names, to exactly
  the decoded data; and if that path is in cleaned form it is the host file, the fence, or a \<^verbatim>\<open>.toml\<close> file
  below the services directory.
\<close>

theorem atomic_write_allowlist:
  assumes "atomicWriteFile e r n w = (resp, n', w')" "get_file w' q \<noteq> get_file w q"
    and "canonical (servicesDir e)" "servicesDir e \<noteq> ''/''"
  shows "\<exists>wr. json_write e (Body r) = Some wr \<and> clean q = clean (wq_Path wr) \<and>
     decode_data (wq_Encoding wr) (wq_Data wr) = Inr (f_data (the (get_file w' q))) \<and>
     (canonical (wq_Path wr) \<longrightarrow> wq_Path wr = hostConfigPath e \<or> wq_Path wr = adminFencePath e \<or>
        path_under (servicesDir e) (wq_Path wr) \<and> has_suffix (wq_Path wr) ''.toml'')"
  using atomicWriteFile_writes [OF assms(1,2)] allowed_canonical [OF _ _ assms(3,4)]
  by (metis ofile.select_convs(1) option.sel)

definition demo_write_env :: "string \<Rightarrow> admin_env" where
  "demo_write_env p = demo_env\<lparr>json_write :=
     (\<lambda>b. Some \<lparr>wq_Path = p, wq_Perm = 0, wq_Encoding = ''base64'', wq_Data = b\<rparr>)\<rparr>"

theorem atomic_write_allowlist_witness:
  "path_under (servicesDir (demo_write_env ''/etc/tailkitd/services.d/w.toml'')) ''/etc/tailkitd/services.d/w.toml''"
proof -
  let ?p = "''/etc/tailkitd/services.d/w.toml''" and ?r = "demo_request ''POST'' ''/admin/files/write'' ''aGk=''"
  let ?e = "demo_write_env ?p"
  obtain resp n' w' where run: "atomicWriteFile ?e ?r demo_node demo_disk = (resp, n', w')" using prod_cases3 by blast
  have "get_file (snd (snd (atomicWriteFile ?e ?r demo_node demo_disk))) ?p \<noteq> get_file demo_disk ?p" by code_simp
  then have "get_file w' ?p \<noteq> get_file demo_disk ?p" using run by simp
  moreover have "canonical (servicesDir ?e)" "canonical ?p" "servicesDir ?e \<noteq> ''/''" "?p \<noteq> hostConfigPath ?e" "?p \<noteq> adminFencePath ?e"
    by code_simp+
  moreover have "json_write ?e (Body ?r) = Some \<lparr>wq_Path = ?p, wq_Perm = 0, wq_Encoding = ''base64'', wq_Data = Body ?r\<rparr>"
    by (simp add: demo_write_env_def)
  ultimately show ?thesis using atomic_write_allowlist [OF run, of ?p] by simp
qed

text \<open>
  The allow list can be left: The check compares the path as sent, not its cleaned form: with the default
  directories, a path that climbs out of the services directory by \<^verbatim>\<open>..\<close> passes it and is written.
\<close>

theorem atomic_write_escape:
  "let p = ''/etc/tailkitd/services.d/../../x.toml''; e = demo_write_env p;
       w' = snd (snd (AdminHandler e (demo_request ''POST'' ''/admin/files/write'' ''aGk='') demo_node demo_disk))
   in allowedAtomicWritePath e p \<and> clean p = ''/etc/x.toml'' \<and> \<not> path_under (servicesDir e) (clean p) \<and>
      map_option f_data (get_file w' ''/etc/x.toml'') = Some ''hi''"
  by code_simp

text \<open>
  A crash opens the administration: Bootstrap writes the key in place: when the process dies in that write, the next
  start succeeds with an empty key, and a request without an \<^verbatim>\<open>X-Admin-Key\<close> header passes the key check.
\<close>

theorem crash_opens_admin:
  "let boot = EnsureBootstrapFiles (Some [255, 1]); w1 = restarted (snd (boot demo_crash)); w2 = snd (boot w1);
       r = (demo_request ''POST'' ''/admin/transfer'' ''b'')\<lparr>Header := (\<lambda>_. [])\<rparr>
   in fst (boot demo_crash) = Some (AdminIO EDEAD) \<and> fst (boot w1) = None \<and> fst (GetAdminKey w2) = Inr [] \<and>
      fst (admin_check r (demo_node\<lparr>nd_epoch := None\<rparr>) w2) = None"
proof -
  have "map_option status (fst (admin_check ((demo_request ''POST'' ''/admin/transfer'' ''b'')\<lparr>Header := (\<lambda>_. [])\<rparr>)
      (demo_node\<lparr>nd_epoch := None\<rparr>) (snd (EnsureBootstrapFiles (Some [255, 1]) (restarted (snd (EnsureBootstrapFiles (Some [255, 1]) demo_crash))))))) = None"
    by code_simp
  moreover have "fst (EnsureBootstrapFiles (Some [255, 1]) demo_crash) = Some (AdminIO EDEAD)"
    "fst (EnsureBootstrapFiles (Some [255, 1]) (restarted (snd (EnsureBootstrapFiles (Some [255, 1]) demo_crash)))) = None"
    "fst (GetAdminKey (snd (EnsureBootstrapFiles (Some [255, 1]) (restarted (snd (EnsureBootstrapFiles (Some [255, 1]) demo_crash)))))) = Inr []"
    by code_simp+
  ultimately show ?thesis by (simp only: Let_def) simp
qed

section \<open>Pushing a configuration\<close>

lemma find_replace: "hc_Name c = n \<Longrightarrow> List.find (\<lambda>h. hc_Name h = n) (replace_host n c hs) = Some c"
  by (induction hs) auto

lemma find_map: "List.find P (map f xs) = map_option f (List.find (P \<circ> f) xs)"
  by (induction xs) auto

lemma hm_All_ok: "hm_wf m \<Longrightarrow> hosts_ok (hm_All m)"
  by (simp add: hm_All_def hm_wf_def hosts_ok_clone)

lemma hm_Reload_written:
  assumes "WriteHostFile enc p hs w = (None, w1)" "fault_free w" "hm_path m = p"
    and "enc (cloneHostConfigs hs) = Some data" "dec data = Some (cloneHostConfigs hs, [])" "hs \<noteq> []" "hosts_ok hs"
    and "List.find (\<lambda>h. hc_Name h = hm_selfTailnetName m) hs = Some c"
  shows "\<exists>w2. hm_Reload dec m w1 = (None, m\<lparr>hm_hosts := cloneHostConfigs (map host_loaded (cloneHostConfigs hs)),
     hm_self := cloneHostConfig (host_loaded (cloneHostConfig c))\<rparr>, w2)"
proof -
  have aw: "AtomicWrite p data 420 w = (Inr (), w1)"
    using assms(1,4) by (auto simp: WriteHostFile_def split: prod.splits sum.splits)
  have ff1: "fault_free w1" using ffD [OF ff_atomic_write aw assms(2)] .
  have "get_file w1 p = Some \<lparr>f_data = data, f_perm = 420\<rparr>" using atomic_write_ok [OF aw] by (simp add: wrote_get)
  moreover have "parse_hosts dec data = Inr (map host_loaded (cloneHostConfigs hs))"
    using assms(5-7) by (auto simp: parse_hosts_Inr cloneHostConfigs_def o_def hosts_ok_def list_all_iff host_ok_def)
  ultimately have ld: "fst (LoadHostFile dec p w1) = Inr (map host_loaded (cloneHostConfigs hs))"
    using ff1 by (simp add: LoadHostFile_ff)
  have "resolveSelfHost (map host_loaded (cloneHostConfigs hs)) (hm_selfTailnetName m) =
      Inr (cloneHostConfig (host_loaded (cloneHostConfig c)))"
    using assms(8) by (simp add: resolveSelfHost_def cloneHostConfigs_def find_map o_def)
  with ld assms(3) show ?thesis
    by (cases "LoadHostFile dec p w1") (simp add: hm_Reload_def)
qed

text \<open>
  A pushed host configuration takes effect: With no I/O error and a TOML codec that reads back what it writes, a
  pushed configuration of the node's own name is answered with success; from then on the manager serves it, with defaults
  filled in, as the node's own entry, and the other hosts keep their names and order.
\<close>

theorem push_host_effect:
  assumes run: "pushHostConfig e r n w = (resp, n', w')" "json_host e (Body r) = Some req"
    and node: "hm_wf (nd_host n)" "hm_path (nd_host n) = hostConfigPath e" "hm_selfTailnetName (nd_host n) = self" "self \<noteq> []"
    and name: "hc_Name req = [] \<or> hc_Name req = self"
    and hosts: "hs = replace_host self (host_SetDefaults self req) (hm_All (nd_host n))"
    and codec: "enc_hosts e (cloneHostConfigs hs) = Some data" "dec_hosts e data = Some (cloneHostConfigs hs, [])"
    and disk: "fault_free w" "clean (dir_of (hostConfigPath e)) \<in> set (w_dirs w)" "clean (hostConfigPath e) \<notin> set (w_dirs w)"
  shows "status resp = 200 \<and>
     hm_Get (nd_host n') = cloneHostConfig (host_loaded (cloneHostConfig (host_SetDefaults self req))) \<and>
     map hc_Name (hm_All (nd_host n')) =
       (if self \<in> set (map hc_Name (hm_All (nd_host n))) then map hc_Name (hm_All (nd_host n))
        else map hc_Name (hm_All (nd_host n)) @ [self])"
proof -
  let ?c = "host_SetDefaults self req" and ?m = "nd_host n"
  have nm: "hc_Name ?c = self" using name node(4) by (auto simp: or_default_def)
  have ok: "hosts_ok hs" unfolding hosts using replace_host_ok [OF hm_All_ok [OF node(1)] _ nm] node(4) by simp
  have fnd: "List.find (\<lambda>h. hc_Name h = hm_selfTailnetName ?m) hs = Some ?c"
    unfolding hosts node(3) by (rule find_replace [OF nm])
  then have ne: "hs \<noteq> []" by auto
  obtain y w1 where aw: "AtomicWrite (hostConfigPath e) data 420 w = (y, w1)" by fastforce
  have y: "y = Inr ()" using ff_write_succeeds [OF disk aw] .
  have wr: "WriteHostFile (enc_hosts e) (hostConfigPath e) hs w = (None, w1)"
    using codec(1) aw y by (simp add: WriteHostFile_def)
  obtain w2 where rl: "hm_Reload (dec_hosts e) ?m w1 = (None, ?m\<lparr>hm_hosts := cloneHostConfigs (map host_loaded (cloneHostConfigs hs)),
      hm_self := cloneHostConfig (host_loaded (cloneHostConfig ?c))\<rparr>, w2)"
    using hm_Reload_written [where m = ?m and enc = "enc_hosts e" and dec = "dec_hosts e", OF wr disk(1) node(2) codec ne ok fnd] by blast
  have "(resp, n', w') = (WriteJSON 200 Success, n\<lparr>nd_host := ?m\<lparr>hm_hosts := cloneHostConfigs (map host_loaded (cloneHostConfigs hs)),
      hm_self := cloneHostConfig (host_loaded (cloneHostConfig ?c))\<rparr>\<rparr>, w2)"
    using run nm wr rl node(3) hosts by (simp add: pushHostConfig_def Let_def hm_SelfName_def)
  then show ?thesis
    using replace_host_names [OF nm, of "hm_All ?m"] hosts
    by (simp add: hm_Get_def hm_All_def cloneHostConfigs_def o_def)
qed

theorem push_host_effect_witness:
  "\<exists>n' :: node. hc_Role (hm_Get (nd_host n')) = ''db'' \<and> map hc_Name (hm_All (nd_host n')) = [''b'', ''a'']"
proof -
  let ?m = "\<lparr>hm_hosts = [demo_host ''b'' ''x'', demo_host ''a'' ''web''], hm_self = demo_host ''a'' ''web'',
      hm_path = HostsConfigPath, hm_selfTailnetName = ''a''\<rparr>"
  let ?hs = "replace_host ''a'' (host_SetDefaults ''a'' (demo_host [] ''db'')) (hm_All ?m)"
  let ?e = "demo_env\<lparr>json_host := (\<lambda>_. Some (demo_host [] ''db'')), enc_hosts := (\<lambda>_. Some ''d''),
      dec_hosts := (\<lambda>_. Some (cloneHostConfigs ?hs, []))\<rparr>"
  let ?n = "demo_node\<lparr>nd_host := ?m\<rparr>" and ?r = "demo_request ''POST'' ''/admin/hosts/me/config'' []"
  obtain resp n' w' where run: "pushHostConfig ?e ?r ?n demo_disk = (resp, n', w')" using prod_cases3 by blast
  have path: "hostConfigPath ?e = HostsConfigPath" by (simp add: hostConfigPath_def demo_env_def)
  have wf: "hm_wf ?m" by code_simp
  have disk: "fault_free demo_disk" "clean (dir_of HostsConfigPath) \<in> set (w_dirs demo_disk)" "clean HostsConfigPath \<notin> set (w_dirs demo_disk)"
    by (simp add: demo_disk_def, code_simp, code_simp)
  have "status resp = 200 \<and> hm_Get (nd_host n') = cloneHostConfig (host_loaded (cloneHostConfig (host_SetDefaults ''a'' (demo_host [] ''db'')))) \<and>
      map hc_Name (hm_All (nd_host n')) = (if ''a'' \<in> set (map hc_Name (hm_All (nd_host ?n))) then map hc_Name (hm_All (nd_host ?n))
        else map hc_Name (hm_All (nd_host ?n)) @ [''a''])"
    by (rule push_host_effect [OF run, where req = "demo_host [] ''db''" and hs = ?hs and data = "''d''"])
       (use path wf disk in \<open>simp_all add: demo_host_def\<close>)
  moreover have "hc_Role (cloneHostConfig (host_loaded (cloneHostConfig (host_SetDefaults ''a'' (demo_host [] ''db''))))) = ''db''"
    "map hc_Name (hm_All ?m) = [''b'', ''a'']" by code_simp+
  ultimately have "hc_Role (hm_Get (nd_host n')) = ''db''" "map hc_Name (hm_All (nd_host n')) = [''b'', ''a'']" by simp_all
  then show ?thesis by (intro exI [of _ n'] conjI)
qed

end
