(* ===== verification/Provision.thy ===== *)
theory Provision
  imports AdminApi
begin

text \<open>
  Provisioning a service from a staged artifact (\<^verbatim>\<open>internal/provision/provision.go\<close>,
  \<^verbatim>\<open>internal/api/provision.go\<close>). SHA-256, Ed25519 and the codecs are parameters; \<open>ed25519.Verify\<close> panics on a
  key of the wrong length, which is an outcome of its own. \<open>other\<close> is what other processes do to the files between
  the verification of the staged artifact and its installation (\<open>id\<close> when nothing).
\<close>

record provision_request =
  pr_ArtifactHash :: string
  pr_Signature :: string
  pr_SenderPublicKey :: string
  pr_ServiceName :: string
  pr_Runtime :: string
  pr_StagedPath :: string
  pr_ExpectedPorts :: "16 word slice"

record metadata =
  md_ServiceName :: string
  md_Runtime :: string
  md_ArtifactHash :: string
  md_ArtifactPath :: string
  md_ProvisionedAt :: int

record provision_env =
  pe_ServicesDir :: string
  json_provision :: "string \<Rightarrow> provision_request option"
  sha256 :: "string \<Rightarrow> 8 word list"
  ed_verify :: "string \<Rightarrow> 8 word list \<Rightarrow> string \<Rightarrow> bool"
  enc_metadata :: "metadata \<Rightarrow> string option"
  enc_svc :: "service_config \<Rightarrow> string option"
  dec_svc :: service_decoder

datatype provision_error = ReadStaged io_error | HashMismatch | DecodeSenderKey | DecodeArtifactSignature
  | ArtifactSignatureInvalid | UnsupportedRuntime string | ProvisionIO io_error | MetadataEncode
  | ServiceInvalid service_error | ServiceEncode | VerifyPanic

definition BaseDir :: string where "BaseDir = ''/var/lib/tailkitd/services''"

definition VerifyArtifact :: "provision_env \<Rightarrow> provision_request \<Rightarrow> world \<Rightarrow> provision_error option \<times> world" where
  "VerifyArtifact e q w =
     (case os_ReadFile (pr_StagedPath q) w of
        (Inl x, w1) \<Rightarrow> (Some (ReadStaged x), w1)
      | (Inr data, w1) \<Rightarrow>
          (let sum = sha256 e data in
           if hex_encode sum \<noteq> pr_ArtifactHash q then (Some HashMismatch, w1)
           else (case b64_decode (pr_SenderPublicKey q) of
                   None \<Rightarrow> (Some DecodeSenderKey, w1)
                 | Some key \<Rightarrow>
                     (case b64_decode (pr_Signature q) of
                        None \<Rightarrow> (Some DecodeArtifactSignature, w1)
                      | Some sig \<Rightarrow>
                          if length key \<noteq> 32 then (Some VerifyPanic, w1)
                          else if \<not> ed_verify e key sum sig then (Some ArtifactSignatureInvalid, w1)
                          else (None, w1)))))"

definition provision_service :: "provision_request \<Rightarrow> string \<Rightarrow> string \<Rightarrow> service_config" where
  "provision_service q serviceDir artifactPath =
     (let svc = \<lparr>sv_Name = pr_ServiceName q, sv_Runtime = [], sv_Priority = ''normal'', sv_Tags = Some [''provisioned''],
            sv_ExpectedPorts = pr_ExpectedPorts q, sv_SystemdUnit = [], sv_BinaryPath = [], sv_PidFile = []\<rparr>
      in if pr_Runtime q = ''port-only'' then svc\<lparr>sv_Runtime := ''port-only''\<rparr>
         else if pr_Runtime q = ''restricted-systemd''
         then svc\<lparr>sv_Runtime := ''binary'', sv_BinaryPath := artifactPath, sv_PidFile := join_path [serviceDir, ''service.pid'']\<rparr>
         else svc)"

text \<open>The second half of \<open>Provision\<close>: metadata, service file.\<close>

definition provision_register ::
  "provision_env \<Rightarrow> provision_request \<Rightarrow> string \<Rightarrow> string \<Rightarrow> string \<Rightarrow> int \<Rightarrow> world \<Rightarrow> (provision_error + metadata) \<times> world" where
  "provision_register e q sdir serviceDir artifactPath now w =
     (let meta = \<lparr>md_ServiceName = pr_ServiceName q, md_Runtime = pr_Runtime q, md_ArtifactHash = pr_ArtifactHash q,
            md_ArtifactPath = artifactPath, md_ProvisionedAt = now\<rparr>
      in case enc_metadata e meta of
           None \<Rightarrow> (Inl MetadataEncode, w)
         | Some mbytes \<Rightarrow>
             (case AtomicWrite (join_path [serviceDir, ''meta.json'']) mbytes 420 w of
                (Inl x, w1) \<Rightarrow> (Inl (ProvisionIO x), w1)
              | (Inr _, w1) \<Rightarrow>
                  (case svc_Validate (provision_service q serviceDir artifactPath) of
                     Inl x \<Rightarrow> (Inl (ServiceInvalid x), w1)
                   | Inr svc \<Rightarrow>
                       (case enc_svc e svc of
                          None \<Rightarrow> (Inl ServiceEncode, w1)
                        | Some encoded \<Rightarrow>
                            (let serviceFile = FilePath sdir (pr_ServiceName q) in
                             case os_MkdirAll (dir_of serviceFile) w1 of
                               (Inl x, w2) \<Rightarrow> (Inl (ProvisionIO x), w2)
                             | (Inr _, w2) \<Rightarrow>
                                 (case AtomicWrite serviceFile encoded 420 w2 of
                                    (Inl x, w3) \<Rightarrow> (Inl (ProvisionIO x), w3)
                                  | (Inr _, w3) \<Rightarrow> (Inr meta, w3)))))))"

definition Provision ::
  "provision_env \<Rightarrow> provision_request \<Rightarrow> string \<Rightarrow> int \<Rightarrow> (world \<Rightarrow> world) \<Rightarrow> world \<Rightarrow> (provision_error + metadata) \<times> world" where
  "Provision e q sdir now other w =
     (if pr_Runtime q \<noteq> ''port-only'' \<and> pr_Runtime q \<noteq> ''restricted-systemd''
      then (Inl (UnsupportedRuntime (pr_Runtime q)), w)
      else (case VerifyArtifact e q w of
              (Some x, w1) \<Rightarrow> (Inl x, w1)
            | (None, w1) \<Rightarrow>
                (let serviceDir = join_path [BaseDir, pr_ServiceName q] in
                 case os_MkdirAll serviceDir w1 of
                   (Inl x, w2) \<Rightarrow> (Inl (ProvisionIO x), w2)
                 | (Inr _, w2) \<Rightarrow>
                     (let artifactPath = join_path [serviceDir, ''artifact''] in
                      case os_ReadFile (pr_StagedPath q) (other w2) of
                        (Inl x, w3) \<Rightarrow> (Inl (ProvisionIO x), w3)
                      | (Inr data, w3) \<Rightarrow>
                          (case AtomicWrite artifactPath data 360 w3 of
                             (Inl x, w4) \<Rightarrow> (Inl (ProvisionIO x), w4)
                           | (Inr _, w4) \<Rightarrow> provision_register e q sdir serviceDir artifactPath now w4)))))"

section \<open>The endpoint\<close>

datatype provision_failure = ProvisionFailed provision_error | ProvisionEpoch epoch_error | ProvisionHeader api_error

record provision_state =
  ps_access :: "access_registry option"
  ps_services :: service_registry
  ps_epoch :: "epoch option"

type_synonym provision_reply = "(metadata, provision_failure) response"

definition provision_header :: "string \<Rightarrow> string \<Rightarrow> provision_reply \<Rightarrow> provision_reply" where
  "provision_header k v r = r\<lparr>rs_header := AList.update k v (rs_header r)\<rparr>"

text \<open>The refusals before the artifact is touched, in the code's order.\<close>

definition provision_admit :: "provision_env \<Rightarrow> request \<Rightarrow> provision_state \<Rightarrow> provision_reply + provision_request" where
  "provision_admit e r s =
     (if Method r \<noteq> ''POST'' then Inl (bad_method ''use POST'')
      else (case parseCallerEpoch (Header r ''X-State-Epoch'') of
              Inl x \<Rightarrow> Inl (WriteErrorE 400 [] (ProvisionHeader x))
            | Inr c \<Rightarrow>
                (case (case ps_epoch s of None \<Rightarrow> None | Some ep \<Rightarrow> epoch_Validate ep c) of
                   Some x \<Rightarrow> Inl (provision_header ''X-State-Epoch'' (int_to_dec (epoch_Current (the (ps_epoch s))))
                                  (WriteErrorE 409 [] (ProvisionEpoch x)))
                 | None \<Rightarrow>
                     (case json_provision e (Body r) of
                        None \<Rightarrow> Inl (WriteError 400 ''invalid request body'' [])
                      | Some q \<Rightarrow>
                          (case Caller r of
                             None \<Rightarrow> Inl (WriteError 403 ''caller identity unavailable'' [])
                           | Some c \<Rightarrow>
                               if UserLogin c = [] then Inl (WriteError 403 ''caller identity unavailable'' [])
                               else if (case ps_access s of None \<Rightarrow> False
                                        | Some reg \<Rightarrow> HasAnyGrants reg \<and> \<not> Allow reg (UserLogin c) ''service.write'' (pr_ServiceName q))
                               then Inl (WriteError 403 ''insufficient privileges for this action'' [])
                               else Inr q)))))"

text \<open>A panic ends the request without an answer: the reply is \<open>None\<close>.\<close>

definition ProvisionHandler ::
  "provision_env \<Rightarrow> int \<Rightarrow> (world \<Rightarrow> world) \<Rightarrow> request \<Rightarrow> provision_state \<Rightarrow> world \<Rightarrow>
   provision_reply option \<times> provision_state \<times> world" where
  "ProvisionHandler e now other r s w =
     (case provision_admit e r s of
        Inl resp \<Rightarrow> (Some resp, s, w)
      | Inr q \<Rightarrow>
          (case Provision e q (pe_ServicesDir e) now other w of
             (Inl VerifyPanic, w1) \<Rightarrow> (None, s, w1)
           | (Inl x, w1) \<Rightarrow> (Some (WriteErrorE 400 [] (ProvisionFailed x)), s, w1)
           | (Inr meta, w1) \<Rightarrow>
               (case services_Reload (dec_svc e) (ps_services s) w1 of
                  (Some _, sv, w2) \<Rightarrow> (Some (WriteError 500 ''failed to reload services'' []), s\<lparr>ps_services := sv\<rparr>, w2)
                | (None, sv, w2) \<Rightarrow>
                    (let s1 = s\<lparr>ps_services := sv\<rparr> in
                     case ps_epoch s of
                       None \<Rightarrow> (Some (WriteJSON 200 meta), s1, w2)
                     | Some ep \<Rightarrow>
                         (case epoch_Increment ep w2 of
                            (Inl _, ep', w3) \<Rightarrow> (Some (WriteJSON 200 meta), s1\<lparr>ps_epoch := Some ep'\<rparr>, w3)
                          | (Inr v, ep', w3) \<Rightarrow>
                              (Some (provision_header ''X-State-Epoch'' (int_to_dec v) (WriteJSON 200 meta)),
                               s1\<lparr>ps_epoch := Some ep'\<rparr>, w3))))))"

section \<open>What is installed\<close>

definition artifact_verified :: "provision_env \<Rightarrow> provision_request \<Rightarrow> string \<Rightarrow> bool" where
  "artifact_verified e q data \<longleftrightarrow> hex_encode (sha256 e data) = pr_ArtifactHash q \<and>
     (case (b64_decode (pr_SenderPublicKey q), b64_decode (pr_Signature q)) of
        (Some key, Some sig) \<Rightarrow> length key = 32 \<and> ed_verify e key (sha256 e data) sig
      | _ \<Rightarrow> False)"

lemma ReadFile_cases:
  "os_ReadFile p w = (x, w') \<Longrightarrow> same_files w w' \<and> (\<forall>d. x = Inr d \<longrightarrow> map_option f_data (get_file w p) = Some d)"
  using quietD [OF quiet_ops(8)] ReadFile_result by fastforce

lemma VerifyArtifact_None:
  assumes "VerifyArtifact e q w = (None, w')"
  shows "same_files w w' \<and> (\<exists>d. map_option f_data (get_file w (pr_StagedPath q)) = Some d \<and> artifact_verified e q d)"
proof -
  obtain x w1 where rd: "os_ReadFile (pr_StagedPath q) w = (x, w1)" by fastforce
  with assms obtain d where x: "x = Inr d" by (cases x) (auto simp: VerifyArtifact_def)
  with assms rd have "w' = w1" "artifact_verified e q d"
    by (auto simp: VerifyArtifact_def Let_def artifact_verified_def split: if_splits option.splits)
  with ReadFile_cases [OF rd] x show ?thesis by blast
qed

lemma AtomicWrite_other: "AtomicWrite p d perm w = (x, w') \<Longrightarrow> clean q \<noteq> clean p \<Longrightarrow> get_file w' q = get_file w q"
  using atomic_write_cases wrote_get same_files_get by metis

lemma register_keeps:
  assumes "provision_register e q sdir serviceDir ap now w = (x, w')"
    and "clean p \<noteq> clean (join_path [serviceDir, ''meta.json''])" "clean p \<noteq> clean (FilePath sdir (pr_ServiceName q))"
  shows "get_file w' p = get_file w p \<and> (\<forall>meta. x = Inr meta \<longrightarrow> md_ArtifactPath meta = ap)"
proof (cases "enc_metadata e \<lparr>md_ServiceName = pr_ServiceName q, md_Runtime = pr_Runtime q,
    md_ArtifactHash = pr_ArtifactHash q, md_ArtifactPath = ap, md_ProvisionedAt = now\<rparr>")
  case None with assms(1) show ?thesis by (auto simp: provision_register_def Let_def)
next
  case meta: (Some mb)
  obtain a w1 where w1: "AtomicWrite (join_path [serviceDir, ''meta.json'']) mb 420 w = (a, w1)" by fastforce
  have k1: "get_file w1 p = get_file w p" using AtomicWrite_other [OF w1 assms(2)] .
  note run = assms(1) [unfolded provision_register_def Let_def meta option.case w1 prod.case]
  show ?thesis
  proof (cases "\<exists>u svc enc. a = Inr u \<and> svc_Validate (provision_service q serviceDir ap) = Inr svc \<and> enc_svc e svc = Some enc")
    case False
    with run have "w' = w1 \<and> (\<exists>y. x = Inl y)" by (auto split: sum.splits option.splits)
    with k1 show ?thesis by auto
  next
    case True
    then obtain u svc enc where ok: "a = Inr u" "svc_Validate (provision_service q serviceDir ap) = Inr svc" "enc_svc e svc = Some enc"
      by blast
    obtain b w2 where w2: "os_MkdirAll (dir_of (FilePath sdir (pr_ServiceName q))) w1 = (b, w2)" by fastforce
    obtain c w3 where w3: "AtomicWrite (FilePath sdir (pr_ServiceName q)) enc 420 w2 = (c, w3)" by fastforce
    have k2: "get_file w2 p = get_file w p" "get_file w3 p = get_file w2 p"
      using MkdirAll_files [OF w2] k1 AtomicWrite_other [OF w3 assms(3)] by simp_all
    have "w' = w2 \<and> (\<exists>y. x = Inl y) \<or> w' = w3 \<and> (\<forall>meta. x = Inr meta \<longrightarrow> md_ArtifactPath meta = ap)"
      using run ok w2 w3 by (cases b; cases c) auto
    with k2 show ?thesis by auto
  qed
qed

lemma child_path:
  assumes "is_abs d" "clean d = d" "d \<noteq> ''/''" "normal_comp n"
  shows "join_path [d, n] = d @ slash # n" "clean (d @ slash # n) = d @ slash # n" "is_abs (d @ slash # n)"
proof -
  show "join_path [d, n] = d @ slash # n" using join_path_child [OF assms(1,4)] assms(2,3) by simp
  show "clean (d @ slash # n) = d @ slash # n" using clean_child [OF assms(1,4)] assms(2,3) by simp
  show "is_abs (d @ slash # n)" using assms(1) by (auto simp: is_abs_def elim: has_prefixE) (simp add: has_prefix_def)
qed

lemma BaseDir_path: "is_abs BaseDir" "clean BaseDir = BaseDir" "BaseDir \<noteq> ''/''"
  by code_simp+

lemma fixed_comps: "normal_comp ''artifact''" "normal_comp ''meta.json''" "normal_comp ''service.pid''"
  by code_simp+

lemma Provision_InrD:
  assumes "Provision e q sdir now other w = (Inr meta, w')"
  shows "\<exists>w1 w2 d w3 w4. VerifyArtifact e q w = (None, w1) \<and> os_MkdirAll (join_path [BaseDir, pr_ServiceName q]) w1 = (Inr (), w2) \<and>
     os_ReadFile (pr_StagedPath q) (other w2) = (Inr d, w3) \<and>
     AtomicWrite (join_path [join_path [BaseDir, pr_ServiceName q], ''artifact'']) d 360 w3 = (Inr (), w4) \<and>
     provision_register e q sdir (join_path [BaseDir, pr_ServiceName q])
       (join_path [join_path [BaseDir, pr_ServiceName q], ''artifact'']) now w4 = (Inr meta, w')"
proof -
  let ?d = "join_path [BaseDir, pr_ServiceName q]" and ?a = "join_path [join_path [BaseDir, pr_ServiceName q], ''artifact'']"
  obtain x w1 where vf: "VerifyArtifact e q w = (x, w1)" by fastforce
  obtain y w2 where mk: "os_MkdirAll ?d w1 = (y, w2)" by fastforce
  obtain z w3 where rd: "os_ReadFile (pr_StagedPath q) (other w2) = (z, w3)" by fastforce
  note run = assms [unfolded Provision_def Let_def vf prod.case mk rd]
  from run have x: "x = None" by (cases x) (auto split: if_splits)
  from run x have y: "y = Inr ()" by (cases y) (auto split: if_splits)
  from run x y obtain d where z: "z = Inr d" by (cases z) (auto split: if_splits)
  obtain u w4 where aw: "AtomicWrite ?a d 360 w3 = (u, w4)" by fastforce
  from run x y z aw have "u = Inr () \<and> provision_register e q sdir ?d ?a now w4 = (Inr meta, w')"
    by (cases u) (auto split: if_splits)
  with vf mk rd aw x y z show ?thesis by blast
qed

lemma provision_installs:
  assumes "Provision e q sdir now other w = (Inr meta, w')" "normal_comp (pr_ServiceName q)" "is_abs sdir" "clean sdir \<noteq> ''/''"
  shows "\<exists>w2 v d. map_option f_data (get_file w (pr_StagedPath q)) = Some v \<and> artifact_verified e q v \<and>
     get_file w2 (pr_StagedPath q) = get_file w (pr_StagedPath q) \<and>
     map_option f_data (get_file (other w2) (pr_StagedPath q)) = Some d \<and>
     md_ArtifactPath meta = BaseDir @ slash # pr_ServiceName q @ ''/artifact'' \<and>
     map_option f_data (get_file w' (md_ArtifactPath meta)) = Some d"
proof -
  let ?n = "pr_ServiceName q"
  let ?d = "BaseDir @ slash # ?n"
  note dir = child_path [OF BaseDir_path assms(2)]
  have ne: "?d \<noteq> ''/''" by (simp add: BaseDir_def)
  note art = child_path [OF dir(3,2) ne fixed_comps(1)] and met = child_path [OF dir(3,2) ne fixed_comps(2)]
  have "slash \<notin> set ?n" using assms(2) by (simp add: normal_comp_def)
  then have svc_file: "FilePath sdir ?n = clean sdir @ slash # (?n @ ''.toml'')"
    unfolding FilePath_def using join_path_child [OF assms(3) normal_comp_suffix assms(4)] by simp
  have "clean (FilePath sdir ?n) = FilePath sdir ?n"
    unfolding FilePath_def using join_path_canonical assms(3) clean_id by blast
  then have file_clean: "clean (FilePath sdir ?n) = clean sdir @ slash # (?n @ ''.toml'')" using svc_file by simp
  have lasts: "last (?d @ ''/artifact'') = CHR ''t''" "last (?d @ ''/meta.json'') = CHR ''n''"
    "last (clean sdir @ slash # (?n @ ''.toml'')) = CHR ''l''" by simp_all
  have "?d @ ''/artifact'' \<noteq> clean sdir @ slash # (?n @ ''.toml'')"
  proof
    assume "?d @ ''/artifact'' = clean sdir @ slash # (?n @ ''.toml'')"
    then have "last (?d @ ''/artifact'') = last (clean sdir @ slash # (?n @ ''.toml''))" by (rule arg_cong)
    then show False unfolding lasts by simp
  qed
  moreover have "clean (?d @ ''/artifact'') = ?d @ ''/artifact''" "clean (join_path [?d, ''meta.json'']) = ?d @ ''/meta.json''"
    using art(2) met(1,2) by simp_all
  ultimately have diff: "clean (?d @ ''/artifact'') \<noteq> clean (join_path [?d, ''meta.json''])"
    "clean (?d @ ''/artifact'') \<noteq> clean (FilePath sdir ?n)"
    unfolding file_clean by simp_all
  obtain w1 w2 d w3 w4 where run: "VerifyArtifact e q w = (None, w1)" "os_MkdirAll (join_path [BaseDir, ?n]) w1 = (Inr (), w2)"
    "os_ReadFile (pr_StagedPath q) (other w2) = (Inr d, w3)"
    "AtomicWrite (join_path [join_path [BaseDir, ?n], ''artifact'']) d 360 w3 = (Inr (), w4)"
    "provision_register e q sdir (join_path [BaseDir, ?n]) (join_path [join_path [BaseDir, ?n], ''artifact'']) now w4 = (Inr meta, w')"
    using Provision_InrD [OF assms(1)] by blast
  note reg = run(5) [unfolded dir(1) art(1)] and aw = run(4) [unfolded dir(1) art(1)]
  obtain v where v: "map_option f_data (get_file w (pr_StagedPath q)) = Some v" "artifact_verified e q v"
    using VerifyArtifact_None [OF run(1)] by blast
  have "map_option f_data (get_file (other w2) (pr_StagedPath q)) = Some d" using ReadFile_cases [OF run(3)] by simp
  moreover have "get_file w2 (pr_StagedPath q) = get_file w (pr_StagedPath q)"
    using MkdirAll_files [OF run(2)] same_files_get VerifyArtifact_None [OF run(1)] by simp
  moreover have "get_file w4 (?d @ ''/artifact'') = Some \<lparr>f_data = d, f_perm = 360\<rparr>"
    using atomic_write_ok [OF aw] by (simp add: wrote_get)
  moreover have "get_file w' (?d @ ''/artifact'') = get_file w4 (?d @ ''/artifact'') \<and> md_ArtifactPath meta = ?d @ ''/artifact''"
    using register_keeps [OF reg, of "?d @ ''/artifact''"] diff by simp
  ultimately show ?thesis using v by auto
qed


text \<open>
  C19 (what is installed was verified). If nothing else touches the files, a provisioning that succeeds has installed, below
  the services' base directory under the service's name, exactly the staged bytes, and these bytes have
  the requested hash and a signature that the given key verifies; no fault at any call changes that.
\<close>

theorem provision_installs_verified:
  assumes "Provision e q sdir now id w = (Inr meta, w')" "normal_comp (pr_ServiceName q)" "is_abs sdir" "clean sdir \<noteq> ''/''"
  shows "\<exists>d. map_option f_data (get_file w (pr_StagedPath q)) = Some d \<and> artifact_verified e q d \<and>
     md_ArtifactPath meta = BaseDir @ slash # pr_ServiceName q @ ''/artifact'' \<and>
     map_option f_data (get_file w' (md_ArtifactPath meta)) = Some d"
  using provision_installs [OF assms] by auto

definition demo_provision :: provision_request where
  "demo_provision = \<lparr>pr_ArtifactHash = ''6162'', pr_Signature = b64_encode ''ab'', pr_SenderPublicKey = b64_encode (replicate 32 CHR ''k''),
     pr_ServiceName = ''s'', pr_Runtime = ''port-only'', pr_StagedPath = ''/in/a'', pr_ExpectedPorts = Some [80]\<rparr>"

definition demo_provision_env :: provision_env where
  "demo_provision_env = \<lparr>pe_ServicesDir = ''/etc/sv'', json_provision = (\<lambda>b. if b = ''q'' then Some demo_provision else None),
     sha256 = map of_char, ed_verify = (\<lambda>k sum sig. map of_char sig = sum),
     enc_metadata = (\<lambda>m. Some ''m''), enc_svc = (\<lambda>s. Some ''s''), dec_svc = (\<lambda>t. None)\<rparr>"

definition demo_staged :: world where
  "demo_staged = demo_world [(''/in/a'', text_file ''ab'')] [''/in'']"


theorem provision_installs_verified_witness:
  "\<exists>meta w'. Provision demo_provision_env demo_provision ''/etc/sv'' 5 id demo_staged = (Inr meta, w') \<and>
     map_option f_data (get_file w' (BaseDir @ slash # ''s'' @ ''/artifact'')) = Some ''ab''"
proof -
  obtain x w' where run: "Provision demo_provision_env demo_provision ''/etc/sv'' 5 id demo_staged = (x, w')" by fastforce
  have "case fst (Provision demo_provision_env demo_provision ''/etc/sv'' 5 id demo_staged) of Inl _ \<Rightarrow> False | Inr m \<Rightarrow> True" by code_simp
  with run obtain meta where x: "x = Inr meta" by (cases x) auto
  have "normal_comp (pr_ServiceName demo_provision)" "is_abs ''/etc/sv''" "clean ''/etc/sv'' \<noteq> ''/''" by code_simp+
  then obtain d where "map_option f_data (get_file demo_staged (pr_StagedPath demo_provision)) = Some d"
    "md_ArtifactPath meta = BaseDir @ slash # pr_ServiceName demo_provision @ ''/artifact''"
    "map_option f_data (get_file w' (md_ArtifactPath meta)) = Some d"
    using provision_installs_verified [OF run [unfolded x]] by blast
  moreover have "map_option f_data (get_file demo_staged (pr_StagedPath demo_provision)) = Some ''ab''" by code_simp
  moreover have "pr_ServiceName demo_provision = ''s''" by (simp add: demo_provision_def)
  ultimately show ?thesis using run x by (metis (no_types) option.inject)
qed

text \<open>
  The staged artifact is read twice: What is installed is read again after the check. If another process replaces the
  staged file in between, provisioning succeeds with the replacement, whatever its hash and signature; the
  metadata still names the requested hash.
\<close>

theorem provision_toctou:
  assumes "Provision e q sdir now (put_file (pr_StagedPath q) f) w = (Inr meta, w')"
    and "normal_comp (pr_ServiceName q)" "is_abs sdir" "clean sdir \<noteq> ''/''"
  shows "map_option f_data (get_file w' (BaseDir @ slash # pr_ServiceName q @ ''/artifact'')) = Some (f_data f)"
  using provision_installs [OF assms] by auto

theorem provision_toctou_witness:
  "\<exists>meta w'. Provision demo_provision_env demo_provision ''/etc/sv'' 5 (put_file ''/in/a'' (text_file ''zz'')) demo_staged = (Inr meta, w') \<and>
     map_option f_data (get_file w' (BaseDir @ slash # ''s'' @ ''/artifact'')) = Some ''zz'' \<and>
     \<not> artifact_verified demo_provision_env demo_provision ''zz''"
proof -
  let ?o = "put_file ''/in/a'' (text_file ''zz'')"
  obtain x w' where run: "Provision demo_provision_env demo_provision ''/etc/sv'' 5 ?o demo_staged = (x, w')" by fastforce
  have "case fst (Provision demo_provision_env demo_provision ''/etc/sv'' 5 ?o demo_staged) of Inl _ \<Rightarrow> False | Inr m \<Rightarrow> True" by code_simp
  with run obtain meta where x: "x = Inr meta" by (cases x) auto
  have path: "pr_StagedPath demo_provision = ''/in/a''" by (simp add: demo_provision_def)
  have "normal_comp (pr_ServiceName demo_provision)" "is_abs ''/etc/sv''" "clean ''/etc/sv'' \<noteq> ''/''"
    "\<not> artifact_verified demo_provision_env demo_provision ''zz''" by code_simp+
  then show ?thesis
    using provision_toctou [of demo_provision_env demo_provision "''/etc/sv''" 5 "text_file ''zz''" demo_staged meta w'] run x
    unfolding path by (simp add: demo_provision_def text_file_def)
qed

section \<open>Who may provision\<close>

lemma provision_admit_Inr:
  assumes "provision_admit e r s = Inr q"
  shows "Method r = ''POST'' \<and> json_provision e (Body r) = Some q \<and> (\<exists>c. Caller r = Some c \<and> UserLogin c \<noteq> [] \<and>
      (\<forall>reg. ps_access s = Some reg \<and> HasAnyGrants reg \<longrightarrow> Allow reg (UserLogin c) ''service.write'' (pr_ServiceName q))) \<and>
    (\<forall>ep. ps_epoch s = Some ep \<longrightarrow> parseCallerEpoch (Header r ''X-State-Epoch'') = Inr (ep_value ep))"
  using assms by (auto simp: provision_admit_def Validate_None_iff split: if_splits sum.splits option.splits)

lemma Provision_not_hash:
  assumes "Provision e q sdir now other w = (Inl VerifyPanic, w')"
  shows "same_files w w' \<and> (\<exists>key. b64_decode (pr_SenderPublicKey q) = Some key \<and> length key \<noteq> 32)"
  using assms
  by (auto simp: Provision_def VerifyArtifact_def provision_register_def Let_def split: if_splits option.splits sum.splits prod.splits
      dest!: ReadFile_cases)

text \<open>
  Who provisions: A request to the endpoint that changes a file or the handler's state is a \<open>POST\<close> with a
  decodable body and a caller identity, names the node's epoch where there is one, and its caller holds
  \<open>service.write\<close> on the named service, unless the node has no grants at all. A request ends in a
  panic, without an answer, only if the sender's key in its body has not 32 bytes, and then nothing has changed.
\<close>

theorem provision_guard:
  assumes "ProvisionHandler e now other r s w = (resp, s', w')"
  shows "(s' = s \<and> same_files w w' \<or> (\<exists>q c. Method r = ''POST'' \<and> json_provision e (Body r) = Some q \<and>
      Caller r = Some c \<and> UserLogin c \<noteq> [] \<and>
      (\<forall>reg. ps_access s = Some reg \<and> HasAnyGrants reg \<longrightarrow> Allow reg (UserLogin c) ''service.write'' (pr_ServiceName q)) \<and>
      (\<forall>ep. ps_epoch s = Some ep \<longrightarrow> parseCallerEpoch (Header r ''X-State-Epoch'') = Inr (ep_value ep)))) \<and>
    (resp = None \<longrightarrow> s' = s \<and> same_files w w' \<and> (\<exists>q key. json_provision e (Body r) = Some q \<and>
      b64_decode (pr_SenderPublicKey q) = Some key \<and> length key \<noteq> 32))"
proof (cases "provision_admit e r s")
  case Inl with assms show ?thesis by (auto simp: ProvisionHandler_def)
next
  case (Inr q)
  obtain x w1 where run: "Provision e q (pe_ServicesDir e) now other w = (x, w1)" by fastforce
  have "x = Inl VerifyPanic \<and> s' = s \<and> w' = w1" if "resp = None"
    using assms that Inr run
    by (auto simp: ProvisionHandler_def Let_def split: sum.splits provision_error.splits option.splits prod.splits)
  with Provision_not_hash [of e q "pe_ServicesDir e" now other w w1] provision_admit_Inr [OF Inr] run
  show ?thesis by blast
qed

definition demo_provision_request :: request where
  "demo_provision_request = \<lparr>Method = ''POST'', Path = ''/provision'', Header = (\<lambda>k. ''7''), Query = (\<lambda>_. []), Body = ''q'',
     Caller = Some \<lparr>Hostname = ''h'', UserLogin = ''bob''\<rparr>\<rparr>"

definition demo_provision_state :: provision_state where
  "demo_provision_state = \<lparr>ps_access = Some \<lparr>ac_dir = ''/a'', ac_grants = [\<lparr>Identity = ''bob'', Target = ''s'', Role = ''admin''\<rparr>]\<rparr>,
     ps_services = \<lparr>sr_dir = ''/etc/sv'', sr_services = []\<rparr>, ps_epoch = Some \<lparr>ep_path = ''/e'', ep_value = 7\<rparr>\<rparr>"

theorem provision_guard_witness:
  "\<exists>s' w'. ProvisionHandler (demo_provision_env\<lparr>json_provision := (\<lambda>b. Some (demo_provision\<lparr>pr_SenderPublicKey := b64_encode ''k''\<rparr>))\<rparr>)
       5 id demo_provision_request demo_provision_state demo_staged = (None, s', w') \<and> s' = demo_provision_state \<and> same_files demo_staged w'"
proof -
  let ?e = "demo_provision_env\<lparr>json_provision := (\<lambda>b. Some (demo_provision\<lparr>pr_SenderPublicKey := b64_encode ''k''\<rparr>))\<rparr>"
  obtain resp s' w' where run: "ProvisionHandler ?e 5 id demo_provision_request demo_provision_state demo_staged = (resp, s', w')"
    using prod_cases3 by blast
  have "case fst (ProvisionHandler ?e 5 id demo_provision_request demo_provision_state demo_staged) of None \<Rightarrow> True | Some _ \<Rightarrow> False"
    by code_simp
  with run have "resp = None" by (cases resp) simp_all
  with provision_guard [OF run] run show ?thesis by blast
qed

text \<open>The service name is not checked: with parent components the artifact goes below any directory.\<close>

lemma provision_escape:
  assumes "pr_ServiceName q = ''../../../../etc/cron.d''" "Provision e q sdir now other w = (Inr meta, w')"
  shows "md_ArtifactPath meta = ''/etc/cron.d/artifact''"
proof -
  have p: "join_path [join_path [BaseDir, ''../../../../etc/cron.d''], ''artifact''] = ''/etc/cron.d/artifact''" by code_simp
  obtain w1 w4 where "provision_register e q sdir (join_path [BaseDir, pr_ServiceName q])
       (join_path [join_path [BaseDir, pr_ServiceName q], ''artifact'']) now w4 = (Inr meta, w')"
    using Provision_InrD [OF assms(2)] by blast
  then show ?thesis
    unfolding assms(1) p by (auto simp: provision_register_def Let_def split: option.splits sum.splits prod.splits)
qed

end
