(* ===== verification/Mux.thy ===== *)
theory Mux
  imports AdminProps Provision
begin

text \<open>
  The router of the daemon: the patterns that \<open>cmdRun\<close> and the \<open>Register\<close> functions put into one \<open>http.ServeMux\<close>, and the matching
  of the standard library they rely on: a tree over path segments that prefers literals to wildcards and wildcards to subtrees, a
  redirect to the cleaned path, and one to the path with a slash where only that is a pattern. Paths are taken to have no escapes,
  and the method CONNECT, for which the library does not clean paths, is left out.
\<close>

section \<open>Patterns and matching\<close>

datatype seg = Lit string | Wild

type_synonym 'h route = "seg list \<times> bool \<times> 'h"

definition parse_seg :: "string \<Rightarrow> seg" where
  "parse_seg s = (if has_prefix s ''{'' \<and> has_suffix s ''}'' then Wild else Lit s)"

definition parse_pattern :: "string \<Rightarrow> seg list \<times> bool" where
  "parse_pattern p =
     (let ss = tl (split_on slash p)
      in if last ss = [] then (map parse_seg (butlast ss), True) else (map parse_seg ss, False))"

definition lit_step :: "string \<Rightarrow> 'h route list \<Rightarrow> 'h route list" where
  "lit_step s rs = [(ps, t, h). (p # ps, t, h) \<leftarrow> rs, p = Lit s]"

definition wild_step :: "'h route list \<Rightarrow> 'h route list" where
  "wild_step rs = [(ps, t, h). (p # ps, t, h) \<leftarrow> rs, p = Wild]"

definition leaf :: "bool \<Rightarrow> 'h route list \<Rightarrow> 'h route option" where
  "leaf t rs = List.find (\<lambda>(ps, t', h). ps = [] \<and> t' = t) rs"

definition or_else :: "'a option \<Rightarrow> 'a option \<Rightarrow> 'a option" where
  "or_else x y = (case x of Some a \<Rightarrow> Some a | None \<Rightarrow> y)"

text \<open>The handler and the number of segments of the pattern that matched, and whether it was a subtree.\<close>

fun tree_match :: "nat \<Rightarrow> 'h route list \<Rightarrow> string list \<Rightarrow> (nat \<times> bool \<times> 'h) option" where
  "tree_match n rs [] = map_option (\<lambda>(ps, t, h). (n, t, h)) (leaf False rs)"
| "tree_match n rs (s # ss) =
     or_else (tree_match (Suc n) (lit_step s rs) ss)
       (or_else (if s \<noteq> [] then tree_match (Suc n) (wild_step rs) ss else None)
          (map_option (\<lambda>(ps, t, h). (n, t, h)) (leaf True rs)))"

text \<open>The library's \<open>exactMatch\<close>: a subtree pattern matches exactly only its own root.\<close>

definition exact_match :: "(nat \<times> bool \<times> 'h) option \<Rightarrow> string list \<Rightarrow> bool" where
  "exact_match m ss =
     (case m of None \<Rightarrow> False | Some (n, t, h) \<Rightarrow> \<not> t \<or> (last ss = [] \<and> length ss = Suc n))"

definition mux_clean :: "string \<Rightarrow> string" where
  "mux_clean p =
     (if p = [] then ''/''
      else (let q = (if has_prefix p ''/'' then p else ''/'' @ p); c = clean q
            in if has_suffix q ''/'' \<and> c \<noteq> ''/'' then c @ ''/'' else c))"

datatype 'h routed = To 'h | Redirect string | NoRoute

definition path_segs :: "string \<Rightarrow> string list" where
  "path_segs p = tl (split_on slash p)"

definition mux_serve :: "'h route list \<Rightarrow> string \<Rightarrow> 'h routed" where
  "mux_serve rs path =
     (let p = mux_clean path; m = tree_match 0 rs (path_segs p)
      in if \<not> exact_match m (path_segs p) \<and> \<not> has_suffix p ''/'' \<and>
            exact_match (tree_match 0 rs (path_segs (p @ ''/''))) (path_segs (p @ ''/''))
         then Redirect (p @ ''/'')
         else if p \<noteq> path then Redirect p
         else (case m of None \<Rightarrow> NoRoute | Some (n, t, h) \<Rightarrow> To h))"

section \<open>The daemon's routes\<close>

datatype endpoint = HostEnd | IdentityEnd | ClaimEnd | ProvisionEnd | ServicesEnd | AdminEnd | ToolsEnd | HealthEnd | JobPollEnd
  | FilesConfigEnd | FilesEnd | InboxEnd | VarsScopesEnd | VarsConfigEnd | VarsEnd | DockerEnd | MetricsEnd string | SystemdEnd

definition route_of :: "string \<times> 'h \<Rightarrow> 'h route" where
  "route_of ph = (fst (parse_pattern (fst ph)), snd (parse_pattern (fst ph)), snd ph)"

definition main_patterns :: "(string \<times> endpoint) list" where
  "main_patterns =
     [(''/host'', HostEnd), (''/identity/pubkey'', IdentityEnd), (''/services/claim'', ClaimEnd),
      (''/services/provision'', ProvisionEnd), (''/services'', ServicesEnd), (''/admin/'', AdminEnd), (''/tools'', ToolsEnd)]"

definition exec_patterns :: "(string \<times> endpoint) list" where
  "exec_patterns = [(''/exec/jobs/{id}'', JobPollEnd)]"

definition files_patterns :: "(string \<times> endpoint) list" where
  "files_patterns = [(''/files/config'', FilesConfigEnd), (''/files'', FilesEnd), (''/inbox/'', InboxEnd)]"

definition vars_patterns :: "(string \<times> endpoint) list" where
  "vars_patterns = [(''/vars'', VarsScopesEnd), (''/vars/config'', VarsConfigEnd), (''/vars/'', VarsEnd)]"

definition docker_patterns :: "(string \<times> endpoint) list" where
  "docker_patterns = map (\<lambda>n. (''/integrations/docker/'' @ n, DockerEnd))
     [''available'', ''config'', ''containers'', ''containers/stream'', ''containers/'', ''images'', ''images/'', ''compose/projects'',
      ''compose/'', ''swarm/stream'', ''swarm/nodes'', ''swarm/services'', ''stream'']"

definition metrics_patterns :: "(string \<times> endpoint) list" where
  "metrics_patterns = map (\<lambda>n. (''/integrations/metrics/'' @ n, MetricsEnd n))
     [''available'', ''config'', ''host'', ''cpu'', ''memory'', ''disk'', ''network'', ''processes'', ''all'', ''cpu/stream'', ''memory/stream'',
      ''network/stream'', ''processes/stream'', ''all/stream'', ''ports/available'', ''ports'', ''ports/stream'']"

definition systemd_patterns :: "(string \<times> endpoint) list" where
  "systemd_patterns = map (\<lambda>n. (''/integrations/systemd/'' @ n, SystemdEnd)) [''available'', ''config'', ''units'', ''units/'', ''journal'']"

definition daemon_patterns :: "(string \<times> endpoint) list" where
  "daemon_patterns = main_patterns @ exec_patterns @ files_patterns @ vars_patterns @ docker_patterns @ metrics_patterns @
     systemd_patterns @ [(''/health'', HealthEnd)]"

definition daemon_routes :: "endpoint route list" where
  "daemon_routes = map route_of daemon_patterns"


section \<open>The best match\<close>

fun rt_matches :: "seg list \<Rightarrow> bool \<Rightarrow> string list \<Rightarrow> bool" where
  "rt_matches [] t ss = (if t then ss \<noteq> [] else ss = [])"
| "rt_matches (Lit l # ps) t (s # ss) = (l = s \<and> rt_matches ps t ss)"
| "rt_matches (Wild # ps) t (s # ss) = (s \<noteq> [] \<and> rt_matches ps t ss)"
| "rt_matches (p # ps) t [] = False"

text \<open>The more specific of two patterns that match a path has the lexicographically smaller rank.\<close>

fun rt_rank :: "seg list \<Rightarrow> bool \<Rightarrow> nat list" where
  "rt_rank [] t = (if t then [2] else [])"
| "rt_rank (Lit l # ps) t = 0 # rt_rank ps t"
| "rt_rank (Wild # ps) t = 1 # rt_rank ps t"

definition best_route :: "'h route list \<Rightarrow> string list \<Rightarrow> 'h option" where
  "best_route rs ss =
     (case sort_key (\<lambda>(ps, t, h). rt_rank ps t) (filter (\<lambda>(ps, t, h). rt_matches ps t ss) rs) of
        [] \<Rightarrow> None | (ps, t, h) # _ \<Rightarrow> Some h)"

lemma set_lit_step [simp]: "(ps, t, h) \<in> set (lit_step s rs) \<longleftrightarrow> (Lit s # ps, t, h) \<in> set rs"
  by (force simp: lit_step_def split: list.splits if_splits)

lemma set_wild_step [simp]: "(ps, t, h) \<in> set (wild_step rs) \<longleftrightarrow> (Wild # ps, t, h) \<in> set rs"
  by (force simp: wild_step_def split: list.splits if_splits)

lemma leaf_None: "leaf t rs = None \<Longrightarrow> ([], t, h) \<notin> set rs"
  by (auto simp: leaf_def find_None_iff)

lemma leaf_Some: "leaf t rs = Some (ps, t', h) \<Longrightarrow> ps = [] \<and> t' = t \<and> ([], t, h) \<in> set rs"
  by (auto simp: leaf_def find_Some_iff dest: nth_mem)

lemma rt_matches_Cons: "rt_matches ps t (s # ss) \<longleftrightarrow>
   (\<exists>qs. ps = Lit s # qs \<and> rt_matches qs t ss) \<or> (s \<noteq> [] \<and> (\<exists>qs. ps = Wild # qs \<and> rt_matches qs t ss)) \<or> (ps = [] \<and> t)"
  by (cases "(ps, t, s # ss)" rule: rt_matches.cases) auto

lemma or_else_Some: "or_else x y = Some a \<longleftrightarrow> x = Some a \<or> x = None \<and> y = Some a"
  by (auto simp: or_else_def split: option.splits)

lemma rt_matches_Nil: "rt_matches ps t [] \<longleftrightarrow> ps = [] \<and> \<not> t"
  by (cases "(ps, t, [] :: string list)" rule: rt_matches.cases) auto

lemma match_ConsE:
  assumes "rt_matches ps t (s # ss)"
  obtains (lit) qs where "ps = Lit s # qs" "rt_matches qs t ss"
    | (wild) qs where "ps = Wild # qs" "rt_matches qs t ss" "s \<noteq> []"
    | (tree) "ps = []" "t"
  using assms unfolding rt_matches_Cons by blast

lemma tree_match_None: "tree_match n rs ss = None \<Longrightarrow> (ps, t, h) \<in> set rs \<Longrightarrow> \<not> rt_matches ps t ss"
proof (induction ss arbitrary: n rs ps)
  case Nil
  then have "leaf False rs = None" by simp
  from leaf_None [OF this] Nil(2) show ?case by (cases t) (auto simp: rt_matches_Nil)
next
  case (Cons s ss)
  show ?case unfolding rt_matches_Cons
  proof (intro notI, elim disjE exE conjE)
    fix qs assume "ps = Lit s # qs" "rt_matches qs t ss"
    then show False using Cons.IH [of "Suc n" "lit_step s rs" qs] Cons.prems by (auto simp: or_else_def split: option.splits)
  next
    fix qs assume "s \<noteq> []" "ps = Wild # qs" "rt_matches qs t ss"
    then show False using Cons.IH [of "Suc n" "wild_step rs" qs] Cons.prems by (auto simp: or_else_def split: option.splits)
  next
    assume "ps = []" "t"
    then show False using leaf_None [of True rs h] Cons.prems by (auto simp: or_else_def split: option.splits if_splits)
  qed
qed

lemma rank_Cons_le: "rt_rank (Lit l # ps) t \<le> rt_rank (Lit l' # ps') t' \<longleftrightarrow> rt_rank ps t \<le> rt_rank ps' t'"
  "rt_rank (Wild # ps) t \<le> rt_rank (Wild # ps') t' \<longleftrightarrow> rt_rank ps t \<le> rt_rank ps' t'"
  "rt_rank (Lit l # ps) t \<le> rt_rank (Wild # ps') t'" "rt_rank (Lit l # ps) t \<le> rt_rank [] True" "rt_rank (Wild # ps) t \<le> rt_rank [] True"
  "rt_rank [] False \<le> rt_rank ps t"
  by simp_all

lemma tree_match_best:
  assumes "tree_match n rs ss = Some (m, t, h)"
  shows "\<exists>ps. (ps, t, h) \<in> set rs \<and> rt_matches ps t ss \<and> m = n + length ps \<and>
    (\<forall>ps' t' h'. (ps', t', h') \<in> set rs \<longrightarrow> rt_matches ps' t' ss \<longrightarrow> rt_rank ps t \<le> rt_rank ps' t')"
  using assms
proof (induction ss arbitrary: n rs)
  case Nil
  then obtain ps where "leaf False rs = Some (ps, t, h)" "m = n" by auto
  then show ?case using leaf_Some [of False rs ps t h] by (intro exI [of _ "[]"]) auto
next
  case (Cons s ss)
  consider (lit) "tree_match (Suc n) (lit_step s rs) ss = Some (m, t, h)"
    | (wild) "tree_match (Suc n) (lit_step s rs) ss = None" "s \<noteq> []" "tree_match (Suc n) (wild_step rs) ss = Some (m, t, h)"
    | (tree) ps where "tree_match (Suc n) (lit_step s rs) ss = None" "s \<noteq> [] \<longrightarrow> tree_match (Suc n) (wild_step rs) ss = None"
        "leaf True rs = Some (ps, t, h)" "m = n"
  proof -
    have "tree_match n rs (s # ss) = Some (m, t, h)" by (rule Cons.prems)
    then have "tree_match (Suc n) (lit_step s rs) ss = Some (m, t, h) \<or> tree_match (Suc n) (lit_step s rs) ss = None \<and>
        (s \<noteq> [] \<and> tree_match (Suc n) (wild_step rs) ss = Some (m, t, h) \<or>
         (s \<noteq> [] \<longrightarrow> tree_match (Suc n) (wild_step rs) ss = None) \<and> map_option (\<lambda>(ps, t, h). (n, t, h)) (leaf True rs) = Some (m, t, h))"
      unfolding tree_match.simps or_else_Some by (cases "s = []") simp_all
    moreover have "\<exists>ps. leaf True rs = Some (ps, t, h) \<and> m = n" if "map_option (\<lambda>(ps, t, h). (n, t, h)) (leaf True rs) = Some (m, t, h)"
      using that by (cases "leaf True rs") auto
    ultimately show ?thesis using that by blast
  qed
  then show ?case
  proof cases
    case lit
    from Cons.IH [OF this] obtain ps where ps: "(Lit s # ps, t, h) \<in> set rs" "rt_matches ps t ss" "m = Suc n + length ps"
      "\<forall>ps' t' h'. (Lit s # ps', t', h') \<in> set rs \<longrightarrow> rt_matches ps' t' ss \<longrightarrow> rt_rank ps t \<le> rt_rank ps' t'" by auto
    have "rt_rank (Lit s # ps) t \<le> rt_rank ps' t'" if "(ps', t', h') \<in> set rs" "rt_matches ps' t' (s # ss)" for ps' t' h'
      using that(2)
    proof (cases rule: match_ConsE)
      case tree then show ?thesis using rank_Cons_le(4) by simp
    qed (use that(1) ps(4) in auto)
    then show ?thesis using ps by (intro exI [of _ "Lit s # ps"]) auto
  next
    case wild
    from Cons.IH [OF this(3)] obtain ps where ps: "(Wild # ps, t, h) \<in> set rs" "rt_matches ps t ss" "m = Suc n + length ps"
      "\<forall>ps' t' h'. (Wild # ps', t', h') \<in> set rs \<longrightarrow> rt_matches ps' t' ss \<longrightarrow> rt_rank ps t \<le> rt_rank ps' t'" by auto
    have "rt_rank (Wild # ps) t \<le> rt_rank ps' t'" if "(ps', t', h') \<in> set rs" "rt_matches ps' t' (s # ss)" for ps' t' h'
      using that(2)
    proof (cases rule: match_ConsE)
      case (lit qs) then show ?thesis using tree_match_None [OF wild(1), of qs t' h'] that(1) by simp
    next
      case tree then show ?thesis using rank_Cons_le(5) by simp
    qed (use that(1) ps(4) in auto)
    then show ?thesis using ps wild(2) by (intro exI [of _ "Wild # ps"]) auto
  next
    case (tree ps0)
    have "rt_rank [] True \<le> rt_rank ps' t'" if "(ps', t', h') \<in> set rs" "rt_matches ps' t' (s # ss)" for ps' t' h'
      using that(2)
    proof (cases rule: match_ConsE)
      case (lit qs) then show ?thesis using tree_match_None [OF tree(1), of qs t' h'] that(1) by simp
    next
      case (wild qs) then show ?thesis using tree_match_None [of "Suc n" "wild_step rs" ss qs t' h'] tree(2) that(1) by simp
    qed simp
    then show ?thesis using leaf_Some [OF tree(3)] tree(4) by (intro exI [of _ "[]"]) auto
  qed
qed


lemma rank_inj: "rt_matches ps t ss \<Longrightarrow> rt_matches ps' t' ss \<Longrightarrow> rt_rank ps t = rt_rank ps' t' \<Longrightarrow> ps = ps' \<and> t = t'"
proof (induction ss arbitrary: ps ps')
  case Nil then show ?case by (simp add: rt_matches_Nil)
next
  case (Cons s ss)
  from Cons.prems(1) show ?case
  proof (cases rule: match_ConsE)
    case (lit qs)
    with Cons.prems(2,3) Cons.IH show ?thesis by (cases rule: match_ConsE [OF Cons.prems(2)]) auto
  next
    case (wild qs)
    with Cons.prems(2,3) Cons.IH show ?thesis by (cases rule: match_ConsE [OF Cons.prems(2)]) auto
  next
    case tree
    with Cons.prems(3) show ?thesis by (cases rule: match_ConsE [OF Cons.prems(2)]) auto
  qed
qed

lemma sort_key_hd_le: "sort_key f xs = y # ys \<Longrightarrow> y \<in> set xs \<and> (\<forall>x \<in> set xs. f y \<le> f x)"
proof -
  assume s: "sort_key f xs = y # ys"
  have "sorted (map f (sort_key f xs))" by simp
  moreover have "set xs = set (y # ys)" using s set_sort [of f xs] by simp
  ultimately show ?thesis using s by auto
qed


lemma daemon_distinct: "distinct (map (\<lambda>(ps, t, h). (ps, t)) daemon_routes)"
  by code_simp


section \<open>Who reaches the administration\<close>

lemma daemon_admin: "list_all (\<lambda>(ps, t, h). if h = AdminEnd then ps = [Lit ''admin''] \<and> t else ps \<noteq> [] \<and> hd ps \<noteq> Lit ''admin'' \<and> hd ps \<noteq> Wild) daemon_routes"
  "list_ex (\<lambda>r. r = ([Lit ''admin''], True, AdminEnd)) daemon_routes"
  by code_simp+

lemma admin_match:
  "(\<exists>n t. tree_match 0 daemon_routes ss = Some (n, t, AdminEnd)) \<longleftrightarrow> (\<exists>x xs. ss = ''admin'' # x # xs)" (is "?L \<longleftrightarrow> ?R")
proof
  assume ?L
  then obtain n t where "tree_match 0 daemon_routes ss = Some (n, t, AdminEnd)" by blast
  from tree_match_best [OF this] obtain ps where ps: "(ps, t, AdminEnd) \<in> set daemon_routes" "rt_matches ps t ss" by blast
  then have "ps = [Lit ''admin''] \<and> t" using daemon_admin(1) by (fastforce simp: list_all_iff)
  with ps(2) show ?R by (cases ss; cases "tl ss") auto
next
  assume ?R
  then obtain x xs where ss: "ss = ''admin'' # x # xs" by blast
  have adm: "([Lit ''admin''], True, AdminEnd) \<in> set daemon_routes" using daemon_admin(2) by (simp add: list_ex_iff)
  obtain n t h where m: "tree_match 0 daemon_routes ss = Some (n, t, h)"
    using tree_match_None [OF _ adm, of 0 ss] ss by (cases "tree_match 0 daemon_routes ss") auto
  from tree_match_best [OF m] obtain ps where ps: "(ps, t, h) \<in> set daemon_routes" "rt_matches ps t ss" by blast
  have "h = AdminEnd"
  proof (rule ccontr)
    assume "h \<noteq> AdminEnd"
    then have "ps \<noteq> [] \<and> hd ps \<noteq> Lit ''admin'' \<and> hd ps \<noteq> Wild" using daemon_admin(1) ps(1) by (fastforce simp: list_all_iff)
    with ps(2) show False unfolding ss by (cases rule: match_ConsE) auto
  qed
  with m show ?L by blast
qed


lemma mux_clean_slash: "has_prefix (mux_clean p) ''/''"
proof -
  have "has_prefix (clean q) ''/''" if "has_prefix q ''/''" for q
    using that clean_abs [of q] by (auto simp: is_abs_def has_prefix_def)
  then show ?thesis by (auto simp: mux_clean_def Let_def has_prefix_def)
qed

lemma split_path: "path_segs (slash # q) = split_on slash q"
  by (simp add: path_segs_def)

lemma admin_segs:
  assumes "has_prefix p ''/''"
  shows "(\<exists>x xs. path_segs p = ''admin'' # x # xs) \<longleftrightarrow> has_prefix p ''/admin/''"
proof -
  obtain q where p: "p = slash # q" using assms by (cases p) (auto simp: has_prefix_def)
  have "(\<exists>x xs. split_on slash q = ''admin'' # x # xs) \<longleftrightarrow> has_prefix q ''admin/''"
  proof
    assume "\<exists>x xs. split_on slash q = ''admin'' # x # xs"
    then obtain x xs where "split_on slash q = ''admin'' # x # xs" by blast
    then have "q = join_with slash (''admin'' # x # xs)" using join_split [of slash q] by simp
    then show "has_prefix q ''admin/''" by (simp add: has_prefix_def)
  next
    assume "has_prefix q ''admin/''"
    then obtain r where "q = ''admin'' @ slash # r" by (auto simp: has_prefix_def prefix_def)
    then have "split_on slash q = split_on slash ''admin'' @ split_on slash r" by (simp only: split_on_append)
    moreover have "split_on slash ''admin'' = [''admin'']" by code_simp
    ultimately show "\<exists>x xs. split_on slash q = ''admin'' # x # xs" by (cases "split_on slash r") auto
  qed
  then show ?thesis by (simp add: p split_path has_prefix_def)
qed

lemma admin_reached: "mux_serve daemon_routes p = To AdminEnd \<Longrightarrow> mux_clean p = p \<and> has_prefix p ''/admin/''"
proof -
  assume serve: "mux_serve daemon_routes p = To AdminEnd"
  then have p: "mux_clean p = p" by (auto simp: mux_serve_def Let_def split: if_splits)
  with serve obtain n t where "tree_match 0 daemon_routes (path_segs p) = Some (n, t, AdminEnd)"
    by (auto simp: mux_serve_def Let_def split: if_splits option.splits)
  then show ?thesis using p admin_match admin_segs mux_clean_slash [of p] by auto
qed

text \<open>Only its own pattern leads to the provisioning endpoint.\<close>

lemma provision_reached: "mux_serve daemon_routes p = To ProvisionEnd \<Longrightarrow> p = ''/services/provision''"
proof -
  assume serve: "mux_serve daemon_routes p = To ProvisionEnd"
  then have p: "mux_clean p = p" by (auto simp: mux_serve_def Let_def split: if_splits)
  with serve obtain n t where m: "tree_match 0 daemon_routes (path_segs p) = Some (n, t, ProvisionEnd)"
    by (auto simp: mux_serve_def Let_def split: if_splits option.splits)
  from tree_match_best [OF m] obtain ps where ps: "(ps, t, ProvisionEnd) \<in> set daemon_routes" "rt_matches ps t (path_segs p)" by blast
  have "list_all (\<lambda>(ps, t, h). h = ProvisionEnd \<longrightarrow> ps = [Lit ''services'', Lit ''provision''] \<and> \<not> t) daemon_routes" by code_simp
  with ps(1) have r: "ps = [Lit ''services'', Lit ''provision''] \<and> \<not> t" by (fastforce simp: list_all_iff)
  with ps(2) have "path_segs p = [''services'', ''provision'']"
    by (auto elim!: match_ConsE simp: rt_matches_Nil neq_Nil_conv) (cases "path_segs p"; cases "tl (path_segs p)"; auto simp: rt_matches_Nil)
  moreover obtain q where "p = slash # q" using mux_clean_slash [of p] p by (cases p) (auto simp: has_prefix_def)
  ultimately have "q = join_with slash [''services'', ''provision'']" using join_split [of slash q] by (simp add: split_path)
  then show ?thesis by (simp add: \<open>p = slash # q\<close>)
qed

text \<open>
  What a request does to the node's state: the authentication of the tailnet library comes before the router (\<open>auth\<close>: the caller it lets through),
  and of the handlers only those of the administration and of provisioning hold the node. They share its registries and its epoch.
\<close>

definition provision_view :: "node \<Rightarrow> provision_state" where
  "provision_view n = \<lparr>ps_access = nd_access n, ps_services = nd_services n, ps_epoch = nd_epoch n\<rparr>"

definition serve_node :: "(request \<Rightarrow> caller option) \<Rightarrow> admin_env \<Rightarrow> provision_env \<Rightarrow> int \<Rightarrow> (world \<Rightarrow> world) \<Rightarrow> request \<Rightarrow> node \<Rightarrow> world \<Rightarrow> node" where
  "serve_node auth e pe now other r n w =
     (case auth r of
        None \<Rightarrow> n
      | Some c \<Rightarrow>
          (case mux_serve daemon_routes (Path r) of
             To AdminEnd \<Rightarrow> fst (snd (AdminHandler e (r\<lparr>Caller := Some c\<rparr>) n w))
           | To ProvisionEnd \<Rightarrow>
               (case ProvisionHandler pe now other (r\<lparr>Caller := Some c\<rparr>) (provision_view n) w of
                  (_, s, _) \<Rightarrow> n\<lparr>nd_services := ps_services s, nd_epoch := ps_epoch s\<rparr>)
           | _ \<Rightarrow> n))"

lemma provision_admitted:
  "provision_admit pe r s = Inr q \<Longrightarrow> Method r = ''POST'' \<and> json_provision pe (Body r) = Some q \<and>
   (\<exists>c. Caller r = Some c \<and> UserLogin c \<noteq> [] \<and>
      (\<forall>reg. ps_access s = Some reg \<and> HasAnyGrants reg \<longrightarrow> Allow reg (UserLogin c) ''service.write'' (pr_ServiceName q)))"
  by (auto simp: provision_admit_def split: if_splits sum.splits option.splits)



end
