(* ===== verification/Identity.thy ===== *)
theory Identity
  imports AdminBootstrap ConfDir GoBase64
begin

text \<open>
  The node's artifact key pair (\<^verbatim>\<open>internal/identity/keys.go\<close>) and its endpoint
  (\<^verbatim>\<open>internal/api/identity.go\<close>). Keys are byte strings; the generator (\<^verbatim>\<open>ed25519.GenerateKey\<close>) is a
  parameter giving a public and a private key, or failing.
\<close>

definition IdentityDirPath :: string where "IdentityDirPath = ''/etc/tailkitd''"
definition ArtifactPrivateKeyPath :: string where "ArtifactPrivateKeyPath = ''/etc/tailkitd/artifact.key''"
definition ArtifactPublicKeyPath :: string where "ArtifactPublicKeyPath = ''/etc/tailkitd/artifact.pub''"

definition PublicKeySize :: nat where "PublicKeySize = 32"
definition PrivateKeySize :: nat where "PrivateKeySize = 64"

datatype identity_error = KeyIO io_error | KeyGenerate | KeyDecode | KeySize nat

definition encodeKey :: "string \<Rightarrow> string" where
  "encodeKey k = b64_encode k @ [CHR 0x0A]"

definition parseKey :: "nat \<Rightarrow> string \<Rightarrow> identity_error + string" where
  "parseKey sz data =
     (case b64_decode (trim_space data) of
        None \<Rightarrow> Inl KeyDecode
      | Some k \<Rightarrow> if length k \<noteq> sz then Inl (KeySize (length k)) else Inr k)"

definition EnsureArtifactKeys :: "(string \<times> string) option \<Rightarrow> world \<Rightarrow> identity_error option \<times> world" where
  "EnsureArtifactKeys gen w =
     (case os_MkdirAll IdentityDirPath w of
        (Inl e, w1) \<Rightarrow> (Some (KeyIO e), w1)
      | (Inr _, w1) \<Rightarrow>
          (case os_Stat ArtifactPrivateKeyPath w1 of
             (Inr _, w2) \<Rightarrow> (None, w2)
           | (Inl ENOENT, w2) \<Rightarrow>
               (case gen of
                  None \<Rightarrow> (Some KeyGenerate, w2)
                | Some (pub, priv) \<Rightarrow>
                    (case os_WriteFile ArtifactPrivateKeyPath (encodeKey priv) 384 w2 of
                       (Inl e, w3) \<Rightarrow> (Some (KeyIO e), w3)
                     | (Inr _, w3) \<Rightarrow>
                         (case os_WriteFile ArtifactPublicKeyPath (encodeKey pub) 420 w3 of
                            (Inl e, w4) \<Rightarrow> (Some (KeyIO e), w4)
                          | (Inr _, w4) \<Rightarrow> (None, w4))))
           | (Inl e, w2) \<Rightarrow> (Some (KeyIO e), w2)))"

definition load_key :: "string \<Rightarrow> nat \<Rightarrow> world \<Rightarrow> (identity_error + string) \<times> world" where
  "load_key p sz w =
     (case os_ReadFile p w of
        (Inl e, w1) \<Rightarrow> (Inl (KeyIO e), w1)
      | (Inr data, w1) \<Rightarrow> (parseKey sz data, w1))"

definition LoadPublicKey :: "world \<Rightarrow> (identity_error + string) \<times> world" where
  "LoadPublicKey = load_key ArtifactPublicKeyPath PublicKeySize"

definition LoadPrivateKey :: "world \<Rightarrow> (identity_error + string) \<times> world" where
  "LoadPrivateKey = load_key ArtifactPrivateKeyPath PrivateKeySize"

definition ReadPublicKeyString :: "string io" where
  "ReadPublicKeyString w =
     (case os_ReadFile ArtifactPublicKeyPath w of
        (Inl e, w1) \<Rightarrow> (Inl e, w1)
      | (Inr data, w1) \<Rightarrow> (Inr (trim_space data), w1))"

definition PathsFor :: "string \<Rightarrow> string \<times> string" where
  "PathsFor d = (join_path [d, ''artifact.key''], join_path [d, ''artifact.pub''])"

record identity_body =
  node_hostname :: string
  tailscale_identity :: string
  artifact_public_key :: string

definition IdentityHandler :: "string \<Rightarrow> request \<Rightarrow> world \<Rightarrow> (identity_body, io_error) response \<times> world" where
  "IdentityHandler self r w =
     (if Method r \<noteq> ''GET'' then (bad_method ''use GET'', w)
      else (case ReadPublicKeyString w of
              (Inl _, w1) \<Rightarrow> (WriteError 500 ''artifact public key not available'' [], w1)
            | (Inr k, w1) \<Rightarrow>
                (WriteJSON 200 \<lparr>node_hostname = self,
                   tailscale_identity = (case Caller r of None \<Rightarrow> [] | Some c \<Rightarrow> UserLogin c),
                   artifact_public_key = k\<rparr>, w1)))"

lemma parse_encode_key: "length k = sz \<Longrightarrow> parseKey sz (encodeKey k) = Inr k"
  by (simp add: parseKey_def encodeKey_def b64_trim_line b64_decode_encode)

lemma load_key_file:
  "fault_free w \<Longrightarrow> get_file w p = Some f \<Longrightarrow> fst (load_key p sz w) = parseKey sz (f_data f)"
  by (simp add: load_key_def ReadFile_ff_cases)

lemma key_paths [simp]:
  "clean ArtifactPublicKeyPath = ArtifactPublicKeyPath" "clean ArtifactPrivateKeyPath = ArtifactPrivateKeyPath"
  "ArtifactPublicKeyPath \<noteq> ArtifactPrivateKeyPath" "ArtifactPrivateKeyPath \<noteq> ArtifactPublicKeyPath"
  "ArtifactPrivateKeyPath \<notin> set (path_prefixes (clean IdentityDirPath))"
  by code_simp+

text \<open>
  The key pair: When the preparation of the keys succeeds on a node that has neither file, with no I/O error, the
  node loads exactly the generated keys, and the endpoint serves the public one in base64.
\<close>

theorem artifact_keys_loaded:
  assumes "EnsureArtifactKeys (Some (pub, priv)) w = (None, w')" "fault_free w"
    and "get_file w ArtifactPrivateKeyPath = None" "get_file w ArtifactPublicKeyPath = None"
    and "ArtifactPrivateKeyPath \<notin> set (w_dirs w)" "length pub = PublicKeySize" "length priv = PrivateKeySize"
  shows "fst (LoadPublicKey w') = Inr pub \<and> fst (LoadPrivateKey w') = Inr priv \<and>
     fst (ReadPublicKeyString w') = Inr (b64_encode pub)"
proof -
  obtain x w1 where mk: "os_MkdirAll IdentityDirPath w = (x, w1)" by fastforce
  have nodir: "ArtifactPrivateKeyPath \<notin> set (w_dirs w1)"
    using mk assms(2,5) by (auto simp: os_MkdirAll_def io_call_fault_free split: if_splits)
  have ff1: "fault_free w1" using ffD [OF ff_ops(10) mk assms(2)] .
  obtain y w2 where st: "os_Stat ArtifactPrivateKeyPath w1 = (y, w2)" by fastforce
  have ff2: "fault_free w2" using ffD [OF ff_ops(9) st ff1] .
  have none: "get_file w2 ArtifactPrivateKeyPath = None" "get_file w2 ArtifactPublicKeyPath = None"
    using MkdirAll_files [OF mk] same_files_get [OF os_Stat_same [OF st]] assms(3,4) by simp_all
  obtain z w3 where wr1: "os_WriteFile ArtifactPrivateKeyPath (encodeKey priv) 384 w2 = (z, w3)" by fastforce
  obtain u w4 where wr2: "os_WriteFile ArtifactPublicKeyPath (encodeKey pub) 420 w3 = (u, w4)" by fastforce
  have ff3: "fault_free w3" using ffD [OF ff_ops(11) wr1 ff2] .
  have ff4: "fault_free w4" using ffD [OF ff_ops(11) wr2 ff3] .
  have "y = Inl ENOENT"
    using st nodir MkdirAll_files [OF mk] assms(3) ff1 by (auto simp: os_Stat_def io_call_fault_free)
  then obtain a b where ok: "z = Inr a" "u = Inr b" "w' = w4"
    using assms(1) mk st wr1 wr2 by (cases x; cases z; cases u) (auto simp: EnsureArtifactKeys_def)
  have priv3: "get_file w3 ArtifactPrivateKeyPath = Some \<lparr>f_data = encodeKey priv, f_perm = 384\<rparr>"
    using WriteFile_Inr [OF wr1 [unfolded ok] none(1)] .
  have pub3: "get_file w3 ArtifactPublicKeyPath = None" using WriteFile_other [OF wr1] none(2) by simp
  have pub4: "get_file w4 ArtifactPublicKeyPath = Some \<lparr>f_data = encodeKey pub, f_perm = 420\<rparr>"
    using WriteFile_Inr [OF wr2 [unfolded ok] pub3] .
  have priv4: "get_file w4 ArtifactPrivateKeyPath = Some \<lparr>f_data = encodeKey priv, f_perm = 384\<rparr>"
    using WriteFile_other [OF wr2] priv3 by simp
  have "fst (ReadPublicKeyString w4) = Inr (b64_encode pub)"
    using ff4 pub4 by (simp add: ReadPublicKeyString_def ReadFile_ff_cases encodeKey_def b64_trim_line)
  then show ?thesis
    using load_key_file [OF ff4 pub4] load_key_file [OF ff4 priv4] assms(6,7) ok(3)
    by (simp add: LoadPublicKey_def LoadPrivateKey_def parse_encode_key)
qed

definition demo_pub :: string where "demo_pub = replicate 32 (CHR ''p'')"
definition demo_priv :: string where "demo_priv = replicate 64 (CHR ''s'')"

theorem artifact_keys_loaded_witness:
  "\<exists>w'. EnsureArtifactKeys (Some (demo_pub, demo_priv)) (demo_world [] []) = (None, w') \<and> fst (LoadPublicKey w') = Inr demo_pub"
proof -
  obtain x w' where run: "EnsureArtifactKeys (Some (demo_pub, demo_priv)) (demo_world [] []) = (x, w')" by fastforce
  have "fst (EnsureArtifactKeys (Some (demo_pub, demo_priv)) (demo_world [] [])) = None" by code_simp
  with run have x: "x = None" by simp
  have "length demo_pub = PublicKeySize" "length demo_priv = PrivateKeySize"
    by (simp_all add: demo_pub_def demo_priv_def PublicKeySize_def PrivateKeySize_def)
  then show ?thesis
    using artifact_keys_loaded [OF run [unfolded x]] run x by (simp add: get_file_def) (simp add: demo_world_def)
qed

text \<open>
  C38 (half a key pair). If writing the public key fails after the private one was written, every later start
  reports success, because the private key exists, and the public key, here left empty, never loads.
\<close>

definition demo_half :: world where
  "demo_half = (demo_world [] [])\<lparr>w_fault := (\<lambda>n. if n = 3 then Fails 0 else Fine)\<rparr>"

theorem artifact_keys_half:
  "let w1 = restarted (snd (EnsureArtifactKeys (Some (demo_pub, demo_priv)) demo_half))
   in fst (EnsureArtifactKeys (Some (demo_pub, demo_priv)) demo_half) = Some (KeyIO EIO) \<and>
      fst (EnsureArtifactKeys (Some (demo_pub, demo_priv)) w1) = None \<and>
      fst (LoadPublicKey (snd (EnsureArtifactKeys (Some (demo_pub, demo_priv)) w1))) = Inl (KeySize 0)"
  by code_simp

end
