(* ===== verification/Invite.thy ===== *)
theory Invite
  imports Identity
begin

text \<open>
  Invite tokens (\<^verbatim>\<open>internal/invite\<close>) and the claim endpoint (\<^verbatim>\<open>internal/api/invites.go\<close>). A token is
  the base64 form of a signed JSON envelope; the store remembers the claimed token ids in memory and in one
  file. JSON and Ed25519 are parameters. Times are nanoseconds; converting one to UTC does not change it.
\<close>

record payload =
  pl_Version :: int
  pl_TokenID :: string
  pl_Issuer :: string
  pl_Grantee :: string
  pl_TargetNode :: string
  pl_ServiceName :: string
  pl_ArtifactHash :: string
  pl_ExpiresAt :: int
  pl_SingleUse :: bool

record envelope =
  ev_Payload :: payload
  ev_Signature :: string

record token_codec =
  marshal_payload :: "payload \<Rightarrow> string option"
  marshal_envelope :: "envelope \<Rightarrow> string option"
  unmarshal_envelope :: "string \<Rightarrow> envelope option"
  ed_Sign :: "string \<Rightarrow> string \<Rightarrow> string"
  ed_Verify :: "string \<Rightarrow> string \<Rightarrow> string \<Rightarrow> bool"

datatype token_error = DecodeToken | ParseToken | CanonicalError | DecodeSignature | InvalidSignature

text \<open>\<open>rnd\<close> is what the random source gives for the token id.\<close>

definition NewPayload ::
  "8 word list option \<Rightarrow> string \<Rightarrow> string \<Rightarrow> string \<Rightarrow> string \<Rightarrow> string \<Rightarrow> int \<Rightarrow> bool \<Rightarrow> payload option" where
  "NewPayload rnd issuer grantee target svc hash expires single =
     (case rnd of
        None \<Rightarrow> None
      | Some bs \<Rightarrow> Some \<lparr>pl_Version = 1, pl_TokenID = hex_encode bs, pl_Issuer = issuer, pl_Grantee = grantee,
          pl_TargetNode = target, pl_ServiceName = svc, pl_ArtifactHash = hash, pl_ExpiresAt = expires,
          pl_SingleUse = single\<rparr>)"

definition Sign :: "token_codec \<Rightarrow> payload \<Rightarrow> string \<Rightarrow> string option" where
  "Sign c p priv =
     (case marshal_payload c p of
        None \<Rightarrow> None
      | Some body \<Rightarrow>
          (case marshal_envelope c \<lparr>ev_Payload = p, ev_Signature = b64_encode (ed_Sign c priv body)\<rparr> of
             None \<Rightarrow> None
           | Some raw \<Rightarrow> Some (b64_encode raw)))"

definition ParseAndVerify :: "token_codec \<Rightarrow> string \<Rightarrow> string \<Rightarrow> token_error + payload" where
  "ParseAndVerify c token pub =
     (case b64_decode token of
        None \<Rightarrow> Inl DecodeToken
      | Some raw \<Rightarrow>
          (case unmarshal_envelope c raw of
             None \<Rightarrow> Inl ParseToken
           | Some env \<Rightarrow>
               (case marshal_payload c (ev_Payload env) of
                  None \<Rightarrow> Inl CanonicalError
                | Some body \<Rightarrow>
                    (case b64_decode (ev_Signature env) of
                       None \<Rightarrow> Inl DecodeSignature
                     | Some sig \<Rightarrow>
                         if \<not> ed_Verify c pub body sig then Inl InvalidSignature
                         else Inr (ev_Payload env)))))"

section \<open>The store of claims\<close>

definition ClaimsStorePath :: string where "ClaimsStorePath = ''/var/lib/tailkitd/invites/claims.json''"

record claim_record =
  cl_TokenID :: string
  cl_ClaimedBy :: string
  cl_ClaimedAt :: int
  cl_ExpiresAt :: int

record claim_codec =
  marshal_claims :: "claim_record list \<Rightarrow> string option"
  unmarshal_claims :: "string \<Rightarrow> claim_record list option"

record claim_store =
  cs_path :: string
  cs_claims :: "(string \<times> claim_record) list"

datatype claim_error = StoreRead io_error | StoreParse | AlreadyClaimed | StoreMkdir io_error | StoreMarshal | StoreWrite io_error

definition store_load :: "claim_codec \<Rightarrow> claim_store \<Rightarrow> world \<Rightarrow> claim_error option \<times> claim_store \<times> world" where
  "store_load c s w =
     (case os_ReadFile (cs_path s) w of
        (Inl ENOENT, w1) \<Rightarrow> (None, s, w1)
      | (Inl e, w1) \<Rightarrow> (Some (StoreRead e), s, w1)
      | (Inr data, w1) \<Rightarrow>
          (case unmarshal_claims c data of
             None \<Rightarrow> (Some StoreParse, s, w1)
           | Some cls \<Rightarrow> (None, s\<lparr>cs_claims := fold (\<lambda>cl. AList.update (cl_TokenID cl) cl) cls (cs_claims s)\<rparr>, w1)))"

definition NewStore :: "claim_codec \<Rightarrow> string \<Rightarrow> world \<Rightarrow> (claim_error + claim_store) \<times> world" where
  "NewStore c p w =
     (case store_load c \<lparr>cs_path = p, cs_claims = []\<rparr> w of
        (Some e, _, w1) \<Rightarrow> (Inl e, w1)
      | (None, s, w1) \<Rightarrow> (Inr s, w1))"

definition IsClaimed :: "claim_store \<Rightarrow> string \<Rightarrow> bool" where
  "IsClaimed s tid \<longleftrightarrow> map_of (cs_claims s) tid \<noteq> None"

text \<open>The claims are written in an order of the map; readers only look them up by id.\<close>

definition persistLocked :: "claim_codec \<Rightarrow> claim_store \<Rightarrow> world \<Rightarrow> claim_error option \<times> world" where
  "persistLocked c s w =
     (case os_MkdirAll (dir_of (cs_path s)) w of
        (Inl e, w1) \<Rightarrow> (Some (StoreMkdir e), w1)
      | (Inr _, w1) \<Rightarrow>
          (case marshal_claims c (map snd (cs_claims s)) of
             None \<Rightarrow> (Some StoreMarshal, w1)
           | Some data \<Rightarrow>
               (case AtomicWrite (cs_path s) data 384 w1 of
                  (Inl e, w2) \<Rightarrow> (Some (StoreWrite e), w2)
                | (Inr _, w2) \<Rightarrow> (None, w2))))"

definition MarkClaimed ::
  "claim_codec \<Rightarrow> string \<Rightarrow> string \<Rightarrow> int \<Rightarrow> int \<Rightarrow> claim_store \<Rightarrow> world \<Rightarrow> claim_error option \<times> claim_store \<times> world" where
  "MarkClaimed c tid who expires now s w =
     (if IsClaimed s tid then (Some AlreadyClaimed, s, w)
      else (let s' = s\<lparr>cs_claims := AList.update tid
                 \<lparr>cl_TokenID = tid, cl_ClaimedBy = who, cl_ClaimedAt = now, cl_ExpiresAt = expires\<rparr> (cs_claims s)\<rparr>
            in case persistLocked c s' w of (e, w1) \<Rightarrow> (e, s', w1)))"

section \<open>The claim endpoint\<close>

record claim_env =
  ce_token :: token_codec
  ce_claims :: claim_codec
  json_claim :: "string \<Rightarrow> string option"

record claimed_body =
  cb_token_id :: string
  cb_service_name :: string
  cb_target_node :: string

datatype invite_error = VerifyFailed token_error | ClaimFailed claim_error

text \<open>The handler up to the claim: what it answers, or the payload and the caller's login it goes on with.\<close>

definition claim_admit ::
  "claim_env \<Rightarrow> request \<Rightarrow> int \<Rightarrow> world \<Rightarrow> ((claimed_body, invite_error) response + payload \<times> string) \<times> world" where
  "claim_admit e r now w =
     (if Method r \<noteq> ''POST'' then (Inl (bad_method ''use POST''), w)
      else (case json_claim e (Body r) of
              None \<Rightarrow> (Inl (WriteError 400 ''invalid request body'' []), w)
            | Some token \<Rightarrow>
                if token = [] then (Inl (WriteError 400 ''invalid request body'' []), w)
                else (case LoadPublicKey w of
                        (Inl _, w1) \<Rightarrow> (Inl (WriteError 500 ''artifact public key not available'' []), w1)
                      | (Inr pub, w1) \<Rightarrow>
                          (case ParseAndVerify (ce_token e) token pub of
                             Inl x \<Rightarrow> (Inl (WriteErrorE 401 ''invite verification failed: '' (VerifyFailed x)), w1)
                           | Inr p \<Rightarrow>
                               if now > pl_ExpiresAt p then (Inl (WriteError 410 ''invite expired'' []), w1)
                               else (case Caller r of
                                       None \<Rightarrow> (Inl (WriteError 403 ''caller identity unavailable'' []), w1)
                                     | Some cl \<Rightarrow>
                                         if UserLogin cl = [] then (Inl (WriteError 403 ''caller identity unavailable'' []), w1)
                                         else if pl_Grantee p \<noteq> UserLogin cl
                                         then (Inl (WriteError 403 ''token not issued to this identity'' []), w1)
                                         else (Inr (p, UserLogin cl), w1))))))"

definition InviteClaimHandler ::
  "claim_env \<Rightarrow> request \<Rightarrow> int \<Rightarrow> claim_store \<Rightarrow> world \<Rightarrow> (claimed_body, invite_error) response \<times> claim_store \<times> world" where
  "InviteClaimHandler e r now s w =
     (case claim_admit e r now w of
        (Inl resp, w1) \<Rightarrow> (resp, s, w1)
      | (Inr (p, login), w1) \<Rightarrow>
          if IsClaimed s (pl_TokenID p) then (WriteError 410 ''token already claimed'' [], s, w1)
          else (case MarkClaimed (ce_claims e) (pl_TokenID p) login (pl_ExpiresAt p) now s w1 of
                  (Some x, s', w2) \<Rightarrow> (WriteErrorE 409 [] (ClaimFailed x), s', w2)
                | (None, s', w2) \<Rightarrow>
                    (WriteJSON 200 \<lparr>cb_token_id = pl_TokenID p, cb_service_name = pl_ServiceName p,
                       cb_target_node = pl_TargetNode p\<rparr>, s', w2)))"

section \<open>Tokens\<close>

lemma verify_Inr:
  "ParseAndVerify c token pub = Inr p \<Longrightarrow>
   \<exists>body sig. marshal_payload c p = Some body \<and> ed_Verify c pub body sig"
  by (auto simp: ParseAndVerify_def split: option.splits if_splits)

lemma sign_verify:
  assumes "Sign c p priv = Some token" "marshal_payload c p = Some body" "ed_Verify c pub body (ed_Sign c priv body)"
    and "\<And>env raw. marshal_envelope c env = Some raw \<Longrightarrow> unmarshal_envelope c raw = Some env"
  shows "ParseAndVerify c token pub = Inr p"
proof -
  obtain raw where raw: "marshal_envelope c \<lparr>ev_Payload = p, ev_Signature = b64_encode (ed_Sign c priv body)\<rparr> = Some raw"
    "token = b64_encode raw"
    using assms(1,2) by (auto simp: Sign_def split: option.splits)
  show ?thesis
    using assms(2,3) assms(4) [OF raw(1)] raw(2) by (simp add: ParseAndVerify_def b64_decode_encode)
qed

text \<open>
  Tokens: If the JSON codec reads the envelope back and the key pair signs and verifies, a signed token parses and
  verifies to exactly its payload; and whatever token verifies, its payload is one that some signature
  verifies under the node's key.
\<close>

theorem token_roundtrip:
  assumes "Sign c p priv = Some token" "marshal_payload c p = Some body" "ed_Verify c pub body (ed_Sign c priv body)"
    and "\<And>env raw. marshal_envelope c env = Some raw \<Longrightarrow> unmarshal_envelope c raw = Some env"
  shows "ParseAndVerify c token pub = Inr p \<and>
     (\<forall>token' p'. ParseAndVerify c token' pub = Inr p' \<longrightarrow>
        (\<exists>body' sig. marshal_payload c p' = Some body' \<and> ed_Verify c pub body' sig))"
  using sign_verify [OF assms] verify_Inr by blast

definition demo_payload :: "string \<Rightarrow> payload" where
  "demo_payload tid = \<lparr>pl_Version = 1, pl_TokenID = tid, pl_Issuer = ''i'', pl_Grantee = ''bob'', pl_TargetNode = ''n'',
     pl_ServiceName = ''s'', pl_ArtifactHash = ''h'', pl_ExpiresAt = 100, pl_SingleUse = True\<rparr>"

text \<open>A toy codec for payloads that differ in their id only, and the signature \<open>key @ body\<close>.\<close>

definition demo_codec :: token_codec where
  "demo_codec = \<lparr>marshal_payload = (\<lambda>p. if p = demo_payload (pl_TokenID p) then Some (pl_TokenID p) else None),
     marshal_envelope = (\<lambda>e. if ev_Payload e = demo_payload (pl_TokenID (ev_Payload e)) \<and> length (pl_TokenID (ev_Payload e)) = 1
        then Some (pl_TokenID (ev_Payload e) @ ev_Signature e) else None),
     unmarshal_envelope = (\<lambda>s. if s = [] then None else Some \<lparr>ev_Payload = demo_payload (take 1 s), ev_Signature = drop 1 s\<rparr>),
     ed_Sign = (\<lambda>k b. k @ b), ed_Verify = (\<lambda>k b s. s = k @ b)\<rparr>"

lemma demo_codec_read:
  assumes "marshal_envelope demo_codec env = Some raw" shows "unmarshal_envelope demo_codec raw = Some env"
proof -
  from assms obtain t where "pl_TokenID (ev_Payload env) = [t]" "raw = [t] @ ev_Signature env" "ev_Payload env = demo_payload [t]"
    by (auto simp: demo_codec_def length_Suc_conv split: if_splits)
  then show ?thesis by (cases env) (simp add: demo_codec_def)
qed

lemma demo_codec_sign:
  "\<exists>token. Sign demo_codec (demo_payload ''a'') k = Some token \<and> token \<noteq> []"
  "marshal_payload demo_codec (demo_payload ''a'') = Some ''a''" "ed_Verify demo_codec k b (ed_Sign demo_codec k b)"
proof -
  have id: "pl_TokenID (demo_payload t) = t" for t by (simp add: demo_payload_def)
  show body: "marshal_payload demo_codec (demo_payload ''a'') = Some ''a''" by (simp add: demo_codec_def id)
  have "b64_encode (CHR ''a'' # x) \<noteq> []" for x by (cases x rule: b64_encode.cases) (auto simp: Let_def neq_Nil_conv)
  with body show "\<exists>token. Sign demo_codec (demo_payload ''a'') k = Some token \<and> token \<noteq> []"
    by (simp add: Sign_def) (simp add: demo_codec_def id)
qed (simp add: demo_codec_def)

theorem token_roundtrip_witness:
  "\<exists>token. Sign demo_codec (demo_payload ''a'') ''k'' = Some token \<and> ParseAndVerify demo_codec token ''k'' = Inr (demo_payload ''a'')"
  using demo_codec_sign(1) [of "''k''"] token_roundtrip [OF _ demo_codec_sign(2,3) demo_codec_read] by blast

section \<open>A token is claimed at most once\<close>

text \<open>
  The store as a system: claims in any order from any requests (each under the store's lock),
  failing ones included, restarts of the daemon at any point (also after a crash inside a claim), and
  anything else that leaves the claims file alone. The log holds the ids whose claim was reported a success.
\<close>

record claim_sys =
  sy_store :: claim_store
  sy_world :: world
  sy_log :: "string list"

inductive claim_step :: "claim_codec \<Rightarrow> claim_sys \<Rightarrow> claim_sys \<Rightarrow> bool" for c where
  claimed: "MarkClaimed c tid who expires now (sy_store s) (sy_world s) = (None, st', w') \<Longrightarrow>
     claim_step c s (s\<lparr>sy_store := st', sy_world := w', sy_log := sy_log s @ [tid]\<rparr>)"
| failed: "MarkClaimed c tid who expires now (sy_store s) (sy_world s) = (Some e, st', w') \<Longrightarrow>
     claim_step c s (s\<lparr>sy_store := st', sy_world := w'\<rparr>)"
| restart: "w_files w0 = w_files (sy_world s) \<Longrightarrow> NewStore c (cs_path (sy_store s)) w0 = (Inr st', w') \<Longrightarrow>
     claim_step c s (s\<lparr>sy_store := st', sy_world := w'\<rparr>)"
| elsewhere: "get_file w' (cs_path (sy_store s)) = get_file (sy_world s) (cs_path (sy_store s)) \<Longrightarrow>
     claim_step c s (s\<lparr>sy_world := w'\<rparr>)"

inductive_cases claim_stepE: "claim_step c s t"

inductive claim_reach :: "claim_codec \<Rightarrow> claim_sys \<Rightarrow> claim_sys \<Rightarrow> bool" for c where
  start: "claim_reach c s s"
| step: "claim_reach c s t \<Longrightarrow> claim_step c t u \<Longrightarrow> claim_reach c s u"

definition disk_ids :: "claim_codec \<Rightarrow> string \<Rightarrow> world \<Rightarrow> string set" where
  "disk_ids c p w = (case get_file w p of None \<Rightarrow> {}
     | Some f \<Rightarrow> (case unmarshal_claims c (f_data f) of None \<Rightarrow> {} | Some cls \<Rightarrow> cl_TokenID ` set cls))"

definition keyed :: "claim_store \<Rightarrow> bool" where
  "keyed s \<longleftrightarrow> (\<forall>(k, cl) \<in> set (cs_claims s). k = cl_TokenID cl)"

definition claimed_ids :: "claim_store \<Rightarrow> string set" where
  "claimed_ids s = fst ` set (cs_claims s)"

definition claim_inv :: "claim_codec \<Rightarrow> claim_sys \<Rightarrow> bool" where
  "claim_inv c s \<longleftrightarrow> distinct (sy_log s) \<and> keyed (sy_store s) \<and> set (sy_log s) \<subseteq> claimed_ids (sy_store s) \<and>
     set (sy_log s) \<subseteq> disk_ids c (cs_path (sy_store s)) (sy_world s)"

lemma IsClaimed_ids: "IsClaimed s t \<longleftrightarrow> t \<in> claimed_ids s"
  by (simp add: IsClaimed_def claimed_ids_def map_of_eq_None_iff)

lemma persist_cases:
  assumes "persistLocked c s w = (e, w')"
  shows "get_file w' (cs_path s) = get_file w (cs_path s) \<and> e \<noteq> None \<or>
     (\<exists>data perm. e = None \<and> marshal_claims c (map snd (cs_claims s)) = Some data \<and>
        get_file w' (cs_path s) = Some \<lparr>f_data = data, f_perm = perm\<rparr>)"
proof -
  obtain x w1 where mk: "os_MkdirAll (dir_of (cs_path s)) w = (x, w1)" by fastforce
  have same1: "get_file w1 q = get_file w q" for q using MkdirAll_files [OF mk] .
  show ?thesis
  proof (cases x)
    case (Inl a) with assms mk same1 show ?thesis by (auto simp: persistLocked_def)
  next
    case (Inr a)
    show ?thesis
    proof (cases "marshal_claims c (map snd (cs_claims s))")
      case None with Inr assms mk same1 show ?thesis by (auto simp: persistLocked_def)
    next
      case (Some data)
      obtain y w2 where aw: "AtomicWrite (cs_path s) data 384 w1 = (y, w2)" by fastforce
      show ?thesis
      proof (cases y)
        case (Inl b)
        then have "same_files w1 w2" using atomic_write_error aw by blast
        with Inl Inr Some assms mk aw same1 same_files_get show ?thesis by (auto simp: persistLocked_def)
      next
        case y: (Inr b)
        then have "wrote (cs_path s) \<lparr>f_data = data, f_perm = 384\<rparr> w1 w2" using atomic_write_ok aw by blast
        then have "get_file w2 (cs_path s) = Some \<lparr>f_data = data, f_perm = 384\<rparr>" by (simp add: wrote_get)
        with y Inr Some assms mk aw show ?thesis by (auto simp: persistLocked_def)
      qed
    qed
  qed
qed

lemma keyed_update: "keyed s \<Longrightarrow> cl_TokenID cl = t \<Longrightarrow> keyed (s\<lparr>cs_claims := AList.update t cl (cs_claims s)\<rparr>)"
proof -
  assume k: "keyed s" and t: "cl_TokenID cl = t"
  have "set (AList.update t cl xs) \<subseteq> insert (t, cl) (set xs)" for xs :: "(string \<times> claim_record) list"
    by (induction xs) auto
  with k t show ?thesis by (fastforce simp: keyed_def)
qed

lemma update_ids: "fst ` set (AList.update t cl xs) = insert t (fst ` set xs)"
  by (induction xs) auto

lemma Mark_store:
  assumes "MarkClaimed c tid who ex now s w = (e, s', w')"
  shows "cs_path s' = cs_path s \<and> (keyed s \<longrightarrow> keyed s') \<and> claimed_ids s \<subseteq> claimed_ids s' \<and>
     (e = None \<longrightarrow> tid \<notin> claimed_ids s \<and> tid \<in> claimed_ids s')"
proof (cases "IsClaimed s tid")
  case True with assms show ?thesis by (auto simp: MarkClaimed_def)
next
  case False
  let ?cl = "\<lparr>cl_TokenID = tid, cl_ClaimedBy = who, cl_ClaimedAt = now, cl_ExpiresAt = ex\<rparr>"
  have s': "s' = s\<lparr>cs_claims := AList.update tid ?cl (cs_claims s)\<rparr>"
    using assms False by (auto simp: MarkClaimed_def Let_def split: prod.splits)
  have "keyed s \<longrightarrow> keyed s'" unfolding s' using keyed_update [of s ?cl tid] by simp
  moreover have "claimed_ids s' = insert tid (claimed_ids s)" by (simp add: s' claimed_ids_def update_ids)
  moreover have "tid \<notin> claimed_ids s" using False by (simp add: IsClaimed_ids)
  ultimately show ?thesis by (auto simp: s')
qed

lemma Mark_disk:
  assumes "MarkClaimed c tid who ex now s w = (e, s', w')" "keyed s"
    and codec: "\<And>cls d. marshal_claims c cls = Some d \<Longrightarrow> unmarshal_claims c d = Some cls"
  shows "if e = None then disk_ids c (cs_path s) w' = claimed_ids s' else disk_ids c (cs_path s) w' = disk_ids c (cs_path s) w"
proof (cases "IsClaimed s tid")
  case True with assms(1) show ?thesis by (auto simp: MarkClaimed_def)
next
  case False
  have s': "keyed s'" "cs_path s' = cs_path s" using Mark_store [OF assms(1)] assms(2) by simp_all
  have p: "persistLocked c s' w = (e, w')" using assms(1) False by (auto simp: MarkClaimed_def Let_def split: prod.splits)
  from persist_cases [OF p] show ?thesis
  proof
    assume "get_file w' (cs_path s') = get_file w (cs_path s') \<and> e \<noteq> None"
    with s'(2) show ?thesis by (auto simp: disk_ids_def)
  next
    assume "\<exists>data perm. e = None \<and> marshal_claims c (map snd (cs_claims s')) = Some data \<and>
        get_file w' (cs_path s') = Some \<lparr>f_data = data, f_perm = perm\<rparr>"
    then obtain data perm where d: "e = None" "marshal_claims c (map snd (cs_claims s')) = Some data"
      "get_file w' (cs_path s') = Some \<lparr>f_data = data, f_perm = perm\<rparr>" by blast
    have "cl_TokenID ` snd ` set (cs_claims s') = fst ` set (cs_claims s')"
      using s'(1) by (force simp: keyed_def image_image)
    with d codec [OF d(2)] s'(2) show ?thesis by (simp add: disk_ids_def claimed_ids_def)
  qed
qed

lemma fold_load:
  "fst ` set (fold (\<lambda>cl. AList.update (cl_TokenID cl) cl) cls al) = cl_TokenID ` set cls \<union> fst ` set al"
  by (induction cls arbitrary: al) (auto simp: update_ids)

lemma fold_keyed:
  "keyed (s\<lparr>cs_claims := al\<rparr>) \<Longrightarrow> keyed (s\<lparr>cs_claims := fold (\<lambda>cl. AList.update (cl_TokenID cl) cl) cls al\<rparr>)"
  using keyed_update [of "s\<lparr>cs_claims := _\<rparr>"] by (induction cls arbitrary: al) auto

lemma NewStore_ids:
  assumes "NewStore c p w = (Inr s, w')"
  shows "cs_path s = p \<and> keyed s \<and> claimed_ids s = disk_ids c p w \<and> w_files w' = w_files w"
proof -
  obtain x w1 where rd: "os_ReadFile p w = (x, w1)" by fastforce
  have files: "w_files w1 = w_files w" using quietD [OF quiet_ops(8) rd] by (simp add: same_files_def)
  show ?thesis
  proof (cases x)
    case (Inl e)
    with assms rd have "e = ENOENT" "s = \<lparr>cs_path = p, cs_claims = []\<rparr>" "w' = w1"
      by (auto simp: NewStore_def store_load_def split: io_error.splits)
    moreover have "get_file w p = None" if "e = ENOENT"
      using rd Inl that by (auto simp: os_ReadFile_def io_call_def Let_def get_file_def split: if_splits fault.splits option.splits)
    ultimately show ?thesis using files by (simp add: keyed_def claimed_ids_def disk_ids_def)
  next
    case (Inr data)
    then obtain f where f: "get_file w p = Some f" "f_data f = data" 
      using rd by (auto simp: os_ReadFile_def io_call_def Let_def get_file_def split: if_splits fault.splits option.splits)
    from assms rd Inr obtain cls where cls: "unmarshal_claims c data = Some cls"
      "s = \<lparr>cs_path = p, cs_claims = fold (\<lambda>cl. AList.update (cl_TokenID cl) cl) cls []\<rparr>" "w' = w1"
      by (auto simp: NewStore_def store_load_def split: option.splits)
    have "keyed s" using fold_keyed [where s = "\<lparr>cs_path = p, cs_claims = []\<rparr>" and al = "[]" and cls = cls] cls(2) by (simp add: keyed_def)
    with cls f files show ?thesis by (simp add: claimed_ids_def disk_ids_def fold_load)
  qed
qed

lemma claim_step_inv:
  assumes "claim_step c s t" "claim_inv c s"
    and codec: "\<And>cls d. marshal_claims c cls = Some d \<Longrightarrow> unmarshal_claims c d = Some cls"
  shows "claim_inv c t"
  using assms(1)
proof (cases rule: claim_step.cases)
  case (claimed tid who expires now st' w')
  have k: "keyed (sy_store s)" using assms(2) by (simp add: claim_inv_def)
  from Mark_store [OF claimed(2)] Mark_disk [OF claimed(2) k codec] assms(2) claimed(1) show ?thesis
    by (auto simp: claim_inv_def)
next
  case (failed tid who expires now e st' w')
  have k: "keyed (sy_store s)" using assms(2) by (simp add: claim_inv_def)
  from Mark_store [OF failed(2)] Mark_disk [OF failed(2) k codec] assms(2) failed(1) show ?thesis
    by (auto simp: claim_inv_def)
next
  case (restart w0 st' w')
  have "disk_ids c (cs_path (sy_store s)) w' = disk_ids c (cs_path (sy_store s)) (sy_world s)"
    "disk_ids c (cs_path (sy_store s)) w0 = disk_ids c (cs_path (sy_store s)) (sy_world s)"
    using NewStore_ids [OF restart(3)] restart(2) by (simp_all add: disk_ids_def get_file_def)
  with NewStore_ids [OF restart(3)] assms(2) restart(1) show ?thesis by (simp add: claim_inv_def)
next
  case (elsewhere w')
  with assms(2) show ?thesis by (simp add: claim_inv_def disk_ids_def)
qed

lemma claim_reach_inv:
  assumes "claim_reach c s t" "claim_inv c s"
    and "\<And>cls d. marshal_claims c cls = Some d \<Longrightarrow> unmarshal_claims c d = Some cls"
  shows "claim_inv c t"
  using assms by (induction rule: claim_reach.induct) (auto intro: claim_step_inv)

text \<open>
  C18 (single use). If the JSON codec reads back the claims it writes, then from a fresh store on, no token id is ever reported claimed
  twice: whatever requests interleave, whatever I/O errors occur, and however often the daemon crashes and
  restarts; and every reported claim is on disk.
\<close>

theorem claim_at_most_once:
  assumes "claim_reach c s t" "sy_log s = []" "NewStore c p w = (Inr (sy_store s), sy_world s)"
    and "\<And>cls d. marshal_claims c cls = Some d \<Longrightarrow> unmarshal_claims c d = Some cls"
  shows "distinct (sy_log t) \<and> set (sy_log t) \<subseteq> disk_ids c (cs_path (sy_store t)) (sy_world t)"
proof -
  have "claim_inv c s" using assms(2) NewStore_ids [OF assms(3)] by (simp add: claim_inv_def)
  from claim_reach_inv [OF assms(1) this assms(4)] show ?thesis by (simp add: claim_inv_def)
qed

definition demo_claims :: claim_codec where
  "demo_claims = \<lparr>marshal_claims = (\<lambda>cls. if list_all (\<lambda>cl. length (cl_TokenID cl) = 1 \<and>
        cl = \<lparr>cl_TokenID = cl_TokenID cl, cl_ClaimedBy = ''bob'', cl_ClaimedAt = 1, cl_ExpiresAt = 100\<rparr>) cls
        then Some (concat (map cl_TokenID cls)) else None),
     unmarshal_claims = (\<lambda>s. Some (map (\<lambda>x. \<lparr>cl_TokenID = [x], cl_ClaimedBy = ''bob'', cl_ClaimedAt = 1, cl_ExpiresAt = 100\<rparr>) s))\<rparr>"

lemma demo_claims_codec: "marshal_claims demo_claims cls = Some d \<Longrightarrow> unmarshal_claims demo_claims d = Some cls"
proof (induction cls arbitrary: d)
  case (Cons cl cls)
  from Cons.prems obtain x where "cl_TokenID cl = [x]" "cl = \<lparr>cl_TokenID = [x], cl_ClaimedBy = ''bob'', cl_ClaimedAt = 1, cl_ExpiresAt = 100\<rparr>"
    by (auto simp: demo_claims_def length_Suc_conv split: if_splits)
  with Cons show ?case by (auto simp: demo_claims_def split: if_splits)
qed (auto simp: demo_claims_def split: if_splits)

theorem claim_at_most_once_witness:
  "\<exists>t. claim_reach demo_claims \<lparr>sy_store = \<lparr>cs_path = ''/i/c'', cs_claims = []\<rparr>, sy_world = (demo_world [] [''/i''])\<lparr>w_clock := 1\<rparr>, sy_log = []\<rparr> t \<and>
     sy_log t = [''a''] \<and> ''a'' \<in> disk_ids demo_claims ''/i/c'' (sy_world t)"
    (is "\<exists>t. claim_reach _ ?s t \<and> _")
proof -
  obtain x st1 w1 where m1: "MarkClaimed demo_claims ''a'' ''bob'' 100 1 (sy_store ?s) (sy_world ?s) = (x, st1, w1)"
    using prod_cases3 by blast
  have "fst (MarkClaimed demo_claims ''a'' ''bob'' 100 1 (sy_store ?s) (sy_world ?s)) = None" by code_simp
  with m1 have x: "x = None" by simp
  let ?t = "?s\<lparr>sy_store := st1, sy_world := w1, sy_log := sy_log ?s @ [''a'']\<rparr>"
  have path: "cs_path st1 = ''/i/c''" using Mark_store [OF m1] by simp
  have reach: "claim_reach demo_claims ?s ?t"
    using claim_reach.step [OF claim_reach.start claim_step.claimed [OF m1 [unfolded x]]] .
  have "os_ReadFile ''/i/c'' (demo_world [] [''/i'']) = (Inl ENOENT, (demo_world [] [''/i''])\<lparr>w_clock := 1\<rparr>)"
    by (simp add: ReadFile_ff_cases get_file_def) (simp add: demo_world_def, code_simp)
  then have new: "NewStore demo_claims ''/i/c'' (demo_world [] [''/i'']) = (Inr (sy_store ?s), sy_world ?s)"
    by (simp add: NewStore_def store_load_def)
  from claim_at_most_once [OF reach _ new demo_claims_codec] path
  have "set [''a''] \<subseteq> disk_ids demo_claims ''/i/c'' w1" by simp
  with reach show ?thesis by (intro exI [of _ ?t] conjI) simp_all
qed

text \<open>
  What a claim requires: The endpoint answers with success only to a \<open>POST\<close> whose token verifies under the node's own key,
  has not expired, names the caller as grantee and was not claimed, and then the claim is recorded on disk and in memory.
  A request refused for any other reason than a failed write leaves the store as it was.
\<close>

theorem claim_requires:
  assumes "InviteClaimHandler e r now s w = (resp, s', w')" "keyed s"
    and "\<And>cls d. marshal_claims (ce_claims e) cls = Some d \<Longrightarrow> unmarshal_claims (ce_claims e) d = Some cls"
  shows "(status resp = 200 \<longrightarrow> (\<exists>token pub p cl. Method r = ''POST'' \<and> json_claim e (Body r) = Some token \<and>
        fst (LoadPublicKey w) = Inr pub \<and> ParseAndVerify (ce_token e) token pub = Inr p \<and> now \<le> pl_ExpiresAt p \<and>
        Caller r = Some cl \<and> UserLogin cl \<noteq> [] \<and> UserLogin cl = pl_Grantee p \<and> \<not> IsClaimed s (pl_TokenID p) \<and>
        IsClaimed s' (pl_TokenID p) \<and> pl_TokenID p \<in> disk_ids (ce_claims e) (cs_path s) w')) \<and>
     (status resp \<noteq> 200 \<and> status resp \<noteq> 409 \<longrightarrow> s' = s)"
proof -
  obtain a w1 where ad: "claim_admit e r now w = (a, w1)" by fastforce
  have adm: "Method r = ''POST'' \<and> (\<exists>token pub cl. json_claim e (Body r) = Some token \<and> fst (LoadPublicKey w) = Inr pub \<and>
      ParseAndVerify (ce_token e) token pub = Inr p \<and> now \<le> pl_ExpiresAt p \<and> Caller r = Some cl \<and> UserLogin cl \<noteq> [] \<and>
      UserLogin cl = pl_Grantee p \<and> login = UserLogin cl)" if "a = Inr (p, login)" for p login
    using ad that by (auto simp: claim_admit_def split: if_splits option.splits prod.splits sum.splits)
  have refused: "400 \<le> status resp0 \<and> status resp0 \<noteq> 409" if "a = Inl resp0" for resp0
    using ad that by (auto simp: claim_admit_def split: if_splits option.splits prod.splits sum.splits)
  show ?thesis
  proof (cases a)
    case (Inl resp0)
    with assms(1) ad have "resp = resp0" "s' = s" by (simp_all add: InviteClaimHandler_def)
    with refused [OF Inl] show ?thesis by auto
  next
    case (Inr pl)
    obtain p login where pl: "pl = (p, login)" by fastforce
    show ?thesis
    proof (cases "IsClaimed s (pl_TokenID p)")
      case True
      with assms(1) ad Inr pl have "status resp = 410" "s' = s" by (auto simp: InviteClaimHandler_def)
      then show ?thesis by simp
    next
      case False
      obtain x s2 w2 where mk: "MarkClaimed (ce_claims e) (pl_TokenID p) login (pl_ExpiresAt p) now s w1 = (x, s2, w2)"
        using prod_cases3 by blast
      show ?thesis
      proof (cases x)
        case (Some y)
        with assms(1) ad Inr pl False mk have "status resp = 409" by (auto simp: InviteClaimHandler_def)
        then show ?thesis by simp
      next
        case None
        with assms(1) ad Inr pl False mk have run: "s' = s2" "w' = w2" by (auto simp: InviteClaimHandler_def)
        have "pl_TokenID p \<in> claimed_ids s2" using Mark_store [OF mk] None by simp
        moreover have "disk_ids (ce_claims e) (cs_path s) w2 = claimed_ids s2"
          using Mark_disk [OF mk assms(2,3)] None by simp
        ultimately have "IsClaimed s' (pl_TokenID p) \<and> pl_TokenID p \<in> disk_ids (ce_claims e) (cs_path s) w'"
          using run by (simp add: IsClaimed_ids)
        moreover have "s' = s" if "status resp \<noteq> 200"
          using that assms(1) ad Inr pl False mk None by (auto simp: InviteClaimHandler_def)
        ultimately show ?thesis using adm [OF Inr [unfolded pl]] False by blast
      qed
    qed
  qed
qed

definition demo_claim_env :: claim_env where
  "demo_claim_env = \<lparr>ce_token = demo_codec, ce_claims = demo_claims, json_claim = (\<lambda>s. Some s)\<rparr>"

definition demo_claim_request :: request where
  "demo_claim_request = \<lparr>Method = ''POST'', Path = ''/services/claim'', Header = (\<lambda>_. []), Query = (\<lambda>_. []),
     Body = the (Sign demo_codec (demo_payload ''a'') demo_pub), Caller = Some \<lparr>Hostname = ''h'', UserLogin = ''bob''\<rparr>\<rparr>"

definition demo_claim_disk :: world where
  "demo_claim_disk = demo_world [(ArtifactPublicKeyPath, text_file (encodeKey demo_pub))] [''/i'']"

theorem claim_requires_witness:
  "\<exists>resp s' w'. InviteClaimHandler demo_claim_env demo_claim_request 1 \<lparr>cs_path = ''/i/c'', cs_claims = []\<rparr> demo_claim_disk = (resp, s', w') \<and>
     status resp = 200 \<and> IsClaimed s' ''a''"
    (is "\<exists>resp s' w'. ?run = _ \<and> _")
proof -
  obtain resp s' w' where run: "?run = (resp, s', w')" using prod_cases3 by blast
  obtain token where token: "Sign demo_codec (demo_payload ''a'') demo_pub = Some token" "token \<noteq> []"
    using demo_codec_sign(1) by blast
  have ver: "ParseAndVerify demo_codec token demo_pub = Inr (demo_payload ''a'')"
    using sign_verify [OF token(1) demo_codec_sign(2,3) demo_codec_read] .
  let ?w1 = "demo_claim_disk\<lparr>w_clock := 1\<rparr>"
  have "length demo_pub = PublicKeySize" by (simp add: demo_pub_def PublicKeySize_def)
  then have pub: "LoadPublicKey demo_claim_disk = (Inr demo_pub, ?w1)"
    by (simp add: LoadPublicKey_def load_key_def ReadFile_ff_cases demo_claim_disk_def get_file_def text_file_def parse_encode_key)
       (simp add: demo_world_def text_file_def parse_encode_key)
  have admit: "claim_admit demo_claim_env demo_claim_request 1 demo_claim_disk = (Inr (demo_payload ''a'', ''bob''), ?w1)"
    using token ver pub by (simp add: claim_admit_def demo_claim_env_def demo_claim_request_def) (simp add: demo_payload_def)
  have "fst (MarkClaimed demo_claims ''a'' ''bob'' 100 1 \<lparr>cs_path = ''/i/c'', cs_claims = []\<rparr> ?w1) = None" by code_simp
  then obtain s2 w2 where mk: "MarkClaimed demo_claims ''a'' ''bob'' 100 1 \<lparr>cs_path = ''/i/c'', cs_claims = []\<rparr> ?w1 = (None, s2, w2)"
    by (metis prod.collapse)
  have fields: "pl_TokenID (demo_payload ''a'') = ''a''" "pl_ExpiresAt (demo_payload ''a'') = 100" "ce_claims demo_claim_env = demo_claims"
    "\<not> IsClaimed \<lparr>cs_path = ''/i/c'', cs_claims = []\<rparr> ''a''"
    by (simp_all add: demo_payload_def demo_claim_env_def IsClaimed_def)
  have "status (fst ?run) = 200"
    by (simp only: InviteClaimHandler_def admit prod.case sum.case fields mk if_False option.case fst_conv write_status)
  with run have st: "status resp = 200" by simp
  have "ce_claims demo_claim_env = demo_claims" "ce_token demo_claim_env = demo_codec" "json_claim demo_claim_env (Body demo_claim_request) = Some token"
    using token by (simp_all add: demo_claim_env_def demo_claim_request_def)
  with claim_requires [OF run] demo_claims_codec st pub ver have "IsClaimed s' (pl_TokenID (demo_payload ''a''))"
    by (auto simp: keyed_def)
  with run st show ?thesis by (simp add: demo_payload_def)
qed

end
