(* ===== verification/Tools.thy ===== *)
theory Tools
  imports Services
begin

text \<open>
  The tool registry (\<^verbatim>\<open>internal/tools/registry.go\<close>), which reads the tool files on every request, and the command index
  of \<^verbatim>\<open>internal/exec/registry.go\<close>, which keeps them in memory. The JSON decoder of a tool file is a parameter.
\<close>

datatype tools_error = ToolsCanceled | ToolsDir io_error

type_synonym tool_decoder = "string \<Rightarrow> tool option"

text \<open>\<open>readOne\<close> and \<open>readTool\<close> after the read.\<close>

definition parse_tool :: "tool_decoder \<Rightarrow> string \<Rightarrow> tool option" where
  "parse_tool json data =
     (case json data of None \<Rightarrow> None | Some t \<Rightarrow> if tl_Name t = [] then None else Some t)"

text \<open>A directory without a readable tool gives the nil slice, a missing one the empty slice.\<close>

definition tools_List :: "tool_decoder \<Rightarrow> string \<Rightarrow> bool \<Rightarrow> world \<Rightarrow> (tools_error + tool slice) \<times> world" where
  "tools_List json d cancelled w =
     (if cancelled then (Inl ToolsCanceled, w)
      else (case os_ReadDir d w of
              (Inl x, w1) \<Rightarrow> (if x = ENOENT then Inr (Some []) else Inl (ToolsDir x), w1)
            | (Inr es, w1) \<Rightarrow>
                (case load_entries (parse_tool json) ''.json'' d es w1 of
                   (ts, w2) \<Rightarrow> (Inr (if ts = [] then None else Some ts), w2))))"

definition splitVer :: "string \<Rightarrow> string list" where
  "splitVer v = split_on (CHR ''.'') v"

definition zeroPad :: "string \<Rightarrow> nat \<Rightarrow> string" where
  "zeroPad s width = replicate (width - length s) (CHR ''0'') @ s"

fun compare_parts :: "string list \<Rightarrow> string list \<Rightarrow> bool" where
  "compare_parts (h # hp) (w # wp) =
     (let h' = zeroPad h (length w); w' = zeroPad w (length h)
      in if h' > w' then True else if h' < w' then False else compare_parts hp wp)"
| "compare_parts _ _ = True"

definition pad_parts :: "string list \<Rightarrow> nat \<Rightarrow> string list" where
  "pad_parts ps n = ps @ replicate (n - length ps) ''0''"

definition versionAtLeast :: "string \<Rightarrow> string \<Rightarrow> bool" where
  "versionAtLeast have' want =
     (let hp = splitVer (trim_prefix have' ''v''); wp = splitVer (trim_prefix want ''v'')
      in compare_parts (pad_parts hp (length wp)) (pad_parts wp (length hp)))"

fun has_tool :: "string \<Rightarrow> string \<Rightarrow> tool list \<Rightarrow> bool" where
  "has_tool name minVersion [] = False"
| "has_tool name minVersion (t # ts) =
     (if tl_Name t \<noteq> name then has_tool name minVersion ts
      else if minVersion = [] then True
      else if versionAtLeast (tl_Version t) minVersion then True
      else has_tool name minVersion ts)"

definition HasTool :: "tool_decoder \<Rightarrow> string \<Rightarrow> bool \<Rightarrow> string \<Rightarrow> string \<Rightarrow> world \<Rightarrow> (tools_error + bool) \<times> world" where
  "HasTool json d cancelled name minVersion w =
     (case tools_List json d cancelled w of
        (Inl e, w1) \<Rightarrow> (Inl e, w1)
      | (Inr ts, w1) \<Rightarrow> (Inr (has_tool name minVersion (case ts of None \<Rightarrow> [] | Some l \<Rightarrow> l)), w1))"

text \<open>\<open>http.Error\<close>: a plain text answer.\<close>

definition http_Error :: "string \<Rightarrow> nat \<Rightarrow> ('b, 'e) response" where
  "http_Error msg st = \<lparr>status = st, rs_header = [(''Content-Type'', ''text/plain; charset=utf-8'')], rs_body = Raw (msg @ [CHR 0x0A])\<rparr>"

definition ToolsHandler :: "tool_decoder \<Rightarrow> string \<Rightarrow> bool \<Rightarrow> request \<Rightarrow> world \<Rightarrow> (tool slice, tools_error) response \<times> world" where
  "ToolsHandler json d cancelled r w =
     (if Method r \<noteq> ''GET'' then (http_Error ''method not allowed'' 405, w)
      else (case tools_List json d cancelled w of
              (Inl _, w1) \<Rightarrow>
                (http_Error ([CHR ''{'', CHR 0x22] @ ''error'' @ [CHR 0x22, CHR '':'', CHR 0x22] @ ''failed to list tools'' @ [CHR 0x22, CHR ''}'']) 500, w1)
            | (Inr ts, w1) \<Rightarrow> (WriteJSON 200 ts, w1)))"

section \<open>The command index\<close>

record exec_registry =
  xr_dir :: string
  xr_index :: "(string \<times> tool) list"

definition exec_index :: "tool list \<Rightarrow> (string \<times> tool) list" where
  "exec_index ts = fold (\<lambda>t m. AList.update (tl_Name t) t m) ts []"

definition exec_rebuild :: "tool_decoder \<Rightarrow> exec_registry \<Rightarrow> world \<Rightarrow> io_error option \<times> exec_registry \<times> world" where
  "exec_rebuild json r w =
     (case os_ReadDir (xr_dir r) w of
        (Inl x, w1) \<Rightarrow> (if x = ENOENT then (None, r\<lparr>xr_index := []\<rparr>, w1) else (Some x, r, w1))
      | (Inr es, w1) \<Rightarrow>
          (case load_entries (parse_tool json) ''.json'' (xr_dir r) es w1 of
             (ts, w2) \<Rightarrow> (None, r\<lparr>xr_index := exec_index ts\<rparr>, w2)))"

definition exec_NewRegistry :: "tool_decoder \<Rightarrow> string \<Rightarrow> bool \<Rightarrow> world \<Rightarrow> exec_registry option \<times> world" where
  "exec_NewRegistry json d watcher_ok w =
     (case exec_rebuild json \<lparr>xr_dir = d, xr_index = []\<rparr> w of
        (_, r, w1) \<Rightarrow> if watcher_ok then (Some r, snd (os_Stat d w1)) else (None, w1))"

definition Lookup :: "exec_registry \<Rightarrow> string \<Rightarrow> string \<Rightarrow> tool option" where
  "Lookup r toolName cmdName = map_of (xr_index r) (toolName @ ''/'' @ cmdName)"

text \<open>The watch loop's reaction to one event: only names of JSON files trigger a rebuild.\<close>

definition exec_event :: "tool_decoder \<Rightarrow> string \<Rightarrow> exec_registry \<Rightarrow> world \<Rightarrow> exec_registry \<times> world" where
  "exec_event json name r w =
     (if \<not> has_suffix name ''.json'' then (r, w)
      else (case exec_rebuild json r w of (_, r', w1) \<Rightarrow> (r', w1)))"

section \<open>Versions\<close>

text \<open>
  The reference: components are numbers, missing ones are 0, and the lists are compared from the left.
\<close>

definition version_numbers :: "string \<Rightarrow> nat list" where
  "version_numbers v = map dec_value (splitVer (trim_prefix v ''v''))"

fun numbers_at_least :: "nat list \<Rightarrow> nat list \<Rightarrow> bool" where
  "numbers_at_least (a # as) (b # bs) = (a > b \<or> a = b \<and> numbers_at_least as bs)"
| "numbers_at_least (a # as) [] = numbers_at_least as [] "
| "numbers_at_least [] (b # bs) = (b = 0 \<and> numbers_at_least [] bs)"
| "numbers_at_least [] [] = True"

definition numeric :: "string \<Rightarrow> bool" where
  "numeric v \<longleftrightarrow> list_all (list_all is_digit) (splitVer (trim_prefix v ''v''))"

lemma dec_value_Cons: "dec_value (c # s) = digit_val c * 10 ^ length s + dec_value s"
proof (induction s rule: rev_induct)
  case Nil then show ?case using dec_value_snoc [of "[]" c] by (simp add: dec_value_def)
next
  case (snoc x s)
  have "dec_value (c # s @ [x]) = 10 * dec_value (c # s) + digit_val x" using dec_value_snoc [of "c # s" x] by simp
  then show ?case using snoc dec_value_snoc [of s x] by simp
qed

lemma dec_value_bound: "list_all is_digit s \<Longrightarrow> dec_value s < 10 ^ length s"
proof (induction s)
  case Nil then show ?case by (simp add: dec_value_def)
next
  case (Cons c s)
  then have "digit_val c \<le> 9" by (auto simp: is_digit_def digit_val_def)
  then have "digit_val c * 10 ^ length s \<le> 9 * 10 ^ length s" by (rule mult_le_mono1)
  moreover have "dec_value s < 10 ^ length s" using Cons by simp
  ultimately have "digit_val c * 10 ^ length s + dec_value s < 10 * 10 ^ length s" by linarith
  then show ?case by (simp add: dec_value_Cons)
qed

lemma digit_less: "is_digit a \<Longrightarrow> is_digit b \<Longrightarrow> a < b \<longleftrightarrow> digit_val a < digit_val b"
  by (auto simp: is_digit_def digit_val_def less_char_def)

lemma digit_val_inj: "is_digit a \<Longrightarrow> is_digit b \<Longrightarrow> digit_val a = digit_val b \<longleftrightarrow> a = b"
  using digit_less by (metis linorder_neqE nat_less_le)

text \<open>On digit strings of one length the order of strings is the order of their values.\<close>

lemma digits_less:
  "length s = length t \<Longrightarrow> list_all is_digit s \<Longrightarrow> list_all is_digit t \<Longrightarrow> s < t \<longleftrightarrow> dec_value s < dec_value t"
proof (induction s t rule: list_induct2)
  case (Cons a s b t)
  note da = dec_value_bound [of s] and db = dec_value_bound [of t]
  have step: "x * 10 ^ length s + p < y * 10 ^ length s + q" if "x < y" "p < 10 ^ length s" for x y p q :: nat
  proof -
    have "x * 10 ^ length s + p < Suc x * 10 ^ length s" using that(2) by simp
    also have "\<dots> \<le> y * 10 ^ length s" using that(1) by (intro mult_le_mono1) simp
    finally show ?thesis by simp
  qed
  consider "digit_val a < digit_val b" | "digit_val b < digit_val a" | "a = b"
    using digit_val_inj [of a b] Cons.prems by fastforce
  then show ?case
  proof cases
    case 1
    then have "a < b" using digit_less Cons.prems by simp
    then show ?thesis using step [OF 1] da Cons by (simp add: dec_value_Cons)
  next
    case 2
    then have "b < a" using digit_less Cons.prems by simp
    then show ?thesis using step [OF 2, of "dec_value t" "dec_value s"] db Cons by (auto simp: dec_value_Cons)
  next
    case 3 with Cons show ?thesis by (simp add: dec_value_Cons)
  qed
qed simp

lemma dec_value_zeros: "dec_value (replicate n (CHR ''0'') @ s) = dec_value s"
  by (induction n) (simp_all add: dec_value_Cons digit_val_def)

lemma zeroPad_props:
  "dec_value (zeroPad s n) = dec_value s" "length (zeroPad s n) = max (length s) n"
  "list_all is_digit s \<Longrightarrow> list_all is_digit (zeroPad s n)"
  by (auto simp: zeroPad_def dec_value_zeros list_all_iff is_digit_def)

lemma compare_parts_numeric:
  "length hp = length wp \<Longrightarrow> list_all (list_all is_digit) hp \<Longrightarrow> list_all (list_all is_digit) wp \<Longrightarrow>
   compare_parts hp wp = numbers_at_least (map dec_value hp) (map dec_value wp)"
proof (induction hp wp rule: compare_parts.induct)
  case (1 h hp w wp)
  let ?h = "zeroPad h (length w)" and ?w = "zeroPad w (length h)"
  have "length ?h = length ?w" "list_all is_digit ?h" "list_all is_digit ?w" using 1 by (simp_all add: zeroPad_props)
  then have "?h < ?w \<longleftrightarrow> dec_value h < dec_value w" "?w < ?h \<longleftrightarrow> dec_value w < dec_value h"
    using digits_less [of ?h ?w] digits_less [of ?w ?h] by (simp_all add: zeroPad_props)
  with 1 show ?case by (auto simp: Let_def)
qed auto

lemma numbers_at_least_zeros: "numbers_at_least (replicate (length bs) 0) bs = numbers_at_least [] bs"
  by (induction bs) auto

lemma numbers_at_least_Nil: "numbers_at_least as [] \<and> numbers_at_least as (replicate (length as) 0)"
proof (induction as)
  case (Cons a as) then show ?case by (auto intro: gr0I)
qed simp

lemma numbers_at_least_pad:
  "numbers_at_least (as @ replicate (length bs - length as) 0) (bs @ replicate (length as - length bs) 0) = numbers_at_least as bs"
proof (induction as bs rule: numbers_at_least.induct)
  case (2 a as)
  then show ?case using numbers_at_least_Nil [of "a # as"] by auto
next
  case (3 b bs)
  then show ?case using numbers_at_least_zeros [of "b # bs"] by simp
qed auto

lemma pad_parts_props:
  "list_all (list_all is_digit) ps \<Longrightarrow> list_all (list_all is_digit) (pad_parts ps n)"
  "map dec_value (pad_parts ps n) = map dec_value ps @ replicate (n - length ps) 0"
  "length (pad_parts ps n) = max (length ps) n"
  by (auto simp: pad_parts_def list_all_iff is_digit_def dec_value_def digit_val_def)

text \<open>
  C29 (version order). On versions whose components are numbers, with or without a leading \<^verbatim>\<open>v\<close> and with any number of
  components and digits, the string comparison of the code is the numeric comparison from the left in
  which missing components are 0. (The comment in the code promises this only for equal numbers of digits.)
\<close>

theorem version_numeric:
  assumes "numeric have'" "numeric want"
  shows "versionAtLeast have' want = numbers_at_least (version_numbers have') (version_numbers want)"
proof -
  let ?h = "splitVer (trim_prefix have' ''v'')" and ?w = "splitVer (trim_prefix want ''v'')"
  have "versionAtLeast have' want = compare_parts (pad_parts ?h (length ?w)) (pad_parts ?w (length ?h))"
    by (simp add: versionAtLeast_def Let_def)
  also have "\<dots> = numbers_at_least (map dec_value (pad_parts ?h (length ?w))) (map dec_value (pad_parts ?w (length ?h)))"
    using assms by (intro compare_parts_numeric) (auto simp: pad_parts_props numeric_def)
  also have "\<dots> = numbers_at_least (map dec_value ?h) (map dec_value ?w)"
    using numbers_at_least_pad [of "map dec_value ?h" "map dec_value ?w"] by (simp add: pad_parts_props)
  finally show ?thesis by (simp add: version_numbers_def)
qed

theorem version_numeric_witness:
  "versionAtLeast ''v1.10'' ''1.9.3'' = numbers_at_least [1, 10] [1, 9, 3] \<and> versionAtLeast ''v1.10'' ''1.9.3''"
proof -
  have "numeric ''v1.10''" "numeric ''1.9.3''" "version_numbers ''v1.10'' = [1, 10]" "version_numbers ''1.9.3'' = [1, 9, 3]"
    by code_simp+
  with version_numeric [of "''v1.10''" "''1.9.3''"] show ?thesis by simp
qed

section \<open>What the registries give\<close>

lemma has_tool_iff:
  "has_tool name minVersion ts \<longleftrightarrow>
   list_ex (\<lambda>t. tl_Name t = name \<and> (minVersion = [] \<or> versionAtLeast (tl_Version t) minVersion)) ts"
  by (induction ts) auto

lemma tools_List_ff:
  assumes "fault_free w" "clean d \<in> set (w_dirs w)" "tools_List json d False w = (r, w')"
  shows "r = Inr (let ts = dir_docs (parse_tool json) ''.json'' d w in if ts = [] then None else Some ts)"
proof -
  obtain w2 where "load_entries (parse_tool json) ''.json'' d (dir_entries (clean d) w) (w\<lparr>w_clock := Suc (w_clock w)\<rparr>)
      = (dir_docs (parse_tool json) ''.json'' d w, w2)" using dir_docs_ff [OF assms(1)] by blast
  with assms show ?thesis by (auto simp: tools_List_def ReadDir_ff Let_def)
qed

lemma exec_index_keys: "map_of (exec_index ts) k = Some t \<Longrightarrow> t \<in> set ts \<and> tl_Name t = k"
proof (induction ts arbitrary: k t rule: rev_induct)
  case (snoc x ts)
  have "exec_index (ts @ [x]) = AList.update (tl_Name x) x (exec_index ts)" by (simp add: exec_index_def)
  then show ?case using snoc.IH [of k t] snoc.prems by (cases "k = tl_Name x") simp_all
qed (simp add: exec_index_def)

lemma exec_rebuild_index:
  assumes "exec_rebuild json r w = (x, r', w')"
  shows "xr_dir r' = xr_dir r \<and> (xr_index r' = xr_index r \<or> (\<exists>ts. xr_index r' = exec_index ts))"
proof -
  obtain y w1 where rd: "os_ReadDir (xr_dir r) w = (y, w1)" by fastforce
  obtain ts w2 where ld: "load_entries (parse_tool json) ''.json'' (xr_dir r) (case y of Inr es \<Rightarrow> es | Inl _ \<Rightarrow> []) w1 = (ts, w2)" by fastforce
  have "exec_index [] = []" by (simp add: exec_index_def)
  then have "r' = r \<or> r' = r\<lparr>xr_index := exec_index []\<rparr> \<or> r' = r\<lparr>xr_index := exec_index ts\<rparr>"
    using assms rd ld by (cases y) (simp_all add: exec_rebuild_def split: if_splits)
  then show ?thesis by fastforce
qed

text \<open>
  The command index is never found: Tools are indexed by their name, but looked up by tool and command joined with a
  slash: from the start of the registry on, after any events, every lookup that succeeds gives a tool whose name itself
  contains the slash, so no command of a tool with an ordinary name can be looked up.
\<close>

theorem exec_lookup_dead:
  assumes "exec_NewRegistry json d ok w = (Some r0, w0)"
    and "r = fst (fold (\<lambda>(name, change) (r, w). exec_event json name r (change w)) events (r0, w0))"
    and "Lookup r toolName cmdName = Some t"
  shows "tl_Name t = toolName @ ''/'' @ cmdName"
proof -
  have start: "\<exists>ts. xr_index r0 = exec_index ts"
    using assms(1) exec_rebuild_index [of json "\<lparr>xr_dir = d, xr_index = []\<rparr>" w]
    by (auto simp: exec_NewRegistry_def exec_index_def intro: exI [of _ "[]"] split: prod.splits if_splits)
  have "\<exists>ts. xr_index (fst (fold (\<lambda>(name, change) (r, w). exec_event json name r (change w)) events (r1, w1))) = exec_index ts"
    if "\<exists>ts. xr_index r1 = exec_index ts" for r1 w1
    using that
  proof (induction events arbitrary: r1 w1)
    case (Cons ev evs)
    obtain name change where ev: "ev = (name, change)" by (cases ev)
    obtain r2 w2 where step: "exec_event json name r1 (change w1) = (r2, w2)" by fastforce
    have "\<exists>ts. xr_index r2 = exec_index ts"
      using step Cons.prems exec_rebuild_index by (fastforce simp: exec_event_def split: if_splits prod.splits)
    with Cons.IH step ev show ?case by simp
  qed simp
  with start assms(2) obtain ts where "xr_index r = exec_index ts" by blast
  with assms(3) exec_index_keys show ?thesis by (fastforce simp: Lookup_def)
qed

definition demo_tool :: "string \<Rightarrow> tool" where
  "demo_tool n = \<lparr>tl_Name = n, tl_Version = ''1'', tl_TsnetHost = []\<rparr>"

theorem exec_lookup_dead_witness:
  "\<exists>r w'. exec_NewRegistry (\<lambda>d. Some (demo_tool d)) ''/t'' True (demo_world [(''/t/x.json'', text_file ''a/b'')] [''/t'']) = (Some r, w') \<and>
     Lookup r ''a'' ''b'' = Some (demo_tool ''a/b'') \<and> tl_Name (demo_tool ''a/b'') = ''a'' @ ''/'' @ ''b''"
proof -
  let ?run = "exec_NewRegistry (\<lambda>d. Some (demo_tool d)) ''/t'' True (demo_world [(''/t/x.json'', text_file ''a/b'')] [''/t''])"
  have "case fst ?run of None \<Rightarrow> False | Some r \<Rightarrow> Lookup r ''a'' ''b'' = Some (demo_tool ''a/b'')" by code_simp
  then obtain r w' where run: "?run = (Some r, w')" and "Lookup r ''a'' ''b'' = Some (demo_tool ''a/b'')"
    by (cases ?run; cases "fst ?run") auto
  with exec_lookup_dead [OF run, of r "[]"] show ?thesis by simp
qed

end
