(* ===== verification/HostApi.thy ===== *)
theory HostApi
  imports HostConfig AdminBootstrap
begin

text \<open>
  The host endpoint (\<^verbatim>\<open>internal/api/host.go\<close>) and the client that probes it on other nodes (\<open>IsPeerAdmin\<close> of \<^verbatim>\<open>internal/admin/bootstrap.go\<close>).
  The answer of the local Tailscale client is a parameter; its \<open>Self\<close> may be nil, which the handler dereferences.
\<close>

record peer_status =
  ps_HostName :: string
  ps_DNSName :: string
  ps_OS :: string
  ps_IPs :: "string list"

record tail_status =
  ts_Self :: "peer_status option"
  ts_Version :: string

record host_response =
  hr_host :: host_config
  hr_TSHostname :: string
  hr_TSDNSName :: string
  hr_TSIPs :: "string list"
  hr_OS :: string
  hr_Arch :: string
  hr_Online :: bool
  hr_IsAdmin :: bool

text \<open>What a handler leaves its caller: an answer, or a panic, on which the server closes the connection.\<close>

datatype 'r served = Answers 'r | Panics

type_synonym host_reply = "(host_response, unit) response"

definition host_body :: "host_config \<Rightarrow> bool \<Rightarrow> string \<Rightarrow> peer_status \<Rightarrow> host_response" where
  "host_body cfg adm ver self =
     \<lparr>hr_host = cfg, hr_TSHostname = ps_HostName self, hr_TSDNSName = ps_DNSName self, hr_TSIPs = ps_IPs self,
      hr_OS = (if ps_OS self = [] then ''unknown'' else ps_OS self),
      hr_Arch = (if ver = [] then ''unknown'' else ver), hr_Online = True, hr_IsAdmin = adm\<rparr>"

definition HostHandler :: "tail_status option \<Rightarrow> host_manager \<Rightarrow> admin_state option \<Rightarrow> request \<Rightarrow> host_reply served" where
  "HostHandler st hm adm r =
     (if Method r \<noteq> ''GET'' then Answers (bad_method ''use GET'')
      else (case st of
              None \<Rightarrow> Answers (WriteError 500 ''failed to get tailscale status'' [])
            | Some s \<Rightarrow>
                (case ts_Self s of
                   None \<Rightarrow> Panics
                 | Some self \<Rightarrow> Answers (WriteJSON 200
                     (host_body (hm_Get hm) (case adm of None \<Rightarrow> False | Some a \<Rightarrow> IsAdmin a) (ts_Version s) self)))))"

text \<open>
  The probe: a GET of \<^verbatim>\<open>/host\<close>. The status is not looked at; an error body is JSON without \<^verbatim>\<open>is_admin\<close>, so it decodes to false.
  \<open>get\<close> is the transport: \<open>None\<close> when the request fails.
\<close>

definition IsPeerAdmin :: "(string \<Rightarrow> host_reply served option) \<Rightarrow> string \<Rightarrow> bool option" where
  "IsPeerAdmin get h =
     (case get h of
        None \<Rightarrow> None
      | Some Panics \<Rightarrow> None
      | Some (Answers resp) \<Rightarrow>
          (case rs_body resp of
             Json b \<Rightarrow> Some (hr_IsAdmin b)
           | Err _ _ \<Rightarrow> Some False
           | ErrE _ _ \<Rightarrow> Some False
           | NoBody \<Rightarrow> None
           | Raw _ \<Rightarrow> None))"

definition probe_request :: request where
  "probe_request = \<lparr>Method = ''GET'', Path = ''/host'', Header = (\<lambda>_. []), Query = (\<lambda>_. []), Body = [], Caller = None\<rparr>"

text \<open>A probe that arrives says that the peer is the admin exactly if the peer is, and its own Tailscale client answered it.\<close>

lemma probe_answer:
  assumes "get h = Some (HostHandler st hm (Some a) probe_request)"
  shows "IsPeerAdmin get h = Some True \<longleftrightarrow> IsAdmin a \<and> (\<exists>s self. st = Some s \<and> ts_Self s = Some self)"
  using assms
  by (auto simp: IsPeerAdmin_def HostHandler_def probe_request_def host_body_def WriteJSON_def WriteError_def split: option.splits)

lemma probe_route [simp]: "Method probe_request = ''GET''" "Path probe_request = ''/host''"
  by (simp_all add: probe_request_def)

text \<open>An answered request gives the node's own host entry, with the addresses of its Tailscale node and no empty system name.\<close>

lemma host_answer:
  assumes "HostHandler (Some s) hm adm r = Answers resp" "ts_Self s = Some self"
  shows "status resp = (if Method r = ''GET'' then 200 else 405)"
    "rs_body resp = Json b \<Longrightarrow> hc_Name (hr_host b) = hc_Name (hm_self hm) \<and> hr_TSIPs b = ps_IPs self \<and> hr_OS b \<noteq> [] \<and> hr_Arch b \<noteq> []"
  using assms
  by (auto simp: HostHandler_def host_body_def WriteJSON_def hm_Get_def bad_method_def WriteError_def split: if_splits)

end
