(* ===== verification/Config.thy ===== *)
theory Config
  imports ConfDir
begin

text \<open>
  The integration configurations (\<^verbatim>\<open>internal/config/helpers.go, docker.go, systemd.go, metrics.go, files.go, vars.go\<close>). Every
  loader has the same steps: a missing file gives the disabled zero value, a present one is decoded (TOML
  is a parameter), completed with defaults, validated, and only then enabled. The contract of such a
  loader is the locale \<open>config_loader\<close>; each loader of the code is an interpretation of it.
\<close>

section \<open>Lists of permitted operations\<close>

datatype config_invalid = UnknownOp string string string | BadPriority string string | BadLines int | DiskPathRelative nat string
  | BadLimit int | LimitTooBig int | NoPathEntries | BadDir nat string string | DuplicateDir nat string
  | EmptyAllow nat | UseAsNeedsWrite nat string | NoScopes | EmptyProject nat | BadProject nat string | EmptyEnv nat
  | BadEnv nat string | DuplicateScope nat string

fun join_comma :: "string list \<Rightarrow> string" where
  "join_comma [] = []"
| "join_comma [k] = k"
| "join_comma (k # ks) = k @ '', '' @ join_comma ks"

text \<open>The closed sets are maps from the valid values to true; here the list of their keys.\<close>

definition joinKeys :: "string list \<Rightarrow> string" where
  "joinKeys m = join_comma (sort (remdups m))"

fun validateAllowList :: "string \<Rightarrow> string list \<Rightarrow> string list \<Rightarrow> config_invalid option" where
  "validateAllowList sec [] valid = None"
| "validateAllowList sec (op # allow) valid =
     (if op \<notin> set valid then Some (UnknownOp sec op (joinKeys valid)) else validateAllowList sec allow valid)"

lemma validateAllowList_None [simp]: "validateAllowList sec allow valid = None \<longleftrightarrow> set allow \<subseteq> set valid"
  by (induction allow) auto

definition orElse :: "'e option \<Rightarrow> 'e option \<Rightarrow> 'e option" where
  "orElse a b = (case a of None \<Rightarrow> b | Some e \<Rightarrow> Some e)"

lemma orElse_None [simp]: "orElse a b = None \<longleftrightarrow> a = None \<and> b = None"
  by (cases a) (simp_all add: orElse_def)

section \<open>The contract of a loader\<close>

datatype config_error = ConfigRead io_error | ConfigParse | ConfigInvalid config_invalid

text \<open>
  The steps the loaders share: \<open>check\<close> applies the defaults, validates and sets \<open>Enabled\<close>.
\<close>

definition load_config :: "(string \<Rightarrow> 'c option) \<Rightarrow> 'c \<Rightarrow> ('c \<Rightarrow> config_invalid + 'c) \<Rightarrow> string \<Rightarrow> world \<Rightarrow> (config_error + 'c) \<times> world" where
  "load_config toml zero check path w =
     (case os_ReadFile path w of
        (Inl x, w1) \<Rightarrow> (if x = ENOENT then Inr zero else Inl (ConfigRead x), w1)
      | (Inr data, w1) \<Rightarrow>
          (case toml data of
             None \<Rightarrow> (Inl ConfigParse, w1)
           | Some cfg \<Rightarrow> (case check cfg of Inl e \<Rightarrow> (Inl (ConfigInvalid e), w1) | Inr cfg' \<Rightarrow> (Inr cfg', w1))))"

locale config_loader =
  fixes load :: "world \<Rightarrow> (config_error + 'c) \<times> world"
    and path :: string
    and enabled :: "'c \<Rightarrow> bool"
    and valid :: "'c \<Rightarrow> bool"
    and zero :: 'c
  assumes load_quiet: "load w = (r, w') \<Longrightarrow> same_files w w'"
    and load_sound: "load w = (Inr c, w') \<Longrightarrow> c = zero \<or> enabled c \<and> valid c"
    and load_missing: "fault_free w \<Longrightarrow> get_file w path = None \<Longrightarrow> clean path \<notin> set (w_dirs w) \<Longrightarrow> fst (load w) = Inr zero"
    and load_present: "fault_free w \<Longrightarrow> get_file w path \<noteq> None \<Longrightarrow> load w = (Inr c, w') \<Longrightarrow> enabled c"
    and zero_disabled: "\<not> enabled zero"
begin

lemma enabled_valid: "load w = (Inr c, w') \<Longrightarrow> enabled c \<Longrightarrow> valid c"
  using load_sound zero_disabled by blast

lemma disabled_zero: "load w = (Inr c, w') \<Longrightarrow> \<not> enabled c \<Longrightarrow> c = zero"
  using load_sound by blast

text \<open>Without faults an integration is enabled exactly when its file is there.\<close>

lemma enabled_iff_present:
  assumes "fault_free w" "clean path \<notin> set (w_dirs w)" "load w = (Inr c, w')"
  shows "enabled c \<longleftrightarrow> get_file w path \<noteq> None"
  using load_missing [OF assms(1) _ assms(2)] load_present [OF assms(1) _ assms(3)] assms(3) zero_disabled by auto

end

lemma load_config_cases:
  assumes "load_config toml zero check path w = (r, w')"
  obtains (absent) "r = Inr zero" "same_files w w'" "\<And>f. fault_free w \<Longrightarrow> get_file w path \<noteq> Some f"
    | (failed) e where "r = Inl e" "same_files w w'" "fault_free w \<Longrightarrow> clean path \<notin> set (w_dirs w) \<Longrightarrow> get_file w path \<noteq> None"
    | (loaded) f cfg c where "r = Inr c" "same_files w w'" "get_file w path = Some f" "toml (f_data f) = Some cfg" "check cfg = Inr c"
proof -
  obtain x w1 where rd: "os_ReadFile path w = (x, w1)" by fastforce
  have same: "same_files w w1" using quietD [OF quiet_ops(8) rd] .
  show thesis
  proof (cases x)
    case (Inl e)
    have w': "w' = w1" "r = (if e = ENOENT then Inr zero else Inl (ConfigRead e))"
      using assms rd Inl by (auto simp: load_config_def)
    have "get_file w path \<noteq> Some f" if "fault_free w" for f
      using rd Inl that by (auto simp: os_ReadFile_def io_call_fault_free)
    moreover have "get_file w path \<noteq> None" if "fault_free w" "clean path \<notin> set (w_dirs w)" "e \<noteq> ENOENT"
      using rd Inl that by (auto simp: os_ReadFile_def io_call_fault_free split: option.splits)
    ultimately show thesis using absent failed same w' by (cases "e = ENOENT") auto
  next
    case (Inr data)
    then obtain f where f: "get_file w path = Some f" "f_data f = data"
      using ReadFile_result [OF rd] by auto
    show thesis
    proof (cases "toml (f_data f)")
      case None with assms rd Inr f same failed show thesis by (auto simp: load_config_def)
    next
      case (Some cfg)
      with assms rd Inr f same failed loaded [OF _ _ f(1) Some] show thesis
        by (cases "check cfg") (auto simp: load_config_def)
    qed
  qed
qed

lemma load_config_loader:
  assumes "\<And>c c'. check c = Inr c' \<Longrightarrow> enabled c' \<and> valid c'" "\<not> enabled zero"
  shows "config_loader (load_config toml zero check path) path enabled valid zero"
proof
  show "same_files w w'" if "load_config toml zero check path w = (r, w')" for w r w'
    using that by (cases rule: load_config_cases) auto
  show "c = zero \<or> enabled c \<and> valid c" if "load_config toml zero check path w = (Inr c, w')" for w c w'
    using that assms(1) by (cases rule: load_config_cases) auto
  show "fst (load_config toml zero check path w) = Inr zero"
    if "fault_free w" "get_file w path = None" "clean path \<notin> set (w_dirs w)" for w
    using that by (simp add: load_config_def os_ReadFile_def io_call_fault_free)
  show "enabled c" if "fault_free w" "get_file w path \<noteq> None" "load_config toml zero check path w = (Inr c, w')" for w c w'
    using that(3) assms(1) that(1,2) by (cases rule: load_config_cases) auto
qed (rule assms(2))

section \<open>docker.toml\<close>

record docker_section =
  ds_Enabled :: bool
  ds_Allow :: "string list"

record docker_config =
  dk_Enabled :: bool
  dk_Containers :: docker_section
  dk_Images :: docker_section
  dk_Compose :: docker_section
  dk_Swarm :: docker_section

definition validContainerOps :: "string list" where
  "validContainerOps = [''list'', ''inspect'', ''logs'', ''stats'', ''start'', ''stop'', ''restart'', ''remove'']"

definition validImageOps :: "string list" where
  "validImageOps = [''list'', ''pull'']"

definition validComposeOps :: "string list" where
  "validComposeOps = [''list'', ''up'', ''down'', ''pull'', ''restart'', ''build'']"

definition validSwarmOps :: "string list" where
  "validSwarmOps = [''read'', ''write'']"

definition Permits :: "docker_section \<Rightarrow> string \<Rightarrow> bool" where
  "Permits s op \<longleftrightarrow> ds_Enabled s \<and> list_ex (\<lambda>a. a = op) (ds_Allow s)"

definition docker_zero :: docker_config where
  "docker_zero = (let z = \<lparr>ds_Enabled = False, ds_Allow = []\<rparr> in
     \<lparr>dk_Enabled = False, dk_Containers = z, dk_Images = z, dk_Compose = z, dk_Swarm = z\<rparr>)"

definition validateDockerConfig :: "docker_config \<Rightarrow> config_invalid option" where
  "validateDockerConfig cfg =
     orElse (validateAllowList ''containers'' (ds_Allow (dk_Containers cfg)) validContainerOps)
    (orElse (validateAllowList ''images'' (ds_Allow (dk_Images cfg)) validImageOps)
    (orElse (validateAllowList ''compose'' (ds_Allow (dk_Compose cfg)) validComposeOps)
            (validateAllowList ''swarm'' (ds_Allow (dk_Swarm cfg)) validSwarmOps)))"

definition loadDockerConfigFrom :: "(string \<Rightarrow> docker_config option) \<Rightarrow> string \<Rightarrow> world \<Rightarrow> (config_error + docker_config) \<times> world" where
  "loadDockerConfigFrom toml =
     load_config toml docker_zero
       (\<lambda>cfg. case validateDockerConfig cfg of Some e \<Rightarrow> Inl e | None \<Rightarrow> Inr (cfg\<lparr>dk_Enabled := True\<rparr>))"

definition docker_valid :: "docker_config \<Rightarrow> bool" where
  "docker_valid cfg \<longleftrightarrow> set (ds_Allow (dk_Containers cfg)) \<subseteq> set validContainerOps \<and> set (ds_Allow (dk_Images cfg)) \<subseteq> {''list'', ''pull''} \<and>
     set (ds_Allow (dk_Compose cfg)) \<subseteq> set validComposeOps \<and> set (ds_Allow (dk_Swarm cfg)) \<subseteq> {''read'', ''write''}"

interpretation docker_loader: config_loader "loadDockerConfigFrom toml path" path dk_Enabled docker_valid docker_zero
  for toml path
  unfolding loadDockerConfigFrom_def
  by (rule load_config_loader)
     (auto simp: validateDockerConfig_def docker_valid_def docker_zero_def validImageOps_def validSwarmOps_def Let_def split: option.splits)

section \<open>systemd.toml\<close>

record unit_config =
  uc_Enabled :: bool
  uc_Allow :: "string list"

record journal_config =
  jc_Enabled :: bool
  jc_Priority :: string
  jc_Lines :: int
  jc_SystemJournal :: bool

record systemd_config =
  sd_Enabled :: bool
  sd_Units :: unit_config
  sd_Journal :: journal_config

definition validUnitOps :: "string list" where
  "validUnitOps = [''list'', ''inspect'', ''unit_file'', ''logs'', ''start'', ''stop'', ''restart'', ''reload'', ''enable'', ''disable'']"

definition validJournalPriorities :: "string list" where
  "validJournalPriorities = [''emerg'', ''alert'', ''crit'', ''err'', ''warning'', ''notice'', ''info'', ''debug'']"

definition systemd_zero :: systemd_config where
  "systemd_zero = \<lparr>sd_Enabled = False, sd_Units = \<lparr>uc_Enabled = False, uc_Allow = []\<rparr>,
     sd_Journal = \<lparr>jc_Enabled = False, jc_Priority = [], jc_Lines = 0, jc_SystemJournal = False\<rparr>\<rparr>"

definition journal_defaults :: "journal_config \<Rightarrow> journal_config" where
  "journal_defaults j =
     (let j1 = (if jc_Priority j = [] then j\<lparr>jc_Priority := ''info''\<rparr> else j)
      in if jc_Lines j1 = 0 then j1\<lparr>jc_Lines := 100\<rparr> else j1)"

definition validateSystemdConfig :: "systemd_config \<Rightarrow> config_invalid option" where
  "validateSystemdConfig cfg =
     orElse (validateAllowList ''units'' (uc_Allow (sd_Units cfg)) validUnitOps)
    (orElse (if jc_Priority (sd_Journal cfg) \<notin> set validJournalPriorities
             then Some (BadPriority (jc_Priority (sd_Journal cfg)) (joinKeys validJournalPriorities)) else None)
            (if jc_Lines (sd_Journal cfg) \<le> 0 then Some (BadLines (jc_Lines (sd_Journal cfg))) else None))"

definition loadSystemdConfigFrom :: "(string \<Rightarrow> systemd_config option) \<Rightarrow> string \<Rightarrow> world \<Rightarrow> (config_error + systemd_config) \<times> world" where
  "loadSystemdConfigFrom toml =
     load_config toml systemd_zero
       (\<lambda>cfg. let cfg = cfg\<lparr>sd_Journal := journal_defaults (sd_Journal cfg)\<rparr> in
              case validateSystemdConfig cfg of Some e \<Rightarrow> Inl e | None \<Rightarrow> Inr (cfg\<lparr>sd_Enabled := True\<rparr>))"

definition systemd_valid :: "systemd_config \<Rightarrow> bool" where
  "systemd_valid cfg \<longleftrightarrow> set (uc_Allow (sd_Units cfg)) \<subseteq> set validUnitOps \<and>
     jc_Priority (sd_Journal cfg) \<in> set validJournalPriorities \<and> 0 < jc_Lines (sd_Journal cfg)"

interpretation systemd_loader: config_loader "loadSystemdConfigFrom toml path" path sd_Enabled systemd_valid systemd_zero
  for toml path
  unfolding loadSystemdConfigFrom_def
  by (rule load_config_loader)
     (auto simp: validateSystemdConfig_def systemd_valid_def systemd_zero_def Let_def split: option.splits if_splits)

section \<open>metrics.toml\<close>

record metrics_config =
  mc_Enabled :: bool
  mc_Host :: bool
  mc_CPU :: bool
  mc_Memory :: bool
  mc_Disk :: bool
  mc_DiskPaths :: "string list"
  mc_Network :: bool
  mc_Interfaces :: "string list"
  mc_Processes :: bool
  mc_Limit :: "int option"
  mc_Ports :: bool

definition metrics_zero :: metrics_config where
  "metrics_zero = \<lparr>mc_Enabled = False, mc_Host = False, mc_CPU = False, mc_Memory = False, mc_Disk = False, mc_DiskPaths = [],
     mc_Network = False, mc_Interfaces = [], mc_Processes = False, mc_Limit = None, mc_Ports = False\<rparr>"

definition defaultProcessLimit :: int where "defaultProcessLimit = 20"
definition maxProcessLimit :: int where "maxProcessLimit = 100"

definition ProcessLimit :: "metrics_config \<Rightarrow> int" where
  "ProcessLimit c = (case mc_Limit c of None \<Rightarrow> defaultProcessLimit | Some l \<Rightarrow> l)"

fun check_disk_paths :: "nat \<Rightarrow> string list \<Rightarrow> config_invalid option" where
  "check_disk_paths i [] = None"
| "check_disk_paths i (p # ps) =
     (if \<not> has_prefix p ''/'' then Some (DiskPathRelative i p) else check_disk_paths (Suc i) ps)"

lemma check_disk_paths_None [simp]: "check_disk_paths i ps = None \<longleftrightarrow> (\<forall>p \<in> set ps. has_prefix p ''/'')"
  by (induction i ps rule: check_disk_paths.induct) auto

text \<open>The dereference of \<open>Processes.Limit\<close> is safe: the loader has set it.\<close>

definition validateMetricsConfig :: "metrics_config \<Rightarrow> config_invalid option" where
  "validateMetricsConfig cfg =
     orElse (check_disk_paths 0 (mc_DiskPaths cfg))
       (let limit = the (mc_Limit cfg) in
        if limit \<le> 0 then Some (BadLimit limit)
        else if limit > maxProcessLimit then Some (LimitTooBig limit)
        else None)"

definition loadMetricsConfigFrom :: "(string \<Rightarrow> metrics_config option) \<Rightarrow> string \<Rightarrow> world \<Rightarrow> (config_error + metrics_config) \<times> world" where
  "loadMetricsConfigFrom toml =
     load_config toml metrics_zero
       (\<lambda>cfg. let cfg = (if mc_Limit cfg = None then cfg\<lparr>mc_Limit := Some defaultProcessLimit\<rparr> else cfg) in
              case validateMetricsConfig cfg of Some e \<Rightarrow> Inl e | None \<Rightarrow> Inr (cfg\<lparr>mc_Enabled := True\<rparr>))"

definition metrics_valid :: "metrics_config \<Rightarrow> bool" where
  "metrics_valid cfg \<longleftrightarrow> (\<forall>p \<in> set (mc_DiskPaths cfg). is_abs p) \<and> 1 \<le> ProcessLimit cfg \<and> ProcessLimit cfg \<le> 100"

interpretation metrics_loader: config_loader "loadMetricsConfigFrom toml path" path mc_Enabled metrics_valid metrics_zero
  for toml path
  unfolding loadMetricsConfigFrom_def
  by (rule load_config_loader)
     (auto simp: validateMetricsConfig_def metrics_valid_def metrics_zero_def ProcessLimit_def defaultProcessLimit_def maxProcessLimit_def
       has_prefix_def is_abs_def Let_def split: option.splits if_splits)

section \<open>vars.toml\<close>

record var_scope =
  vs_Project :: string
  vs_Env :: string
  vs_Allow :: "string list"

record vars_config =
  vc_Enabled :: bool
  vc_Scopes :: "var_scope list"

definition vars_zero :: vars_config where
  "vars_zero = \<lparr>vc_Enabled = False, vc_Scopes = []\<rparr>"

definition validVarOps :: "string list" where
  "validVarOps = [''read'', ''write'']"

text \<open>The pattern \<^verbatim>\<open>^[a-z0-9_-]+$\<close>.\<close>

definition projectName :: "string \<Rightarrow> bool" where
  "projectName s \<longleftrightarrow> s \<noteq> [] \<and> list_all (\<lambda>c. is_lower c \<or> is_digit c \<or> c = CHR ''_'' \<or> c = CHR ''-'') s"

definition scope_section :: "nat \<Rightarrow> string" where
  "scope_section i = ''scope['' @ nat_to_dec i @ '']''"

definition scope_key :: "var_scope \<Rightarrow> string" where
  "scope_key s = vs_Project s @ ''/'' @ vs_Env s"

fun validate_scopes :: "nat \<Rightarrow> string list \<Rightarrow> var_scope list \<Rightarrow> config_invalid option" where
  "validate_scopes i seen [] = None"
| "validate_scopes i seen (s # ss) =
     (if vs_Project s = [] then Some (EmptyProject i)
      else if \<not> projectName (vs_Project s) then Some (BadProject i (vs_Project s))
      else if vs_Env s = [] then Some (EmptyEnv i)
      else if \<not> projectName (vs_Env s) then Some (BadEnv i (vs_Env s))
      else if vs_Allow s = [] then Some (EmptyAllow i)
      else (case validateAllowList (scope_section i) (vs_Allow s) validVarOps of
              Some e \<Rightarrow> Some e
            | None \<Rightarrow>
                if scope_key s \<in> set seen then Some (DuplicateScope i (scope_key s))
                else validate_scopes (Suc i) (scope_key s # seen) ss))"

definition validateVarsConfig :: "vars_config \<Rightarrow> config_invalid option" where
  "validateVarsConfig cfg = (if vc_Scopes cfg = [] then Some NoScopes else validate_scopes 0 [] (vc_Scopes cfg))"

definition loadVarsConfigFrom :: "(string \<Rightarrow> vars_config option) \<Rightarrow> string \<Rightarrow> world \<Rightarrow> (config_error + vars_config) \<times> world" where
  "loadVarsConfigFrom toml =
     load_config toml vars_zero
       (\<lambda>cfg. case validateVarsConfig cfg of Some e \<Rightarrow> Inl e | None \<Rightarrow> Inr (cfg\<lparr>vc_Enabled := True\<rparr>))"

definition scope_ok :: "var_scope \<Rightarrow> bool" where
  "scope_ok s \<longleftrightarrow> projectName (vs_Project s) \<and> projectName (vs_Env s) \<and> vs_Allow s \<noteq> [] \<and> set (vs_Allow s) \<subseteq> {''read'', ''write''}"

text \<open>Every pair of a project and an environment is configured at most once.\<close>

definition vars_valid :: "vars_config \<Rightarrow> bool" where
  "vars_valid cfg \<longleftrightarrow> vc_Scopes cfg \<noteq> [] \<and> list_all scope_ok (vc_Scopes cfg) \<and>
     distinct (map (\<lambda>s. (vs_Project s, vs_Env s)) (vc_Scopes cfg))"

lemma projectName_no_slash: "projectName s \<Longrightarrow> slash \<notin> set s"
  by (auto simp: projectName_def list_all_iff is_lower_def is_digit_def)

lemma validate_scopes_None:
  assumes "validate_scopes i seen ss = None"
  shows "list_all scope_ok ss \<and> distinct (map scope_key ss) \<and> set (map scope_key ss) \<inter> set seen = {}"
  using assms
  by (induction i seen ss rule: validate_scopes.induct)
     (auto simp: scope_ok_def validVarOps_def split: if_splits option.splits)

lemma validate_scopes_iff:
  "validate_scopes i seen ss = None \<longleftrightarrow> list_all scope_ok ss \<and> distinct (map scope_key ss) \<and> set (map scope_key ss) \<inter> set seen = {}"
proof
  assume "list_all scope_ok ss \<and> distinct (map scope_key ss) \<and> set (map scope_key ss) \<inter> set seen = {}"
  then show "validate_scopes i seen ss = None"
  proof (induction ss arbitrary: i seen)
    case (Cons s ss)
    then have "validateAllowList (scope_section i) (vs_Allow s) validVarOps = None" by (simp add: scope_ok_def validVarOps_def)
    moreover have "vs_Project s \<noteq> []" "vs_Env s \<noteq> []" using Cons.prems by (auto simp: scope_ok_def projectName_def)
    ultimately show ?case using Cons by (auto simp: scope_ok_def simp del: validateAllowList_None)
  qed simp
qed (rule validate_scopes_None)

lemma cut_unique: "c \<notin> set a \<Longrightarrow> c \<notin> set a' \<Longrightarrow> a @ c # b = a' @ c # b' \<longleftrightarrow> a = a' \<and> b = b'"
proof (induction a arbitrary: a')
  case Nil then show ?case by (cases a') auto
next
  case (Cons x a) then show ?case by (cases a') auto
qed

lemma scope_keys_distinct:
  "list_all scope_ok ss \<Longrightarrow> distinct (map scope_key ss) = distinct (map (\<lambda>s. (vs_Project s, vs_Env s)) ss)"
  by (induction ss) (auto simp: scope_key_def scope_ok_def list_all_iff image_iff cut_unique projectName_no_slash)

lemma validateVarsConfig_iff: "validateVarsConfig cfg = None \<longleftrightarrow> vars_valid cfg"
  using scope_keys_distinct [of "vc_Scopes cfg"] by (auto simp: validateVarsConfig_def vars_valid_def validate_scopes_iff)

interpretation vars_loader: config_loader "loadVarsConfigFrom toml path" path vc_Enabled vars_valid vars_zero
  for toml path
  unfolding loadVarsConfigFrom_def
  by (rule load_config_loader)
     (auto simp: validateVarsConfig_iff vars_zero_def vars_valid_def split: option.splits)

section \<open>files.toml\<close>

record resolved_identity =
  ri_UID :: int
  ri_GID :: int
  ri_Set :: bool

record path_rule =
  ru_Dir :: string
  ru_Allow :: "string list"
  ru_UseAsUser :: string
  ru_UseAs :: resolved_identity
  ru_Share :: bool

record files_config =
  fc_Enabled :: bool
  fc_Paths :: "path_rule list"

definition files_zero :: files_config where
  "files_zero = \<lparr>fc_Enabled = False, fc_Paths = []\<rparr>"

definition validFileOps :: "string list" where
  "validFileOps = [''read'', ''write'']"

definition validateDirPath :: "string \<Rightarrow> string option" where
  "validateDirPath p =
     (if \<not> has_prefix p ''/'' then Some ''must be an absolute path''
      else if \<not> has_suffix p ''/'' then Some ''must end with /''
      else None)"

definition containsWrite :: "string list \<Rightarrow> bool" where
  "containsWrite allow = list_ex (\<lambda>a. a = ''write'') allow"

fun validate_paths :: "nat \<Rightarrow> string list \<Rightarrow> path_rule list \<Rightarrow> config_invalid option" where
  "validate_paths i seen [] = None"
| "validate_paths i seen (r # rs) =
     (case validateDirPath (ru_Dir r) of
        Some why \<Rightarrow> Some (BadDir i (ru_Dir r) why)
      | None \<Rightarrow>
          if ru_Dir r \<in> set seen then Some (DuplicateDir i (ru_Dir r))
          else if ru_Allow r = [] then Some (EmptyAllow i)
          else (case validateAllowList (''path['' @ nat_to_dec i @ '']'') (ru_Allow r) validFileOps of
                  Some e \<Rightarrow> Some e
                | None \<Rightarrow>
                    if ru_UseAsUser r \<noteq> [] \<and> \<not> containsWrite (ru_Allow r) then Some (UseAsNeedsWrite i (ru_Dir r))
                    else validate_paths (Suc i) (ru_Dir r # seen) rs))"

definition validateFilesConfig :: "files_config \<Rightarrow> config_invalid option" where
  "validateFilesConfig cfg = (if fc_Paths cfg = [] then Some NoPathEntries else validate_paths 0 [] (fc_Paths cfg))"

text \<open>\<open>user.Lookup\<close> is a parameter: the uid and gid texts of a user name.\<close>

definition resolveUser :: "(string \<Rightarrow> (string \<times> string) option) \<Rightarrow> string \<Rightarrow> resolved_identity option" where
  "resolveUser lookup username =
     (case lookup username of
        None \<Rightarrow> None
      | Some (u, g) \<Rightarrow>
          (case parse_int u of
             Inl _ \<Rightarrow> None
           | Inr uid \<Rightarrow> (case parse_int g of Inl _ \<Rightarrow> None | Inr gid \<Rightarrow> Some \<lparr>ri_UID = uid, ri_GID = gid, ri_Set = True\<rparr>)))"

definition resolve_rule :: "(string \<Rightarrow> (string \<times> string) option) \<Rightarrow> path_rule \<Rightarrow> path_rule" where
  "resolve_rule lookup rule =
     (if ru_UseAsUser rule = [] then rule
      else (case resolveUser lookup (ru_UseAsUser rule) of
              None \<Rightarrow> rule
            | Some i \<Rightarrow> rule\<lparr>ru_UseAs := \<lparr>ri_UID = ri_UID i, ri_GID = ri_GID i, ri_Set = True\<rparr>\<rparr>))"

definition loadFilesConfigFrom ::
  "(string \<Rightarrow> files_config option) \<Rightarrow> (string \<Rightarrow> (string \<times> string) option) \<Rightarrow> string \<Rightarrow> world \<Rightarrow> (config_error + files_config) \<times> world" where
  "loadFilesConfigFrom toml lookup =
     load_config toml files_zero
       (\<lambda>cfg. case validateFilesConfig cfg of
                Some e \<Rightarrow> Inl e
              | None \<Rightarrow> Inr \<lparr>fc_Enabled = True, fc_Paths = map (resolve_rule lookup) (fc_Paths cfg)\<rparr>)"

definition rule_ok :: "path_rule \<Rightarrow> bool" where
  "rule_ok r \<longleftrightarrow> is_abs (ru_Dir r) \<and> last (ru_Dir r) = slash \<and> ru_Allow r \<noteq> [] \<and> set (ru_Allow r) \<subseteq> {''read'', ''write''} \<and>
     (ru_UseAsUser r \<noteq> [] \<longrightarrow> ''write'' \<in> set (ru_Allow r))"

definition files_valid :: "files_config \<Rightarrow> bool" where
  "files_valid cfg \<longleftrightarrow> fc_Paths cfg \<noteq> [] \<and> list_all rule_ok (fc_Paths cfg) \<and> distinct (map ru_Dir (fc_Paths cfg))"

lemma validateDirPath_None: "validateDirPath p = None \<longleftrightarrow> is_abs p \<and> last p = slash"
  by (cases p rule: rev_cases)
     (auto simp: validateDirPath_def is_abs_def has_prefix_def has_suffix_iff)

lemma validate_paths_None:
  "validate_paths i seen rs = None \<Longrightarrow> list_all rule_ok rs \<and> distinct (map ru_Dir rs) \<and> set (map ru_Dir rs) \<inter> set seen = {}"
  by (induction i seen rs rule: validate_paths.induct)
     (auto simp: rule_ok_def validFileOps_def validateDirPath_None containsWrite_def list_ex_iff split: if_splits option.splits)

lemma resolve_rule_fields [simp]:
  "ru_Dir (resolve_rule lookup r) = ru_Dir r" "ru_Allow (resolve_rule lookup r) = ru_Allow r"
  "ru_UseAsUser (resolve_rule lookup r) = ru_UseAsUser r" "rule_ok (resolve_rule lookup r) = rule_ok r"
  by (simp_all add: resolve_rule_def rule_ok_def split: option.splits)

interpretation files_loader: config_loader "loadFilesConfigFrom toml lookup path" path fc_Enabled files_valid files_zero
  for toml lookup path
  unfolding loadFilesConfigFrom_def
proof (rule load_config_loader)
  fix c c' assume "(case validateFilesConfig c of Some e \<Rightarrow> Inl e
      | None \<Rightarrow> Inr \<lparr>fc_Enabled = True, fc_Paths = map (resolve_rule lookup) (fc_Paths c)\<rparr>) = Inr c'"
  then have "validateFilesConfig c = None" "c' = \<lparr>fc_Enabled = True, fc_Paths = map (resolve_rule lookup) (fc_Paths c)\<rparr>"
    by (auto split: option.splits)
  then show "fc_Enabled c' \<and> files_valid c'"
    using validate_paths_None [of 0 "[]" "fc_Paths c"]
    by (auto simp: validateFilesConfig_def files_valid_def list_all_iff o_def split: if_splits)
qed (simp add: files_zero_def)

section \<open>What a loaded configuration guarantees\<close>

text \<open>
  C23 (configurations are valid). Whatever the files contain and whichever call fails, an integration whose loader returned an
  enabled configuration has a valid one: known operations only, absolute directories and disk paths,
  limits in range, every scope and directory configured once; and a loader writes nothing.
\<close>

theorem integrations_valid:
  "(\<forall>c w'. loadDockerConfigFrom td p w = (Inr c, w') \<and> dk_Enabled c \<longrightarrow> docker_valid c \<and> same_files w w') \<and>
   (\<forall>c w'. loadSystemdConfigFrom ts p w = (Inr c, w') \<and> sd_Enabled c \<longrightarrow> systemd_valid c \<and> same_files w w') \<and>
   (\<forall>c w'. loadMetricsConfigFrom tm p w = (Inr c, w') \<and> mc_Enabled c \<longrightarrow> metrics_valid c \<and> same_files w w') \<and>
   (\<forall>c w'. loadVarsConfigFrom tv p w = (Inr c, w') \<and> vc_Enabled c \<longrightarrow> vars_valid c \<and> same_files w w') \<and>
   (\<forall>c w'. loadFilesConfigFrom tf lookup p w = (Inr c, w') \<and> fc_Enabled c \<longrightarrow> files_valid c \<and> same_files w w')"
  using docker_loader.enabled_valid docker_loader.load_quiet systemd_loader.enabled_valid systemd_loader.load_quiet
    metrics_loader.enabled_valid metrics_loader.load_quiet vars_loader.enabled_valid vars_loader.load_quiet
    files_loader.enabled_valid files_loader.load_quiet
  by meson

definition demo_docker :: docker_config where
  "demo_docker = docker_zero\<lparr>dk_Images := \<lparr>ds_Enabled = True, ds_Allow = [''pull'']\<rparr>\<rparr>"

theorem integrations_valid_witness:
  "\<exists>c w'. loadDockerConfigFrom (\<lambda>_. Some demo_docker) ''/d'' (demo_world [(''/d'', text_file ''x'')] []) = (Inr c, w') \<and>
     dk_Enabled c \<and> docker_valid c \<and> Permits (dk_Images c) ''pull''"
proof -
  let ?w = "demo_world [(''/d'', text_file ''x'')] []"
  obtain r w' where run: "loadDockerConfigFrom (\<lambda>_. Some demo_docker) ''/d'' ?w = (r, w')" by fastforce
  have "case fst (loadDockerConfigFrom (\<lambda>_. Some demo_docker) ''/d'' ?w) of Inl _ \<Rightarrow> False
      | Inr c \<Rightarrow> dk_Enabled c \<and> Permits (dk_Images c) ''pull''" by code_simp
  with run obtain c where c: "r = Inr c" "dk_Enabled c" "Permits (dk_Images c) ''pull''" by (cases r) auto
  with run integrations_valid [of "\<lambda>_. Some demo_docker" "''/d''" ?w] show ?thesis by blast
qed

text \<open>
  Absent means disabled: Without faults, an integration whose loader succeeded is enabled exactly if its configuration
  file exists: no content of the file, not even an explicit \<open>enabled = false\<close>, disables it.
\<close>

theorem enabled_iff_file:
  assumes "fault_free w" "clean p \<notin> set (w_dirs w)"
  shows "(\<forall>c w'. loadDockerConfigFrom td p w = (Inr c, w') \<longrightarrow> dk_Enabled c = (get_file w p \<noteq> None)) \<and>
   (\<forall>c w'. loadSystemdConfigFrom ts p w = (Inr c, w') \<longrightarrow> sd_Enabled c = (get_file w p \<noteq> None)) \<and>
   (\<forall>c w'. loadMetricsConfigFrom tm p w = (Inr c, w') \<longrightarrow> mc_Enabled c = (get_file w p \<noteq> None)) \<and>
   (\<forall>c w'. loadVarsConfigFrom tv p w = (Inr c, w') \<longrightarrow> vc_Enabled c = (get_file w p \<noteq> None)) \<and>
   (\<forall>c w'. loadFilesConfigFrom tf lookup p w = (Inr c, w') \<longrightarrow> fc_Enabled c = (get_file w p \<noteq> None))"
  by (intro conjI allI impI)
     (erule docker_loader.enabled_iff_present [OF assms] systemd_loader.enabled_iff_present [OF assms]
       metrics_loader.enabled_iff_present [OF assms] vars_loader.enabled_iff_present [OF assms]
       files_loader.enabled_iff_present [OF assms])+

theorem enabled_iff_file_witness:
  "\<exists>c w'. loadMetricsConfigFrom (\<lambda>_. None) ''/m'' (demo_world [] []) = (Inr c, w') \<and> \<not> mc_Enabled c"
proof -
  have none: "clean ''/m'' \<notin> set (w_dirs (demo_world [] []))" "get_file (demo_world [] []) ''/m'' = None"
    by (simp_all add: demo_world_def get_file_def)
  obtain r w' where run: "loadMetricsConfigFrom (\<lambda>_. None) ''/m'' (demo_world [] []) = (r, w')" by fastforce
  moreover have "fst (loadMetricsConfigFrom (\<lambda>_. None) ''/m'' (demo_world [] [])) = Inr metrics_zero"
    using none by (simp add: loadMetricsConfigFrom_def load_config_def ReadFile_ff_cases)
  ultimately have run: "loadMetricsConfigFrom (\<lambda>_. None) ''/m'' (demo_world [] []) = (Inr metrics_zero, w')" by simp
  then show ?thesis using enabled_iff_file [OF demo_fault_free none(1), where tm = "\<lambda>_. None"] none(2) by blast
qed

end
