(* ===== verification/Logging.thy ===== *)
theory Logging
  imports Config
begin

text \<open>
  The logging configuration (\<^verbatim>\<open>internal/config/logging.go\<close>): defaults, the decoded file over them, then the
  environment, then validation. The decoder takes the configuration it fills in; the environment is a
  function from names to values, the empty string where a name is not set.
\<close>

record app_log =
  al_Level :: string
  al_Format :: string

record rotation =
  ro_MaxSizeMB :: int
  ro_MaxBackups :: int
  ro_MaxAgeDays :: int
  ro_Compress :: bool

record api_log =
  pl_Enabled :: bool
  pl_Level :: string
  pl_Format :: string
  pl_Path :: string
  pl_Rotation :: rotation

record logging_config =
  lg_App :: app_log
  lg_API :: api_log

datatype logging_error = LogRead io_error | LogParse | LogBool string string | LogInt string string num_error
  | LogAppLevel string string | LogAppFormat string string | LogAPILevel string string | LogAPIFormat string
  | LogAPIPath string | LogMaxSize int | LogMaxBackups int | LogMaxAge int

definition validLogLevels :: "string list" where
  "validLogLevels = [''debug'', ''info'', ''warn'', ''error'']"

definition validAppLogFormats :: "string list" where
  "validAppLogFormats = [''text'', ''json'']"

definition defaultLoggingConfig :: logging_config where
  "defaultLoggingConfig =
     \<lparr>lg_App = \<lparr>al_Level = ''info'', al_Format = ''text''\<rparr>,
      lg_API = \<lparr>pl_Enabled = True, pl_Level = ''info'', pl_Format = ''json'', pl_Path = ''/var/log/tailkitd/api.json.log'',
        pl_Rotation = \<lparr>ro_MaxSizeMB = 100, ro_MaxBackups = 10, ro_MaxAgeDays = 14, ro_Compress = True\<rparr>\<rparr>\<rparr>"

section \<open>The environment\<close>

text \<open>\<open>strconv.ParseBool\<close>.\<close>

definition parse_bool :: "string \<Rightarrow> bool option" where
  "parse_bool s =
     (if s \<in> {''1'', ''t'', ''T'', ''true'', ''TRUE'', ''True''} then Some True
      else if s \<in> {''0'', ''f'', ''F'', ''false'', ''FALSE'', ''False''} then Some False
      else None)"

type_synonym environ = "string \<Rightarrow> string"

definition overrideString :: "environ \<Rightarrow> string \<Rightarrow> string \<Rightarrow> string" where
  "overrideString env key dst = (let raw = trim_space (env key) in if raw \<noteq> [] then raw else dst)"

definition overrideBool :: "environ \<Rightarrow> string \<Rightarrow> bool \<Rightarrow> logging_error + bool" where
  "overrideBool env key dst =
     (let raw = trim_space (env key) in
      if raw = [] then Inr dst
      else (case parse_bool raw of None \<Rightarrow> Inl (LogBool key raw) | Some v \<Rightarrow> Inr v))"

definition overrideInt :: "environ \<Rightarrow> string \<Rightarrow> int \<Rightarrow> logging_error + int" where
  "overrideInt env key dst =
     (let raw = trim_space (env key) in
      if raw = [] then Inr dst
      else (case parse_int raw of Inl e \<Rightarrow> Inl (LogInt key raw e) | Inr v \<Rightarrow> Inr v))"

definition sum_bind :: "'e + 'a \<Rightarrow> ('a \<Rightarrow> 'e + 'b) \<Rightarrow> 'e + 'b" where
  "sum_bind m f = (case m of Inl e \<Rightarrow> Inl e | Inr a \<Rightarrow> f a)"

lemma sum_bind_Inr [simp]: "sum_bind m f = Inr b \<longleftrightarrow> (\<exists>a. m = Inr a \<and> f a = Inr b)"
  by (cases m) (auto simp: sum_bind_def)

definition override_rotation :: "environ \<Rightarrow> rotation \<Rightarrow> logging_error + rotation" where
  "override_rotation env r =
     sum_bind (overrideInt env ''TAILKITD_API_LOG_MAX_SIZE_MB'' (ro_MaxSizeMB r)) (\<lambda>size.
     sum_bind (overrideInt env ''TAILKITD_API_LOG_MAX_BACKUPS'' (ro_MaxBackups r)) (\<lambda>backups.
     sum_bind (overrideInt env ''TAILKITD_API_LOG_MAX_AGE_DAYS'' (ro_MaxAgeDays r)) (\<lambda>age.
     sum_bind (overrideBool env ''TAILKITD_API_LOG_COMPRESS'' (ro_Compress r)) (\<lambda>compress.
       Inr \<lparr>ro_MaxSizeMB = size, ro_MaxBackups = backups, ro_MaxAgeDays = age, ro_Compress = compress\<rparr>))))"

definition applyLoggingEnvOverrides :: "environ \<Rightarrow> logging_config \<Rightarrow> logging_error + logging_config" where
  "applyLoggingEnvOverrides env cfg =
     (let level = overrideString env ''TAILKITD_APP_LOG_LEVEL'' (al_Level (lg_App cfg));
          format = overrideString env ''TAILKITD_APP_LOG_FORMAT'' (al_Format (lg_App cfg))
      in sum_bind (overrideBool env ''TAILKITD_API_LOG_ENABLED'' (pl_Enabled (lg_API cfg))) (\<lambda>enabled.
         sum_bind (override_rotation env (pl_Rotation (lg_API cfg))) (\<lambda>rot.
           let raw = trim_space (env ''TAILKITD_LOG_LEVEL'') in
           Inr \<lparr>lg_App = \<lparr>al_Level = (if raw \<noteq> [] \<and> trim_space (env ''TAILKITD_APP_LOG_LEVEL'') = [] then raw else level),
                          al_Format = format\<rparr>,
                lg_API = \<lparr>pl_Enabled = enabled, pl_Level = overrideString env ''TAILKITD_API_LOG_LEVEL'' (pl_Level (lg_API cfg)),
                          pl_Format = pl_Format (lg_API cfg),
                          pl_Path = overrideString env ''TAILKITD_API_LOG_PATH'' (pl_Path (lg_API cfg)),
                          pl_Rotation = rot\<rparr>\<rparr>)))"

section \<open>Validation and loading\<close>

definition validateLoggingConfig :: "logging_config \<Rightarrow> logging_error option" where
  "validateLoggingConfig cfg =
     (let app = lg_App cfg; api = lg_API cfg; rot = pl_Rotation api in
      if al_Level app \<notin> set validLogLevels then Some (LogAppLevel (al_Level app) (joinKeys validLogLevels))
      else if al_Format app \<notin> set validAppLogFormats then Some (LogAppFormat (al_Format app) (joinKeys validAppLogFormats))
      else if pl_Level api \<notin> set validLogLevels then Some (LogAPILevel (pl_Level api) (joinKeys validLogLevels))
      else if pl_Format api \<noteq> ''json'' then Some (LogAPIFormat (pl_Format api))
      else if pl_Enabled api \<and> \<not> is_abs (pl_Path api) then Some (LogAPIPath (pl_Path api))
      else if ro_MaxSizeMB rot \<le> 0 then Some (LogMaxSize (ro_MaxSizeMB rot))
      else if ro_MaxBackups rot < 0 then Some (LogMaxBackups (ro_MaxBackups rot))
      else if ro_MaxAgeDays rot < 0 then Some (LogMaxAge (ro_MaxAgeDays rot))
      else None)"

definition finishLogging :: "environ \<Rightarrow> logging_config \<Rightarrow> logging_error + logging_config" where
  "finishLogging env cfg =
     (case applyLoggingEnvOverrides env cfg of
        Inl e \<Rightarrow> Inl e
      | Inr cfg \<Rightarrow> (case validateLoggingConfig cfg of Some e \<Rightarrow> Inl e | None \<Rightarrow> Inr cfg))"

definition loadLoggingConfigFrom ::
  "(logging_config \<Rightarrow> string \<Rightarrow> logging_config option) \<Rightarrow> environ \<Rightarrow> string \<Rightarrow> world \<Rightarrow> (logging_error + logging_config) \<times> world" where
  "loadLoggingConfigFrom toml env path w =
     (case os_ReadFile path w of
        (Inl x, w1) \<Rightarrow> (if x = ENOENT then finishLogging env defaultLoggingConfig else Inl (LogRead x), w1)
      | (Inr data, w1) \<Rightarrow>
          (case toml defaultLoggingConfig data of
             None \<Rightarrow> (Inl LogParse, w1)
           | Some cfg \<Rightarrow> (finishLogging env cfg, w1)))"

text \<open>What the daemon's loggers rely on, and where the application log's level comes from.\<close>

definition logging_valid :: "logging_config \<Rightarrow> bool" where
  "logging_valid cfg \<longleftrightarrow> al_Level (lg_App cfg) \<in> {''debug'', ''info'', ''warn'', ''error''} \<and>
     al_Format (lg_App cfg) \<in> {''text'', ''json''} \<and> pl_Level (lg_API cfg) \<in> {''debug'', ''info'', ''warn'', ''error''} \<and>
     pl_Format (lg_API cfg) = ''json'' \<and> (pl_Enabled (lg_API cfg) \<longrightarrow> is_abs (pl_Path (lg_API cfg))) \<and>
     0 < ro_MaxSizeMB (pl_Rotation (lg_API cfg)) \<and> 0 \<le> ro_MaxBackups (pl_Rotation (lg_API cfg)) \<and>
     0 \<le> ro_MaxAgeDays (pl_Rotation (lg_API cfg))"

definition app_level_source :: "environ \<Rightarrow> string \<Rightarrow> string" where
  "app_level_source env configured =
     (let app = trim_space (env ''TAILKITD_APP_LOG_LEVEL''); gen = trim_space (env ''TAILKITD_LOG_LEVEL'') in
      if app \<noteq> [] then app else if gen \<noteq> [] then gen else configured)"

lemma validateLogging_iff: "validateLoggingConfig cfg = None \<longleftrightarrow> logging_valid cfg"
  by (auto simp: validateLoggingConfig_def logging_valid_def validLogLevels_def validAppLogFormats_def Let_def)

lemma finishLogging_Inr:
  assumes "finishLogging env cfg = Inr c"
  shows "logging_valid c \<and> al_Level (lg_App c) = app_level_source env (al_Level (lg_App cfg))"
proof -
  have "applyLoggingEnvOverrides env cfg = Inr c" "validateLoggingConfig c = None"
    using assms by (auto simp: finishLogging_def split: sum.splits option.splits)
  then show ?thesis
    by (auto simp: applyLoggingEnvOverrides_def app_level_source_def overrideString_def validateLogging_iff Let_def)
qed

text \<open>
  Logging configuration: A loaded logging configuration is valid whatever file and environment contain: known levels and
  formats, an absolute path when the request log is on, and sensible rotation limits. The level of the
  application log is \<^verbatim>\<open>TAILKITD_APP_LOG_LEVEL\<close> where set, else \<^verbatim>\<open>TAILKITD_LOG_LEVEL\<close>, else the
  file's, else \<open>info\<close>; loading changes no file.
\<close>

theorem logging_loaded:
  assumes "loadLoggingConfigFrom toml env path w = (Inr c, w')"
  shows "same_files w w' \<and> logging_valid c \<and>
    (\<exists>cfg. (cfg = defaultLoggingConfig \<or> (\<exists>f. get_file w path = Some f \<and> toml defaultLoggingConfig (f_data f) = Some cfg)) \<and>
       al_Level (lg_App c) = app_level_source env (al_Level (lg_App cfg)))"
proof -
  obtain x w1 where rd: "os_ReadFile path w = (x, w1)" by fastforce
  have same: "same_files w w1" using quietD [OF quiet_ops(8) rd] .
  show ?thesis
  proof (cases x)
    case (Inl e)
    with assms rd have "w' = w1" "finishLogging env defaultLoggingConfig = Inr c"
      by (auto simp: loadLoggingConfigFrom_def split: if_splits)
    with finishLogging_Inr same show ?thesis by blast
  next
    case (Inr data)
    then obtain f where f: "get_file w path = Some f" "f_data f = data"
      using ReadFile_result [OF rd] by auto
    from assms rd Inr obtain cfg where "w' = w1" "toml defaultLoggingConfig data = Some cfg" "finishLogging env cfg = Inr c"
      by (auto simp: loadLoggingConfigFrom_def split: option.splits)
    with finishLogging_Inr same f show ?thesis by blast
  qed
qed

definition demo_environ :: environ where
  "demo_environ = (\<lambda>_. [])(''TAILKITD_LOG_LEVEL'' := '' warn'', ''TAILKITD_API_LOG_MAX_BACKUPS'' := ''3'')"

theorem logging_loaded_witness:
  "\<exists>c w'. loadLoggingConfigFrom (\<lambda>_ _. None) demo_environ ''/l'' (demo_world [] []) = (Inr c, w') \<and> logging_valid c \<and>
     al_Level (lg_App c) = ''warn'' \<and> ro_MaxBackups (pl_Rotation (lg_API c)) = 3"
proof -
  obtain r w' where run: "loadLoggingConfigFrom (\<lambda>_ _. None) demo_environ ''/l'' (demo_world [] []) = (r, w')" by fastforce
  have "case fst (loadLoggingConfigFrom (\<lambda>_ _. None) demo_environ ''/l'' (demo_world [] [])) of Inl _ \<Rightarrow> False
      | Inr c \<Rightarrow> al_Level (lg_App c) = ''warn'' \<and> ro_MaxBackups (pl_Rotation (lg_API c)) = 3" by code_simp
  with run obtain c where c: "r = Inr c" "al_Level (lg_App c) = ''warn''" "ro_MaxBackups (pl_Rotation (lg_API c)) = 3"
    by (cases r) auto
  with run logging_loaded [OF run [unfolded c(1)]] show ?thesis by blast
qed

end
