(* ===== verification/Logger.thy ===== *)
theory Logger
  imports Logging
begin

text \<open>
  Construction of the loggers (\<^verbatim>\<open>internal/logger/logger.go\<close>). The logging library's level parser is a parameter: it gives a level of type
  \<open>'l\<close> or rejects the text. A core is kept as what it was built from; what it writes is not modelled.
\<close>

record 'l app_core =
  co_console :: bool
  co_level :: 'l

record 'l api_core =
  ci_path :: string
  ci_rotation :: rotation
  ci_level :: 'l

text \<open>The API logger without a core discards everything.\<close>

record 'l built_loggers =
  bl_App :: "'l app_core"
  bl_API :: "'l api_core option"

datatype logger_error = InvalidLevel string | LogDirError string io_error

definition parseLevel :: "(string \<Rightarrow> 'l option) \<Rightarrow> string \<Rightarrow> logger_error + 'l" where
  "parseLevel unmarshal raw = (case unmarshal raw of None \<Rightarrow> Inl (InvalidLevel raw) | Some level \<Rightarrow> Inr level)"

definition buildAppCore :: "app_log \<Rightarrow> 'l \<Rightarrow> 'l app_core" where
  "buildAppCore cfg level = \<lparr>co_console = (al_Format cfg = ''text''), co_level = level\<rparr>"

definition buildAPICore :: "api_log \<Rightarrow> 'l \<Rightarrow> world \<Rightarrow> (logger_error + 'l api_core) \<times> world" where
  "buildAPICore cfg level w =
     (case os_MkdirAll (dir_of (pl_Path cfg)) w of
        (Inl x, w1) \<Rightarrow> (Inl (LogDirError (pl_Path cfg) x), w1)
      | (Inr _, w1) \<Rightarrow> (Inr \<lparr>ci_path = pl_Path cfg, ci_rotation = pl_Rotation cfg, ci_level = level\<rparr>, w1))"

definition Build :: "(string \<Rightarrow> 'l option) \<Rightarrow> logging_config \<Rightarrow> world \<Rightarrow> (logger_error + 'l built_loggers) \<times> world" where
  "Build unmarshal cfg w =
     (case parseLevel unmarshal (al_Level (lg_App cfg)) of
        Inl x \<Rightarrow> (Inl x, w)
      | Inr appLevel \<Rightarrow>
          (case parseLevel unmarshal (pl_Level (lg_API cfg)) of
             Inl x \<Rightarrow> (Inl x, w)
           | Inr apiLevel \<Rightarrow>
               if \<not> pl_Enabled (lg_API cfg)
               then (Inr \<lparr>bl_App = buildAppCore (lg_App cfg) appLevel, bl_API = None\<rparr>, w)
               else (case buildAPICore (lg_API cfg) apiLevel w of
                       (Inl x, w1) \<Rightarrow> (Inl x, w1)
                     | (Inr core, w1) \<Rightarrow> (Inr \<lparr>bl_App = buildAppCore (lg_App cfg) appLevel, bl_API = Some core\<rparr>, w1))))"

text \<open>The documented behaviour of the level parser on the four names that the validation lets through.\<close>

definition knows_levels :: "(string \<Rightarrow> 'l option) \<Rightarrow> bool" where
  "knows_levels unmarshal \<longleftrightarrow> (\<forall>l \<in> set validLogLevels. unmarshal l \<noteq> None)"

text \<open>
  From a valid configuration the loggers are built, with or without the API log as configured, unless its directory cannot be made;
  no file is touched.
\<close>

lemma Build_result:
  assumes "Build unmarshal cfg w = (r, w')" "logging_valid cfg" "knows_levels unmarshal"
  shows "(\<exists>b. r = Inr b \<and> (bl_API b \<noteq> None \<longleftrightarrow> pl_Enabled (lg_API cfg))) \<or> (\<exists>x. r = Inl (LogDirError (pl_Path (lg_API cfg)) x))"
    "get_file w' p = get_file w p" "pl_Enabled (lg_API cfg) \<or> w' = w"
proof -
  obtain l1 l2 where l: "unmarshal (al_Level (lg_App cfg)) = Some l1" "unmarshal (pl_Level (lg_API cfg)) = Some l2"
    using assms(2,3) by (auto simp: logging_valid_def knows_levels_def validLogLevels_def)
  obtain x w1 where mk: "os_MkdirAll (dir_of (pl_Path (lg_API cfg))) w = (x, w1)" by fastforce
  show "(\<exists>b. r = Inr b \<and> (bl_API b \<noteq> None \<longleftrightarrow> pl_Enabled (lg_API cfg))) \<or> (\<exists>x. r = Inl (LogDirError (pl_Path (lg_API cfg)) x))"
    "get_file w' p = get_file w p" "pl_Enabled (lg_API cfg) \<or> w' = w"
    using assms(1) l mk MkdirAll_files [OF mk]
    by (auto simp: Build_def parseLevel_def buildAPICore_def split: if_splits sum.splits)
qed

end
