(* ===== verification/Skeletons.thy ===== *)
theory Skeletons
  imports Prelude
begin

text \<open>
  The files the installer writes (\<^verbatim>\<open>internal/setup/configs.go\<close> and the unit file of \<^verbatim>\<open>service.go\<close>), line by line. Dashes and
  arrows in comments are replaced by ASCII ones.
\<close>

definition unlines :: "string list \<Rightarrow> string" where
  "unlines ls = concat (map (\<lambda>l. l @ [CHR 0x0A]) ls)"

definition skeletonLogging :: string where
  "skeletonLogging = unlines [
     ''# /etc/tailkitd/logging.toml'',
     ''# Generated by: tailkitd install'',
     ''#'',
     ''# Restart tailkitd after editing this file.'',
     [],
     ''[app]'',
     ''level = \"info\"'',
     ''format = \"text\"'',
     [],
     ''[api]'',
     ''enabled = true'',
     ''level = \"info\"'',
     ''format = \"json\"'',
     ''path = \"/var/log/tailkitd/api.json.log\"'',
     [],
     ''[api.rotation]'',
     ''max_size_mb = 100'',
     ''max_backups = 10'',
     ''max_age_days = 14'',
     ''compress = true'']"

definition skeletonMetrics :: string where
  "skeletonMetrics = unlines [
     ''# /etc/tailkitd/integrations/metrics.toml'',
     ''# Generated by: tailkitd install'',
     ''#'',
     ''# All sections are independent - disable any without affecting the others.'',
     ''# Restart tailkitd after editing this file.'',
     [],
     ''[host]'',
     ''enabled = true'',
     [],
     ''[cpu]'',
     ''enabled = true'',
     [],
     ''[memory]'',
     ''enabled = true'',
     [],
     ''[disk]'',
     ''enabled = true'',
     ''# Restrict to specific mount points, or leave empty to report all filesystems.'',
     ''paths = []'',
     [],
     ''[network]'',
     ''enabled = true'',
     ''# Restrict to specific interfaces by name, or leave empty to report all.'',
     ''interfaces = []'',
     [],
     ''[processes]'',
     ''enabled = true'',
     ''# Processes returned, sorted by CPU usage desc. Range: 1-100.'',
     ''limit = 20'']"

definition skeletonFiles :: string where
  "skeletonFiles = unlines [
     ''# /etc/tailkitd/integrations/files.toml'',
     ''# Generated by: tailkitd install'',
     ''#'',
     ''# Each ['' @ ''[path]'' @ ''] entry grants access to one directory.'',
     ''#   dir       - absolute path, must end with /'',
     ''#   allow     - one or both of: \"read\", \"write\"'',
     ''#   use_as    - username to switch to when writing (optional, default: tailkitd)'',
     ''#   share'' @ [CHR 0x09] @ ''  - boolean, default; false, whether to share the file via the config endpoint'',
     ''#'',
     ''# Restart tailkitd after editing this file.'',
     [],
     ''# Dedicated drop zone for files pushed over the tailnet.'',
     ''# Isolated from the rest of the node. Safe default write target for any tool.'',
     ''['' @ ''[path]'' @ '']'',
     ''dir   = \"/var/lib/tailkitd/recv/\"'',
     ''allow = [\"read\", \"write\"]'',
     ''share = true'',
     [],
     ''# Read access to the tailkitd config directory.'',
     ''# Lets tools inspect which integrations are configured without modifying them.'',
     ''# Never add \"write\" here - config changes require a tailkitd restart.'',
     ''['' @ ''[path]'' @ '']'',
     ''dir   = \"/etc/tailkitd/\"'',
     ''allow = [\"read\"]'']"

definition skeletonVars :: string where
  "skeletonVars = unlines [
     ''# /etc/tailkitd/integrations/vars.toml'',
     ''# Generated by: tailkitd install'',
     ''#'',
     ''# Each ['' @ ''[scope]'' @ ''] entry grants access to one project/env combination.'',
     ''#   project - identifier, must match ^[a-z0-9_-]+$'',
     ''#   env     - identifier, must match ^[a-z0-9_-]+$'',
     ''#   allow   - one or both of: \"read\", \"write\"'',
     ''#'',
     ''# Keys starting with _ are reserved and cannot be set by callers.'',
     ''# Restart tailkitd after editing this file.'',
     [],
     ''# Replace \"myapp\" and \"prod\" with your actual project name and environment.'',
     ''['' @ ''[scope]'' @ '']'',
     ''project = \"myapp\"'',
     ''env     = \"prod\"'',
     ''allow   = [\"read\", \"write\"]'']"

definition skeletonDocker :: string where
  "skeletonDocker = unlines [
     ''# /etc/tailkitd/integrations/docker.toml'',
     ''# Generated by: tailkitd install'',
     ''# Only written when /var/run/docker.sock is present at install time.'',
     ''#'',
     ''# Per-section: set enabled = false to block the entire section (returns 403).'',
     ''# allow lists the permitted operations within each enabled section.'',
     ''# Restart tailkitd after editing this file.'',
     [],
     ''[containers]'',
     ''enabled = true'',
     ''# Valid: list, inspect, logs, stats, start, stop, restart, remove'',
     ''# \"remove\" is excluded from the default - destructive and not easily undone.'',
     ''allow = [\"list\", \"inspect\", \"logs\", \"stats\", \"start\", \"stop\", \"restart\"]'',
     [],
     ''[images]'',
     ''enabled = true'',
     ''# Valid: list, pull'',
     ''# \"pull\" is excluded from the default - adds supply-chain risk.'',
     ''allow = [\"list\"]'',
     [],
     ''[compose]'',
     ''enabled = true'',
     ''# Valid: list, up, down, pull, restart, build'',
     ''# \"build\" is excluded from the default - executes arbitrary build context.'',
     ''allow = [\"list\", \"up\", \"down\", \"restart\"]'',
     [],
     ''[swarm]'',
     ''# Disabled by default. Swarm write ops affect the entire cluster immediately.'',
     ''# Set enabled = true and add \"read\" (and optionally \"write\") only when needed.'',
     ''enabled = false'',
     ''# Valid: read, write'',
     ''allow = [\"read\"]'']"

definition skeletonSystemd :: string where
  "skeletonSystemd = unlines [
     ''# /etc/tailkitd/integrations/systemd.toml'',
     ''# Generated by: tailkitd install'',
     ''# Only written when systemd is PID 1 at install time.'',
     ''#'',
     ''# Restart tailkitd after editing this file.'',
     [],
     ''[units]'',
     ''enabled = true'',
     ''# Valid: list, inspect, unit_file, logs, start, stop, restart, reload, enable, disable'',
     ''# \"enable\" and \"disable\" are excluded from the default - they persist across reboots.'',
     ''allow = [\"list\", \"inspect\", \"unit_file\", \"logs\", \"start\", \"stop\", \"restart\", \"reload\"]'',
     [],
     ''[journal]'',
     ''enabled = true'',
     ''# Minimum log severity to return.'',
     ''# Valid: emerg, alert, crit, err, warning, notice, info, debug'',
     ''priority = \"info\"'',
     ''# Default number of journal lines returned per request. Must be > 0.'',
     ''lines = 100'',
     ''# Permit GET /integrations/systemd/journal (system-wide journal).'',
     ''# false restricts to per-unit journal only - system journal may expose secrets'',
     ''# from unrelated services. Enable only when you need it.'',
     ''system_journal = false'']"

definition unitContent :: string where
  "unitContent = unlines [
     ''[Unit]'',
     ''Description=tailkitd node agent'',
     ''Documentation=https://github.com/wf-pro-dev/tailkitd'',
     ''After=network-online.target'',
     ''Wants=network-online.target'',
     ''ConditionPathExists=/etc/tailkitd'',
     ''StartLimitBurst=5'',
     ''StartLimitIntervalSec=120s'',
     [],
     ''[Service]'',
     ''Type=notify'',
     ''NotifyAccess=main'',
     ''WatchdogSec=30s'',
     [],
     ''User=tailkitd'',
     ''Group=tailkitd'',
     [],
     ''EnvironmentFile=/etc/tailkitd/env'',
     ''ExecStart=/usr/local/bin/tailkitd'',
     [],
     ''Restart=on-failure'',
     ''RestartSec=5s'',
     [],
     ''# Filesystem sandboxing'',
     ''ProtectSystem=strict'',
     ''ReadWritePaths=/etc/tailkitd /var/lib/tailkitd /var/log/tailkitd'',
     ''PrivateTmp=true'',
     [],
     ''# Nodes that do not use write_as are unaffected - the capabilities are present'',
     ''# but never exercised.'',
     ''# NoNewPrivileges is intentionally absent: that flag sets PR_SET_NO_NEW_PRIVS'',
     ''# which makes setuid(2) return EPERM on all threads regardless of capabilities,'',
     ''# breaking the per-thread identity drop that write_as relies on.'',
     ''AmbientCapabilities=CAP_SETUID CAP_SETGID'',
     ''CapabilityBoundingSet=CAP_SETUID CAP_SETGID'',
     [],
     ''[Install]'',
     ''WantedBy=multi-user.target'']"

end
