(* ===== verification/Replace.thy ===== *)
theory Replace
  imports ConfDir
begin

text \<open>
  The replacement of a file without a sync that \<^verbatim>\<open>internal/vars/store.go\<close> and \<^verbatim>\<open>internal/files/handlers.go\<close> each spell
  out: a temporary file in the target's directory, the data, the mode, close, rename, and the temporary
  file removed on return. The lemma \<open>replace_cases\<close> is their common outcome.
\<close>

definition replace_file :: "string \<Rightarrow> string \<Rightarrow> string \<Rightarrow> nat \<Rightarrow> unit io" where
  "replace_file dir path data perm =
     io_bind (os_CreateTemp dir) (\<lambda>t.
       defer_remove t
         (io_bind (tmp_Write t data) (\<lambda>_.
          io_bind (tmp_Chmod t perm) (\<lambda>_.
          io_bind (tmp_Close t) (\<lambda>_.
          os_Rename t path)))))"

text \<open>What all replacements share: calls on the temporary file alone, and then the rename.\<close>

lemma quiet_bind:
  assumes "quiet m" "\<And>a. quiet (f a)" shows "quiet (io_bind m f)"
  unfolding quiet_def
proof
  fix w
  obtain r w' where run: "io_bind m f w = (r, w')" by fastforce
  then show "same_files w (snd (io_bind m f w))"
  proof (cases rule: io_bind_cases)
    case (err e) then show ?thesis using quietD [OF assms(1)] run by simp
  next
    case (ok a w1)
    then show ?thesis using same_files_trans [OF quietD [OF assms(1) ok(1)] quietD [OF assms(2) ok(2)]] run by simp
  qed
qed

lemma io_bind_assoc: "io_bind (io_bind m f) g = io_bind m (\<lambda>a. io_bind (f a) g)"
  by (auto simp: io_bind_def fun_eq_iff split: prod.splits sum.splits)

lemma temp_replace:
  assumes run: "io_bind (os_CreateTemp dir) (\<lambda>t. defer_remove t (io_bind (m t) (\<lambda>_. os_Rename t path))) w = (r, w')"
    and quiet: "\<And>t. quiet (m t)"
    and ready: "\<And>t w w1 u. m t w = (Inr u, w1) \<Longrightarrow> map_of (w_temps w) t = Some \<lparr>f_data = [], f_perm = 384\<rparr> \<Longrightarrow> map_of (w_temps w1) t = Some f"
  shows "(\<exists>e. r = Inl e \<and> same_files w w') \<or> (r = Inr () \<and> wrote path f w w')"
  using run
proof (cases rule: io_bind_cases)
  case (err e) then show ?thesis using quietD [OF quiet_ops(1)] by blast
next
  case (ok t w1)
  note s1 = quietD [OF quiet_ops(1) ok(1)] and t1 = CreateTemp_Inr [OF ok(1)]
  from ok(2) obtain w2 where body: "io_bind (m t) (\<lambda>_. os_Rename t path) w1 = (r, w2)" and w': "w' = snd (tmp_Remove t w2)"
    by (auto simp: defer_remove_def split: prod.splits)
  have s2: "same_files w2 w'" using w' quiet_ops(6) by (simp add: quiet_def)
  from body have "(\<exists>e. r = Inl e \<and> same_files w1 w2) \<or> (r = Inr () \<and> wrote path f w1 w2)"
  proof (cases rule: io_bind_cases)
    case (err e) then show ?thesis using quietD [OF quiet] by blast
  next
    case (ok u w3)
    from Rename_cases [OF ok(2) ready [OF ok(1) t1]] show ?thesis
      using quietD [OF quiet ok(1)] same_files_trans wrote_trans(1) by blast
  qed
  then show ?thesis using s1 s2 same_files_trans wrote_trans by blast
qed

lemma replace_cases:
  assumes "replace_file dir path data perm w = (r, w')"
  shows "(\<exists>e. r = Inl e \<and> same_files w w') \<or> (r = Inr () \<and> wrote path \<lparr>f_data = data, f_perm = perm\<rparr> w w')"
proof (rule temp_replace [where m = "\<lambda>t. io_bind (tmp_Write t data) (\<lambda>_. io_bind (tmp_Chmod t perm) (\<lambda>_. tmp_Close t))"])
  show "io_bind (os_CreateTemp dir) (\<lambda>t. defer_remove t (io_bind (io_bind (tmp_Write t data)
      (\<lambda>_. io_bind (tmp_Chmod t perm) (\<lambda>_. tmp_Close t))) (\<lambda>_. os_Rename t path))) w = (r, w')"
    using assms by (simp add: replace_file_def io_bind_assoc)
qed (auto intro!: quiet_bind quiet_ops elim!: io_bind_cases dest!: tmp_calls_Inr)

lemma replace_other: "replace_file d p data perm w = (r, w') \<Longrightarrow> clean q \<noteq> clean p \<Longrightarrow> get_file w' q = get_file w q"
  using replace_cases wrote_get same_files_get by metis

lemma replace_fault_free:
  assumes "fault_free w" "clean d \<in> set (w_dirs w)" "clean p \<notin> set (w_dirs w)"
  shows "fst (replace_file d p data perm w) = Inr ()"
  using assms
  by (simp add: replace_file_def os_CreateTemp_def io_bind_def io_call_fault_free defer_remove_def
      tmp_Chmod_def tmp_Write_def tmp_Close_def tmp_append_def tmp_update_def os_Rename_def put_file_def)

lemma ff_replace: "io_keeps fault_free (replace_file d p data perm)"
  unfolding replace_file_def by (intro io_keeps_bind ff_defer ff_ops)

end
