(* ===== verification/Installer.thy ===== *)
theory Installer
  imports Skeletons Replace Config Logging AdminBootstrap
begin

text \<open>
  The installer (\<^verbatim>\<open>internal/setup\<close>): the ten steps of \<open>Install\<close>, \<open>Uninstall\<close>, and the checks of \<open>Verify\<close>. Other programs are
  a parameter: whether a command succeeds and what it prints may depend on all commands run before. They are taken
  not to touch the installer's own files. Progress output is not modelled.
\<close>

section \<open>The machine\<close>

datatype install_error = Cause io_error | CommandFails | LookupFails | NoAnswer | InState string | CheckErrors nat | At string install_error

text \<open>
  The files with their owners and directory modes, and the commands run so far. A dead world is a dead installer: it runs no commands.
\<close>

record machine =
  m_world :: world
  m_owner :: "(string \<times> int \<times> int) list"
  m_modes :: "(string \<times> nat) list"
  m_calls :: "string list list"

record host_env =
  he_command :: "string list list \<Rightarrow> string option"
  he_time :: "string list list \<Rightarrow> nat"
  he_user :: "string list list \<Rightarrow> (string \<times> string) option"
  he_group :: "string list list \<Rightarrow> string option"
  he_hostname :: "string option"
  he_executable :: "string option"
  he_docker_sock :: "bool option"
  he_init :: "string option"

type_synonym 'a inst = "machine \<Rightarrow> (install_error + 'a) \<times> machine"

definition inst_return :: "'a \<Rightarrow> 'a inst" where
  "inst_return a s = (Inr a, s)"

definition inst_fail :: "install_error \<Rightarrow> 'a inst" where
  "inst_fail e s = (Inl e, s)"

definition inst_bind :: "'a inst \<Rightarrow> ('a \<Rightarrow> 'b inst) \<Rightarrow> 'b inst" where
  "inst_bind m f s = (case m s of (Inl e, s') \<Rightarrow> (Inl e, s') | (Inr a, s') \<Rightarrow> f a s')"

definition at :: "string \<Rightarrow> 'a inst \<Rightarrow> 'a inst" where
  "at label m s = (case m s of (Inl e, s') \<Rightarrow> (Inl (At label e), s') | (Inr a, s') \<Rightarrow> (Inr a, s'))"

definition on_world :: "'a io \<Rightarrow> 'a inst" where
  "on_world m s =
     (case m (m_world s) of
        (Inl e, w) \<Rightarrow> (Inl (Cause e), s\<lparr>m_world := w\<rparr>)
      | (Inr a, w) \<Rightarrow> (Inr a, s\<lparr>m_world := w\<rparr>))"

text \<open>A command's output if it succeeds, and \<open>run\<close>, which looks only at its success.\<close>

definition command :: "host_env \<Rightarrow> string list \<Rightarrow> machine \<Rightarrow> string option \<times> machine" where
  "command e args s =
     (if w_dead (m_world s) then (None, s)
      else (he_command e (m_calls s @ [args]), s\<lparr>m_calls := m_calls s @ [args]\<rparr>))"

definition run :: "host_env \<Rightarrow> string list \<Rightarrow> unit inst" where
  "run e args s = (case command e args s of (None, s') \<Rightarrow> (Inl CommandFails, s') | (Some _, s') \<Rightarrow> (Inr (), s'))"

definition runOutput :: "host_env \<Rightarrow> string list \<Rightarrow> string inst" where
  "runOutput e args s =
     (case command e args s of (None, s') \<Rightarrow> (Inl CommandFails, s') | (Some out, s') \<Rightarrow> (Inr (trim_space out), s'))"

definition os_Chown :: "string \<Rightarrow> int \<Rightarrow> int \<Rightarrow> unit inst" where
  "os_Chown p uid gid =
     inst_bind (on_world (os_Stat p)) (\<lambda>_ s. (Inr (), s\<lparr>m_owner := AList.update (clean p) (uid, gid) (m_owner s)\<rparr>))"

text \<open>New directories belong to root and get the mode of the call.\<close>

definition make_dirs :: "string \<Rightarrow> nat \<Rightarrow> unit inst" where
  "make_dirs p mode s =
     (case on_world (os_MkdirAll p) s of
        (r, s') \<Rightarrow>
          (let new = filter (\<lambda>d. d \<notin> set (w_dirs (m_world s))) (w_dirs (m_world s'))
           in (r, s'\<lparr>m_owner := fold (\<lambda>d. AList.update d (0, 0)) new (m_owner s'),
                    m_modes := fold (\<lambda>d. AList.update d mode) new (m_modes s')\<rparr>)))"

text \<open>The number \<open>strconv.Atoi\<close> returns where its error is dropped.\<close>

definition atoi_value :: "string \<Rightarrow> int" where
  "atoi_value s =
     (case parse_int s of
        Inr i \<Rightarrow> i
      | Inl ErrRange \<Rightarrow> (if has_prefix s ''-'' then int64_min else int64_max)
      | Inl ErrSyntax \<Rightarrow> 0)"

section \<open>Layout\<close>

definition daemonUser :: string where "daemonUser = ''tailkitd''"
definition daemonGroup :: string where "daemonGroup = ''tailkitd''"
definition binaryDst :: string where "binaryDst = ''/usr/local/bin/tailkitd''"
definition configDir :: string where "configDir = ''/etc/tailkitd''"
definition integrDir :: string where "integrDir = ''/etc/tailkitd/integrations''"
definition toolsDir :: string where "toolsDir = ''/etc/tailkitd/tools''"
definition loggingFile :: string where "loggingFile = ''/etc/tailkitd/logging.toml''"
definition stateDir :: string where "stateDir = ''/var/lib/tailkitd''"
definition recvDir :: string where "recvDir = ''/var/lib/tailkitd/recv''"
definition logDir :: string where "logDir = ''/var/log/tailkitd''"
definition envFile :: string where "envFile = ''/etc/tailkitd/env''"
definition unitFile :: string where "unitFile = ''/etc/systemd/system/tailkitd.service''"

record integrations =
  in_Docker :: bool
  in_Systemd :: bool

definition dockerPresent :: "host_env \<Rightarrow> bool" where
  "dockerPresent e \<longleftrightarrow> he_docker_sock e = Some True"

definition systemdPresent :: "host_env \<Rightarrow> bool" where
  "systemdPresent e \<longleftrightarrow> (case he_init e of None \<Rightarrow> False | Some target \<Rightarrow> contains target ''systemd'')"

definition detectIntegrations :: "host_env \<Rightarrow> integrations" where
  "detectIntegrations e = \<lparr>in_Docker = dockerPresent e, in_Systemd = systemdPresent e\<rparr>"

definition ensure_entry :: "host_env \<Rightarrow> string list \<Rightarrow> string list \<Rightarrow> unit inst" where
  "ensure_entry e look create s =
     (case run e look s of
        (Inr _, s') \<Rightarrow> (Inr (), s')
      | (Inl _, s') \<Rightarrow> run e create s')"

definition ensureUser :: "host_env \<Rightarrow> bool \<Rightarrow> unit inst" where
  "ensureUser e withDocker =
     inst_bind (at ''create group tailkitd'' (ensure_entry e [''getent'', ''group'', daemonGroup] [''groupadd'', ''--system'', daemonGroup])) (\<lambda>_.
     inst_bind (at ''create user tailkitd'' (ensure_entry e [''getent'', ''passwd'', daemonUser]
         [''useradd'', ''--system'', ''--no-create-home'', ''--shell'', ''/usr/sbin/nologin'', ''--gid'', daemonGroup, daemonUser])) (\<lambda>_.
     if withDocker then at ''add tailkitd to docker group'' (run e [''usermod'', ''-aG'', ''docker'', daemonUser])
     else inst_return ()))"

definition install_dirs :: "(string \<times> nat) list" where
  "install_dirs = [(configDir, 493), (integrDir, 493), (toolsDir, 493), (stateDir, 448), (recvDir, 493), (logDir, 493)]"

fun each_dir :: "int \<Rightarrow> int \<Rightarrow> (string \<times> nat) list \<Rightarrow> unit inst" where
  "each_dir uid gid [] = inst_return ()"
| "each_dir uid gid ((p, mode) # ds) =
     inst_bind (at (''mkdir '' @ p) (make_dirs p mode)) (\<lambda>_.
     inst_bind (at (''chown '' @ p) (os_Chown p uid gid)) (\<lambda>_.
     each_dir uid gid ds))"

definition ensureDirectories :: "host_env \<Rightarrow> unit inst" where
  "ensureDirectories e s =
     (case he_user e (m_calls s) of
        None \<Rightarrow> (Inl (At ''lookup user tailkitd'' LookupFails), s)
      | Some (uid, gid) \<Rightarrow> each_dir (atoi_value uid) (atoi_value gid) install_dirs s)"

text \<open>The installer's own atomic write. The new file belongs to root.\<close>

definition replace_install :: "string \<Rightarrow> string \<Rightarrow> nat \<Rightarrow> unit io" where
  "replace_install path data mode =
     io_bind (os_CreateTemp (dir_of path)) (\<lambda>t.
       defer_remove t
         (io_bind (tmp_Chmod t mode) (\<lambda>_.
          io_bind (tmp_Write t data) (\<lambda>_.
          io_bind (tmp_Close t) (\<lambda>_.
          os_Rename t path)))))"

definition install_atomicWrite :: "string \<Rightarrow> string \<Rightarrow> nat \<Rightarrow> unit inst" where
  "install_atomicWrite path data mode =
     inst_bind (at (''atomicWrite '' @ path) (on_world (replace_install path data mode)))
       (\<lambda>_ s. (Inr (), s\<lparr>m_owner := AList.update (clean path) (0, 0) (m_owner s)\<rparr>))"

definition writeIfAbsent :: "string \<Rightarrow> string \<Rightarrow> nat \<Rightarrow> unit inst" where
  "writeIfAbsent path content mode s =
     (case on_world (os_Stat path) s of
        (Inr _, s') \<Rightarrow> (Inr (), s')
      | (Inl _, s') \<Rightarrow> install_atomicWrite path content mode s')"

definition config_files :: "integrations \<Rightarrow> (string \<times> string) list" where
  "config_files i =
     [(loggingFile, skeletonLogging),
      (join_path [integrDir, ''metrics.toml''], skeletonMetrics),
      (join_path [integrDir, ''files.toml''], skeletonFiles),
      (join_path [integrDir, ''vars.toml''], skeletonVars)] @
     (if in_Docker i then [(join_path [integrDir, ''docker.toml''], skeletonDocker)] else []) @
     (if in_Systemd i then [(join_path [integrDir, ''systemd.toml''], skeletonSystemd)] else [])"

fun each_file :: "(string \<times> string) list \<Rightarrow> unit inst" where
  "each_file [] = inst_return ()"
| "each_file ((p, content) # fs) = inst_bind (writeIfAbsent p content 420) (\<lambda>_. each_file fs)"

definition writeConfigFiles :: "integrations \<Rightarrow> unit inst" where
  "writeConfigFiles i = each_file (config_files i)"

definition env_text :: "string \<Rightarrow> string \<Rightarrow> string \<Rightarrow> string" where
  "env_text authKey hostname tailscaleIP =
     unlines [''TS_AUTHKEY='' @ authKey, ''TAILKITD_HOSTNAME=tailkitd-'' @ hostname, ''TAILKITD_ENV=production'', ''HOST_TAILSCALE_IP='' @ tailscaleIP]"

definition getHostTailscaleIP :: "host_env \<Rightarrow> string inst" where
  "getHostTailscaleIP e s =
     (case command e [''tailscale'', ''ip'', ''-4''] s of
        (None, s') \<Rightarrow> (Inl (At ''execute tailscale ip -4'' CommandFails), s')
      | (Some out, s') \<Rightarrow> (Inr out, s'))"

definition install_hostname :: "host_env \<Rightarrow> string \<Rightarrow> string inst" where
  "install_hostname e hostname =
     (if hostname \<noteq> [] then inst_return hostname
      else (case he_hostname e of None \<Rightarrow> inst_fail (At ''resolve hostname'' LookupFails) | Some h \<Rightarrow> inst_return h))"

definition own_env_file :: "host_env \<Rightarrow> unit inst" where
  "own_env_file e s =
     (case he_group e (m_calls s) of
        None \<Rightarrow> (Inl (At ''lookup group tailkitd'' LookupFails), s)
      | Some gid \<Rightarrow> os_Chown envFile 0 (atoi_value gid) s)"

definition write_env_once :: "host_env \<Rightarrow> string \<Rightarrow> string \<Rightarrow> string \<Rightarrow> unit inst" where
  "write_env_once e authKey h ip s =
     (case on_world (os_Stat envFile) s of
        (Inr _, s') \<Rightarrow> (Inr (), s')
      | (Inl _, s') \<Rightarrow> inst_bind (install_atomicWrite envFile (env_text authKey h ip) 416) (\<lambda>_. own_env_file e) s')"

definition writeEnvFile :: "host_env \<Rightarrow> string \<Rightarrow> string \<Rightarrow> unit inst" where
  "writeEnvFile e authKey hostname =
     inst_bind (install_hostname e hostname) (\<lambda>h.
     inst_bind (at ''get host tailscale IP'' (getHostTailscaleIP e)) (\<lambda>ip.
     write_env_once e authKey h ip))"

definition installBinary :: "host_env \<Rightarrow> unit inst" where
  "installBinary e =
     (case he_executable e of
        None \<Rightarrow> inst_fail (At ''resolve binary path'' LookupFails)
      | Some self \<Rightarrow>
          inst_bind (at ''read binary'' (on_world (os_ReadFile self))) (\<lambda>src.
            at ''write binary'' (install_atomicWrite binaryDst src 493)))"

section \<open>The service\<close>

definition writeUnitFile :: "unit inst" where
  "writeUnitFile = at ''write unit file'' (install_atomicWrite unitFile unitContent 420)"

definition enableService :: "host_env \<Rightarrow> unit inst" where
  "enableService e =
     inst_bind (at ''daemon-reload'' (run e [''systemctl'', ''daemon-reload''])) (\<lambda>_.
       at ''enable tailkitd'' (run e [''systemctl'', ''enable'', ''tailkitd'']))"

text \<open>
  Waiting for the service: one query a second until a minute has passed on the clock, and a last one. Times are in
  nanoseconds; \<open>he_time\<close> is how long a query takes beyond the second slept after it.
\<close>

definition service_state :: "host_env \<Rightarrow> string inst" where
  "service_state e = inst_bind (runOutput e [''systemctl'', ''is-active'', ''tailkitd'']) (\<lambda>out. inst_return (trim_space out))"

function wait_active :: "host_env \<Rightarrow> int \<Rightarrow> int \<Rightarrow> unit inst" where
  "wait_active e now deadline s =
     (if now < deadline then
        (case service_state e s of
           (r, s') \<Rightarrow>
             if r = Inr ''active'' then (Inr (), s')
             else if r = Inr ''failed'' then (Inl (InState ''failed''), s')
             else wait_active e (now + 1000000000 + int (he_time e (m_calls s'))) deadline s')
      else
        (case service_state e s of
           (r, s') \<Rightarrow> (if r = Inr ''active'' then Inr () else Inl NoAnswer, s')))"
  by pat_completeness auto
termination by (relation "measure (\<lambda>(e, now, deadline, s). nat (deadline - now))") auto

declare wait_active.simps [simp del]

definition startService :: "host_env \<Rightarrow> unit inst" where
  "startService e =
     inst_bind (at ''start tailkitd'' (run e [''systemctl'', ''start'', ''tailkitd''])) (\<lambda>_. wait_active e 0 60000000000)"

definition ignore :: "'a inst \<Rightarrow> unit inst" where
  "ignore m s = (Inr (), snd (m s))"

definition disableService :: "host_env \<Rightarrow> unit inst" where
  "disableService e =
     inst_bind (ignore (run e [''systemctl'', ''stop'', ''tailkitd''])) (\<lambda>_.
     inst_bind (ignore (run e [''systemctl'', ''disable'', ''tailkitd''])) (\<lambda>_.
     ignore (run e [''systemctl'', ''daemon-reload''])))"

definition remove_if_there :: "string \<Rightarrow> unit inst" where
  "remove_if_there p s =
     (case on_world (os_Remove p) s of
        (Inl e, s') \<Rightarrow> (if e = Cause ENOENT then Inr () else Inl e, s')
      | (Inr _, s') \<Rightarrow> (Inr (), s'))"

definition removeUnitFile :: "unit inst" where
  "removeUnitFile = at ''remove unit file'' (remove_if_there unitFile)"

section \<open>Verification\<close>

datatype checkLevel = levelOK | levelWarn | levelError

datatype check_message = Text string | ConfigSays config_error | FileSays io_error

record checkResult =
  cr_level :: checkLevel
  cr_label :: string
  cr_message :: check_message

type_synonym report = "checkResult list"

definition HasErrors :: "report \<Rightarrow> bool" where
  "HasErrors r \<longleftrightarrow> list_ex (\<lambda>c. cr_level c = levelError) r"

definition HasWarnings :: "report \<Rightarrow> bool" where
  "HasWarnings r \<longleftrightarrow> list_ex (\<lambda>c. cr_level c = levelWarn) r"

definition report_Errors :: "report \<Rightarrow> nat" where
  "report_Errors r = length (filter (\<lambda>c. cr_level c = levelError) r)"

definition report_Warnings :: "report \<Rightarrow> nat" where
  "report_Warnings r = length (filter (\<lambda>c. cr_level c = levelWarn) r)"

definition check :: "checkLevel \<Rightarrow> string \<Rightarrow> check_message \<Rightarrow> report \<Rightarrow> report" where
  "check level label msg r = r @ [\<lparr>cr_level = level, cr_label = label, cr_message = msg\<rparr>]"

definition has_bit :: "nat \<Rightarrow> nat \<Rightarrow> bool" where
  "has_bit mode b \<longleftrightarrow> odd (mode div b)"

text \<open>The permission bits of what \<open>os.Stat\<close> found.\<close>

definition mode_at :: "string \<Rightarrow> machine \<Rightarrow> nat" where
  "mode_at p s =
     (case get_file (m_world s) p of
        Some f \<Rightarrow> f_perm f
      | None \<Rightarrow> (case map_of (m_modes s) (clean p) of Some mode \<Rightarrow> mode | None \<Rightarrow> 493))"

type_synonym checker = "report \<Rightarrow> machine \<Rightarrow> report \<times> machine"

definition checkBinary :: "host_env \<Rightarrow> checker" where
  "checkBinary e r s =
     (case on_world (os_Stat binaryDst) s of
        (Inl _, s1) \<Rightarrow> (check levelError ''binary'' (Text (binaryDst @ '' not found'')) r, s1)
      | (Inr _, s1) \<Rightarrow>
          if \<not> (has_bit (mode_at binaryDst s1) 64 \<or> has_bit (mode_at binaryDst s1) 8 \<or> has_bit (mode_at binaryDst s1) 1)
          then (check levelError ''binary'' (Text (binaryDst @ '' is not executable'')) r, s1)
          else (case runOutput e [binaryDst, ''--version''] s1 of
                  (Inl _, s2) \<Rightarrow> (check levelOK ''binary'' (Text (binaryDst @ '' present'')) r, s2)
                | (Inr out, s2) \<Rightarrow> (check levelOK ''binary'' (Text (binaryDst @ '' ('' @ out @ '')'')) r, s2)))"

definition setup_splitLines :: "string \<Rightarrow> string list" where
  "setup_splitLines s = filter (\<lambda>l. l \<noteq> []) (split_on (CHR 0x0A) s)"

definition auth_line :: "string \<Rightarrow> bool" where
  "auth_line line \<longleftrightarrow> length line > 11 \<and> take 11 line = ''TS_AUTHKEY='' \<and> drop 11 line \<noteq> []"

definition checkEnvFile :: checker where
  "checkEnvFile r s =
     (case on_world (os_Stat envFile) s of
        (Inl _, s1) \<Rightarrow> (check levelError ''env'' (Text (envFile @ '' not found'')) r, s1)
      | (Inr _, s1) \<Rightarrow>
          (let r1 = (if has_bit (mode_at envFile s1) 4
                     then check levelWarn ''env'' (Text (envFile @ '' is world-readable (expected 0640)'')) r
                     else check levelOK ''env'' (Text envFile) r)
           in case on_world (os_ReadFile envFile) s1 of
                (Inl (Cause x), s2) \<Rightarrow> (check levelError ''env'' (FileSays x) r1, s2)
              | (Inl _, s2) \<Rightarrow> (r1, s2)
              | (Inr env, s2) \<Rightarrow>
                  (if list_ex auth_line (setup_splitLines env) then r1
                   else check levelError ''env'' (Text (''TS_AUTHKEY is missing or empty in '' @ envFile)) r1, s2)))"

fun check_dirs :: "string list \<Rightarrow> checker" where
  "check_dirs [] r s = (r, s)"
| "check_dirs (d # ds) r s =
     (case on_world (os_Stat d) s of
        (Inl _, s1) \<Rightarrow> check_dirs ds (check levelError ''dirs'' (Text (d @ '' missing'')) r) s1
      | (Inr _, s1) \<Rightarrow> check_dirs ds r s1)"

definition checkDirectories :: checker where
  "checkDirectories r s =
     (case check_dirs [configDir, integrDir, toolsDir, stateDir, recvDir] r s of
        (r1, s1) \<Rightarrow> (if HasErrors r1 then r1 else check levelOK ''dirs'' (Text ''all required directories present'') r1, s1))"

definition checkUnitFile :: "host_env \<Rightarrow> checker" where
  "checkUnitFile e r s =
     (case on_world (os_Stat unitFile) s of
        (Inl _, s1) \<Rightarrow> (check levelError ''unit file'' (Text (unitFile @ '' not found'')) r, s1)
      | (Inr _, s1) \<Rightarrow>
          (case run e [''systemctl'', ''cat'', ''tailkitd''] s1 of
             (Inl _, s2) \<Rightarrow> (check levelWarn ''unit file'' (Text ''present but systemctl cannot read it - run: systemctl daemon-reload'') r, s2)
           | (Inr _, s2) \<Rightarrow> (check levelOK ''unit file'' (Text unitFile) r, s2)))"

text \<open>The decoders of the five integration files, and the user database.\<close>

record decoders =
  de_metrics :: "string \<Rightarrow> metrics_config option"
  de_files :: "string \<Rightarrow> files_config option"
  de_vars :: "string \<Rightarrow> vars_config option"
  de_docker :: "string \<Rightarrow> docker_config option"
  de_systemd :: "string \<Rightarrow> systemd_config option"
  de_users :: "string \<Rightarrow> (string \<times> string) option"

definition MetricsConfigPath :: string where "MetricsConfigPath = ''/etc/tailkitd/integrations/metrics.toml''"
definition FilesConfigPath :: string where "FilesConfigPath = ''/etc/tailkitd/integrations/files.toml''"
definition VarsConfigPath :: string where "VarsConfigPath = ''/etc/tailkitd/integrations/vars.toml''"
definition DockerConfigPath :: string where "DockerConfigPath = ''/etc/tailkitd/integrations/docker.toml''"
definition SystemdConfigPath :: string where "SystemdConfigPath = ''/etc/tailkitd/integrations/systemd.toml''"

definition LoadMetricsConfig :: "decoders \<Rightarrow> world \<Rightarrow> (config_error + metrics_config) \<times> world" where
  "LoadMetricsConfig d = loadMetricsConfigFrom (de_metrics d) MetricsConfigPath"

definition LoadFilesConfig :: "decoders \<Rightarrow> world \<Rightarrow> (config_error + files_config) \<times> world" where
  "LoadFilesConfig d = loadFilesConfigFrom (de_files d) (de_users d) FilesConfigPath"

definition LoadVarsConfig :: "decoders \<Rightarrow> world \<Rightarrow> (config_error + vars_config) \<times> world" where
  "LoadVarsConfig d = loadVarsConfigFrom (de_vars d) VarsConfigPath"

definition LoadDockerConfig :: "decoders \<Rightarrow> world \<Rightarrow> (config_error + docker_config) \<times> world" where
  "LoadDockerConfig d = loadDockerConfigFrom (de_docker d) DockerConfigPath"

definition LoadSystemdConfig :: "decoders \<Rightarrow> world \<Rightarrow> (config_error + systemd_config) \<times> world" where
  "LoadSystemdConfig d = loadSystemdConfigFrom (de_systemd d) SystemdConfigPath"

text \<open>What the five configuration checks share: the loader, the lines for a missing file and for a valid one.\<close>

definition check_config :: "(world \<Rightarrow> (config_error + 'c) \<times> world) \<Rightarrow> ('c \<Rightarrow> bool) \<Rightarrow> string \<Rightarrow> (report \<Rightarrow> report) \<Rightarrow> ('c \<Rightarrow> string) \<Rightarrow> checker" where
  "check_config load enabled label missing valid r s =
     (case load (m_world s) of
        (Inl x, w) \<Rightarrow> (check levelError label (ConfigSays x) r, s\<lparr>m_world := w\<rparr>)
      | (Inr cfg, w) \<Rightarrow>
          (if \<not> enabled cfg then missing r else check levelOK label (Text (valid cfg)) r, s\<lparr>m_world := w\<rparr>))"

definition checkConfigMetrics :: "decoders \<Rightarrow> checker" where
  "checkConfigMetrics d = check_config (LoadMetricsConfig d) mc_Enabled ''metrics.toml''
     (check levelError ''metrics.toml'' (Text ''file missing - metrics.toml is required on all nodes'')) (\<lambda>_. ''valid'')"

definition checkConfigFiles :: "decoders \<Rightarrow> checker" where
  "checkConfigFiles d = check_config (LoadFilesConfig d) fc_Enabled ''files.toml''
     (check levelError ''files.toml'' (Text ''file missing - files.toml is required on all nodes''))
     (\<lambda>cfg. ''valid - '' @ nat_to_dec (length (fc_Paths cfg)) @ '' path rule(s)'')"

definition checkConfigVars :: "decoders \<Rightarrow> checker" where
  "checkConfigVars d = check_config (LoadVarsConfig d) vc_Enabled ''vars.toml''
     (check levelError ''vars.toml'' (Text ''file missing - vars.toml is required on all nodes''))
     (\<lambda>cfg. ''valid - '' @ nat_to_dec (length (vc_Scopes cfg)) @ '' scope(s)'')"

definition checkConfigDocker :: "host_env \<Rightarrow> decoders \<Rightarrow> checker" where
  "checkConfigDocker e d = check_config (LoadDockerConfig d) dk_Enabled ''docker.toml''
     (if dockerPresent e
      then check levelWarn ''docker.toml'' (Text ''Docker socket found but docker.toml is missing - integration disabled'')
      else check levelOK ''docker.toml'' (Text ''not present - Docker not installed (integration disabled)'')) (\<lambda>_. ''valid'')"

definition checkConfigSystemd :: "host_env \<Rightarrow> decoders \<Rightarrow> checker" where
  "checkConfigSystemd e d = check_config (LoadSystemdConfig d) sd_Enabled ''systemd.toml''
     (if systemdPresent e
      then check levelWarn ''systemd.toml'' (Text ''systemd is PID 1 but systemd.toml is missing - integration disabled'')
      else check levelOK ''systemd.toml'' (Text ''not present - systemd not running (integration disabled)'')) (\<lambda>_. ''valid'')"

fun run_checks :: "checker list \<Rightarrow> checker" where
  "run_checks [] r s = (r, s)"
| "run_checks (c # cs) r s = (case c r s of (r1, s1) \<Rightarrow> run_checks cs r1 s1)"

definition checkers :: "host_env \<Rightarrow> decoders \<Rightarrow> checker list" where
  "checkers e d = [checkBinary e, checkEnvFile, checkDirectories, checkUnitFile e, checkConfigMetrics d, checkConfigFiles d,
     checkConfigVars d, checkConfigDocker e d, checkConfigSystemd e d]"

definition Verify :: "host_env \<Rightarrow> decoders \<Rightarrow> machine \<Rightarrow> report \<times> machine" where
  "Verify e d = run_checks (checkers e d) []"

section \<open>Install and uninstall\<close>

definition step :: "nat \<Rightarrow> unit inst \<Rightarrow> unit inst" where
  "step n = at (''step '' @ nat_to_dec n)"

definition verified :: "host_env \<Rightarrow> decoders \<Rightarrow> unit inst" where
  "verified e d s =
     (case Verify e d s of
        (r, s') \<Rightarrow> (if HasErrors r then Inl (CheckErrors (report_Errors r)) else Inr (), s'))"

definition prepare :: "host_env \<Rightarrow> string \<Rightarrow> string \<Rightarrow> unit inst" where
  "prepare e authKey hostname =
     (let i = detectIntegrations e in
      inst_bind (step 2 (ensureUser e (in_Docker i))) (\<lambda>_.
      inst_bind (step 3 (ensureDirectories e)) (\<lambda>_.
      inst_bind (step 4 (writeConfigFiles i)) (\<lambda>_.
      inst_bind (step 5 (writeEnvFile e authKey hostname)) (\<lambda>_.
      inst_bind (step 6 (installBinary e)) (\<lambda>_.
      inst_bind (step 7 writeUnitFile) (\<lambda>_.
      step 8 (enableService e))))))))"

definition Install :: "host_env \<Rightarrow> decoders \<Rightarrow> string \<Rightarrow> string \<Rightarrow> unit inst" where
  "Install e d authKey hostname =
     inst_bind (prepare e authKey hostname) (\<lambda>_.
     inst_bind (verified e d) (\<lambda>_.
     step 10 (startService e)))"

definition Uninstall :: "host_env \<Rightarrow> unit inst" where
  "Uninstall e =
     inst_bind (disableService e) (\<lambda>_.
     inst_bind removeUnitFile (\<lambda>_.
     at ''remove binary'' (remove_if_there binaryDst)))"

end
