(* ===== verification/Startup.thy ===== *)
theory Startup
  imports AdminApi Identity Invite Tools HostApi Logger Installer
begin

text \<open>
  Start-up of the daemon (\<^verbatim>\<open>cmd/tailkitd/run.go\<close>): the steps of \<open>cmdRun\<close> in their order, built from the models of the components it opens.
  What the steps ask of other programs (the local tailscaled, the tsnet library, the Docker and D-Bus clients, fsnotify, the
  random source) and the codecs are fields of the environment. Goroutines that only wait (server, watchdog) are the event that ends them.
\<close>

section \<open>The environment and the running daemon\<close>

record start_env =
  se_getenv :: environ
  se_logging :: "logging_config \<Rightarrow> string \<Rightarrow> logging_config option"
  se_level :: "string \<Rightarrow> level option"
  se_tailscaled :: "peer_status option option"
  se_hostname :: "string option"
  se_keys :: "(string \<times> string) option"
  se_decoders :: decoders
  se_enc_hosts :: host_encoder
  se_dec_hosts :: host_decoder
  se_dec_service :: service_decoder
  se_dec_grants :: grant_decoder
  se_dec_tool :: tool_decoder
  se_claims :: claim_codec
  se_watch :: "string \<Rightarrow> bool"
  se_docker_client :: bool
  se_dbus :: bool
  se_tsnet :: bool
  se_local_client :: bool
  se_peers :: "string option list option option"
  se_random :: "8 word list option"
  se_probe :: "string \<Rightarrow> bool option"
  se_ip4 :: string

record daemon_configs =
  dc_files :: files_config
  dc_vars :: vars_config
  dc_docker :: docker_config
  dc_systemd :: systemd_config
  dc_metrics :: metrics_config

record daemon =
  dm_loggers :: "level built_loggers"
  dm_tailnetName :: string
  dm_tsnetName :: string
  dm_configs :: daemon_configs
  dm_systemd_live :: bool
  dm_node :: node
  dm_exec :: exec_registry
  dm_claims :: claim_store
  dm_hostname :: string
  dm_hostIP :: string
  dm_ip4 :: string
  dm_addr :: string

text \<open>A step fails with the text of the line \<open>cmdRun\<close> logs before it returns 1.\<close>

type_synonym 'a start = "world \<Rightarrow> (string + 'a) \<times> world"

definition start_return :: "'a \<Rightarrow> 'a start" where
  "start_return a w = (Inr a, w)"

definition start_bind :: "'a start \<Rightarrow> ('a \<Rightarrow> 'b start) \<Rightarrow> 'b start" where
  "start_bind m f w = (case m w of (Inl e, w') \<Rightarrow> (Inl e, w') | (Inr a, w') \<Rightarrow> f a w')"

definition must :: "string \<Rightarrow> (world \<Rightarrow> ('e + 'a) \<times> world) \<Rightarrow> 'a start" where
  "must label m w = (case m w of (Inl _, w') \<Rightarrow> (Inl label, w') | (Inr a, w') \<Rightarrow> (Inr a, w'))"

definition must_not :: "string \<Rightarrow> (world \<Rightarrow> 'e option \<times> world) \<Rightarrow> unit start" where
  "must_not label m w = (case m w of (Some _, w') \<Rightarrow> (Inl label, w') | (None, w') \<Rightarrow> (Inr (), w'))"

definition demand :: "string \<Rightarrow> 'a option \<Rightarrow> 'a start" where
  "demand label x w = (case x of None \<Rightarrow> (Inl label, w) | Some a \<Rightarrow> (Inr a, w))"

definition demand_ok :: "string \<Rightarrow> bool \<Rightarrow> unit start" where
  "demand_ok label ok = demand label (if ok then Some () else None)"

section \<open>The steps\<close>

definition LoggingConfigPath :: string where "LoggingConfigPath = ''/etc/tailkitd/logging.toml''"
definition EpochFilePath :: string where "EpochFilePath = ''/etc/tailkitd/state.epoch''"
definition daemonToolsDir :: string where "daemonToolsDir = ''/etc/tailkitd/tools''"

definition LoadLoggingConfig :: "start_env \<Rightarrow> world \<Rightarrow> (logging_error + logging_config) \<times> world" where
  "LoadLoggingConfig e = loadLoggingConfigFrom (se_logging e) (se_getenv e) LoggingConfigPath"

definition resolveTailnetHostname :: "peer_status option option \<Rightarrow> string option" where
  "resolveTailnetHostname st =
     (case st of
        None \<Rightarrow> None
      | Some None \<Rightarrow> None
      | Some (Some self) \<Rightarrow> if ps_HostName self = [] then None else Some (ps_HostName self))"

definition load_configs :: "decoders \<Rightarrow> daemon_configs start" where
  "load_configs d =
     start_bind (must ''files config invalid'' (LoadFilesConfig d)) (\<lambda>files.
     start_bind (must ''vars config invalid'' (LoadVarsConfig d)) (\<lambda>vars.
     start_bind (must ''docker config invalid'' (LoadDockerConfig d)) (\<lambda>docker.
     start_bind (must ''systemd config invalid'' (LoadSystemdConfig d)) (\<lambda>systemd.
     start_bind (must ''metrics config invalid'' (LoadMetricsConfig d)) (\<lambda>metrics.
     start_return \<lparr>dc_files = files, dc_vars = vars, dc_docker = docker, dc_systemd = systemd, dc_metrics = metrics\<rparr>)))))"

definition open_hosts :: "start_env \<Rightarrow> string \<Rightarrow> host_manager start" where
  "open_hosts e tailnet =
     must ''host config invalid''
       (NewHostManager (se_enc_hosts e) (se_dec_hosts e) (se_watch e (dir_of HostsConfigPath)) HostsConfigPath tailnet)"

text \<open>The registries of services, grants and commands, and the mutation epoch.\<close>

definition open_registries :: "start_env \<Rightarrow> (service_registry \<times> access_registry \<times> epoch \<times> exec_registry) start" where
  "open_registries e =
     start_bind (must ''failed to start services registry''
       (services_NewRegistry (se_dec_service e) (se_watch e DefaultServicesDir) DefaultServicesDir)) (\<lambda>services.
     start_bind (must ''failed to start access registry''
       (access_NewRegistry (se_dec_grants e) (se_watch e DefaultAccessDir) DefaultAccessDir)) (\<lambda>access.
     start_bind (must ''failed to initialize node mutation epoch'' (NewEpoch EpochFilePath)) (\<lambda>epoch.
     start_bind (\<lambda>w. case exec_NewRegistry (se_dec_tool e) daemonToolsDir (se_watch e daemonToolsDir) w of
                       (None, w') \<Rightarrow> (Inl ''failed to start exec registry'', w') | (Some r, w') \<Rightarrow> (Inr r, w')) (\<lambda>exec.
     start_return (services, access, epoch, exec)))))"

text \<open>The Docker client, the name of the machine, and the tsnet server with its client and status.\<close>

definition join_tailnet :: "start_env \<Rightarrow> (string \<times> string option list option) start" where
  "join_tailnet e =
     start_bind (demand_ok ''failed to start docker client'' (se_docker_client e)) (\<lambda>_.
     start_bind (demand ''could not determine hostname'' (se_hostname e)) (\<lambda>hostname.
     start_bind (demand_ok ''failed to start tsnet server'' (se_tsnet e)) (\<lambda>_.
     start_bind (demand_ok ''failed to create tailscale local client'' (se_local_client e)) (\<lambda>_.
     start_bind (demand ''failed to read tailscale status'' (se_peers e)) (\<lambda>peers.
     start_return (hostname, peers))))))"

definition start_names :: "start_env \<Rightarrow> (level built_loggers \<times> string \<times> string) start" where
  "start_names e =
     start_bind (must ''failed to load logging config'' (LoadLoggingConfig e)) (\<lambda>log.
     start_bind (must ''failed to initialise logger'' (Build (se_level e) log)) (\<lambda>loggers.
     start_bind (demand ''could not determine tailscale peer hostname'' (resolveTailnetHostname (se_tailscaled e))) (\<lambda>tailnet.
     start_bind (demand ''could not determine node hostname''
       (resolveHostname (se_getenv e ''TAILKITD_HOSTNAME'') tailnet (se_hostname e))) (\<lambda>tsnet.
     start_return (loggers, tailnet, tsnet)))))"

definition listen_addr :: "start_env \<Rightarrow> string" where
  "listen_addr e = (if se_getenv e ''TAILKITD_PORT'' = [] then '':80'' else '':'' @ se_getenv e ''TAILKITD_PORT'')"

definition daemon_start :: "start_env \<Rightarrow> daemon start" where
  "daemon_start e =
     start_bind (start_names e) (\<lambda>(loggers, tailnet, tsnet).
     start_bind (must_not ''failed to initialize artifact identity'' (EnsureArtifactKeys (se_keys e))) (\<lambda>_.
     start_bind (load_configs (se_decoders e)) (\<lambda>configs.
     start_bind (open_hosts e tailnet) (\<lambda>hosts.
     start_bind (open_registries e) (\<lambda>(services, access, epoch, exec).
     start_bind (join_tailnet e) (\<lambda>(hostname, peers).
     start_bind (must ''failed to initialize admin state''
       (BootstrapState (se_random e) (se_probe e) tsnet tailnet peers (hm_Names hosts))) (\<lambda>admin.
     start_bind (must ''failed to initialize invite claim store'' (NewStore (se_claims e) ClaimsStorePath)) (\<lambda>claims.
     start_bind (demand_ok ''could not determine host IP'' (se_getenv e ''HOST_TAILSCALE_IP'' \<noteq> [])) (\<lambda>_.
     start_return
       \<lparr>dm_loggers = loggers, dm_tailnetName = tailnet, dm_tsnetName = tsnet, dm_configs = configs,
        dm_systemd_live = (sd_Enabled (dc_systemd configs) \<and> se_dbus e),
        dm_node = \<lparr>nd_host = hosts, nd_services = services, nd_admin = admin, nd_access = Some access, nd_epoch = Some epoch\<rparr>,
        dm_exec = exec, dm_claims = claims, dm_hostname = hostname, dm_hostIP = se_getenv e ''HOST_TAILSCALE_IP'',
        dm_ip4 = se_ip4 e, dm_addr = listen_addr e\<rparr>)))))))))"

text \<open>
  The rest of \<open>cmdRun\<close>: it waits until a signal or the end of the server, with or without an error, and
  returns the exit code.
\<close>

datatype stop_event = GotSignal | ServerClosed | ServerFailed

definition stop_code :: "stop_event \<Rightarrow> int" where
  "stop_code ev = (case ev of GotSignal \<Rightarrow> 0 | ServerClosed \<Rightarrow> 0 | ServerFailed \<Rightarrow> 1)"

definition cmdRun :: "start_env \<Rightarrow> stop_event \<Rightarrow> world \<Rightarrow> int \<times> world" where
  "cmdRun e ev w =
     (case daemon_start e w of
        (Inl _, w') \<Rightarrow> (1, w')
      | (Inr _, w') \<Rightarrow> (stop_code ev, w'))"

record health =
  he_TailkitName :: string
  he_Hostname :: string
  he_TailkitIP :: string
  he_HostIP :: string

definition handleHealth :: "daemon \<Rightarrow> (health, unit) response" where
  "handleHealth d = WriteJSON 200
     \<lparr>he_TailkitName = dm_tsnetName d, he_Hostname = dm_hostname d, he_TailkitIP = dm_ip4 d, he_HostIP = dm_hostIP d\<rparr>"

end
