(* ===== verification/StartupProps.thy ===== *)
theory StartupProps
  imports Startup
begin

text \<open>Properties of the start-up: what holds of a daemon that starts, and what starting can change on disk.\<close>

section \<open>A daemon that starts is well formed\<close>

lemma start_bind_ok: "start_bind m f w = (Inr b, w'') \<longleftrightarrow> (\<exists>a w'. m w = (Inr a, w') \<and> f a w' = (Inr b, w''))"
  by (auto simp: start_bind_def split: prod.splits sum.splits)

lemma must_ok: "must l m w = (Inr a, w') \<longleftrightarrow> m w = (Inr a, w')"
  by (auto simp: must_def split: prod.splits sum.splits)

lemma must_not_ok: "must_not l m w = (Inr u, w') \<longleftrightarrow> m w = (None, w')"
  by (auto simp: must_not_def split: prod.splits option.splits)

lemma demand_Inr: "demand l x w = (Inr a, w') \<longleftrightarrow> x = Some a \<and> w' = w"
  by (auto simp: demand_def split: option.splits)

lemma demand_ok_Inr: "demand_ok l b w = (Inr u, w') \<longleftrightarrow> b \<and> w' = w"
  by (auto simp: demand_ok_def demand_Inr)

lemma start_return_ok: "start_return a w = (Inr b, w') \<longleftrightarrow> b = a \<and> w' = w"
  by (auto simp: start_return_def)

lemmas start_ok = start_bind_ok must_ok must_not_ok demand_Inr demand_ok_Inr start_return_ok

definition configs_valid :: "daemon_configs \<Rightarrow> bool" where
  "configs_valid c \<longleftrightarrow> (dc_files c = files_zero \<or> fc_Enabled (dc_files c) \<and> files_valid (dc_files c)) \<and>
     (dc_vars c = vars_zero \<or> vc_Enabled (dc_vars c) \<and> vars_valid (dc_vars c)) \<and>
     (dc_docker c = docker_zero \<or> dk_Enabled (dc_docker c) \<and> docker_valid (dc_docker c)) \<and>
     (dc_systemd c = systemd_zero \<or> sd_Enabled (dc_systemd c) \<and> systemd_valid (dc_systemd c)) \<and>
     (dc_metrics c = metrics_zero \<or> mc_Enabled (dc_metrics c) \<and> metrics_valid (dc_metrics c))"

lemma load_configs_valid: "load_configs d w = (Inr c, w') \<Longrightarrow> configs_valid c"
  unfolding load_configs_def start_ok configs_valid_def LoadFilesConfig_def LoadVarsConfig_def LoadDockerConfig_def LoadSystemdConfig_def
    LoadMetricsConfig_def
  by (auto dest: files_loader.load_sound vars_loader.load_sound docker_loader.load_sound systemd_loader.load_sound metrics_loader.load_sound)

lemma EnsureHostConfig_ok:
  assumes "EnsureHostConfig enc toml p n w = (Inr hosts, w')" "n \<noteq> []" shows "hosts_ok hosts"
proof -
  have "hosts = [host_SetDefaults n empty_host] \<or> (\<exists>w1 w2. LoadHostFile toml p w1 = (Inr hosts, w2))"
    using assms(1) by (auto simp: EnsureHostConfig_def Let_def split: prod.splits sum.splits io_error.splits option.splits)
  then show ?thesis
  proof
    assume "hosts = [host_SetDefaults n empty_host]"
    then show ?thesis using assms(2) by (simp add: hosts_ok_def)
  qed (use LoadHostFile_ok in blast)
qed

lemma NewHostManager_wf:
  assumes "NewHostManager enc toml ok p n w = (Inr m, w')" "n \<noteq> []"
  shows "hm_wf m" "hm_selfTailnetName m = n"
proof -
  obtain x w1 where en: "EnsureHostConfig enc toml p n w = (x, w1)" by fastforce
  with assms(1) obtain hosts where x: "x = Inr hosts" by (cases x) (auto simp: NewHostManager_def)
  from assms(1) en x obtain self where self: "resolveSelfHost hosts n = Inr self"
    by (auto simp: NewHostManager_def split: sum.splits)
  have m: "m = \<lparr>hm_hosts = cloneHostConfigs hosts, hm_self = cloneHostConfig self, hm_path = p, hm_selfTailnetName = n\<rparr>"
    using assms(1) en x self by (auto simp: NewHostManager_def split: if_splits)
  then show "hm_selfTailnetName m = n" by simp
  have "hosts_ok hosts" using EnsureHostConfig_ok en x assms(2) by blast
  then show "hm_wf m" by (rule hm_build_wf [OF _ self]) (simp_all add: m)
qed

lemma services_New_wf: "services_NewRegistry toml ok d w = (Inr r, w') \<Longrightarrow> services_wf r"
proof -
  assume run: "services_NewRegistry toml ok d w = (Inr r, w')"
  have "services_wf \<lparr>sr_dir = d, sr_services = []\<rparr>" by (simp add: services_wf_def)
  with run services_Reload_wf show ?thesis
    by (fastforce simp: services_NewRegistry_def split: prod.splits sum.splits if_splits option.splits)
qed

lemma access_New_wf: "access_NewRegistry toml ok d w = (Inr r, w') \<Longrightarrow> access_wf r"
proof -
  assume run: "access_NewRegistry toml ok d w = (Inr r, w')"
  have "access_wf \<lparr>ac_dir = d, ac_grants = []\<rparr>" by (simp add: access_wf_def)
  from Reload_wf_step [OF this] run show ?thesis
    by (auto simp: access_NewRegistry_def split: prod.splits sum.splits if_splits option.splits) (metis fst_conv snd_conv)
qed

lemma parse_int_range: "parse_int s = Inr n \<Longrightarrow> in_int64 n"
  by (simp add: parse_int_def Let_def split: if_splits sum.splits)

lemma NewEpoch_range: "NewEpoch p w = (Inr ep, w') \<Longrightarrow> in_int64 (ep_value ep) \<and> ep_path ep = p"
  by (auto simp: NewEpoch_def epoch_load_def in_int64_def int64_min_def int64_max_def split: prod.splits sum.splits io_error.splits
      dest!: parse_int_range)

lemma open_registries_ok:
  "open_registries e w = (Inr (services, access, epoch, exec), w') \<Longrightarrow>
   services_wf services \<and> access_wf access \<and> in_int64 (ep_value epoch) \<and> ep_path epoch = EpochFilePath"
  unfolding open_registries_def start_ok
  by (auto dest: services_New_wf access_New_wf NewEpoch_range)

lemma join_tailnet_ok: "join_tailnet e w = (Inr (h, ps), w') \<Longrightarrow> se_hostname e = Some h \<and> se_peers e = Some ps \<and> w' = w"
  unfolding join_tailnet_def start_ok by auto

lemma start_names_ok:
  assumes "start_names e w = (Inr (loggers, tailnet, tsnet), w')"
  shows "tailnet \<noteq> [] \<and> tsnet \<noteq> [] \<and> resolveTailnetHostname (se_tailscaled e) = Some tailnet \<and>
    tsnet = (if se_getenv e ''TAILKITD_HOSTNAME'' = [] then daemonHostnameForTailnetHost tailnet else se_getenv e ''TAILKITD_HOSTNAME'')"
proof -
  have t: "resolveTailnetHostname (se_tailscaled e) = Some tailnet"
    and h: "resolveHostname (se_getenv e ''TAILKITD_HOSTNAME'') tailnet (se_hostname e) = Some tsnet"
    using assms unfolding start_names_def start_ok by auto
  from t have "tailnet \<noteq> []" by (auto simp: resolveTailnetHostname_def split: option.splits if_splits)
  with t h show ?thesis by (auto simp: resolveHostname_def daemonHostnameForTailnetHost_def split: if_splits)
qed

lemma daemon_start_parts:
  assumes "daemon_start e w = (Inr d, w')"
  shows "\<exists>names configs hosts regs net admin claims w1 w2 w3 w4 w5 w6 w7. start_names e w = (Inr names, w1) \<and>
    EnsureArtifactKeys (se_keys e) w1 = (None, w2) \<and> load_configs (se_decoders e) w2 = (Inr configs, w3) \<and>
    open_hosts e (fst (snd names)) w3 = (Inr hosts, w4) \<and> open_registries e w4 = (Inr regs, w5) \<and> join_tailnet e w5 = (Inr net, w6) \<and>
    BootstrapState (se_random e) (se_probe e) (snd (snd names)) (fst (snd names)) (snd net) (hm_Names hosts) w6 = (Inr admin, w7) \<and>
    NewStore (se_claims e) ClaimsStorePath w7 = (Inr claims, w') \<and> se_getenv e ''HOST_TAILSCALE_IP'' \<noteq> [] \<and>
    d = \<lparr>dm_loggers = fst names, dm_tailnetName = fst (snd names), dm_tsnetName = snd (snd names), dm_configs = configs,
        dm_systemd_live = (sd_Enabled (dc_systemd configs) \<and> se_dbus e),
        dm_node = \<lparr>nd_host = hosts, nd_services = fst regs, nd_admin = admin, nd_access = Some (fst (snd regs)),
          nd_epoch = Some (fst (snd (snd regs)))\<rparr>,
        dm_exec = snd (snd (snd regs)), dm_claims = claims, dm_hostname = fst net, dm_hostIP = se_getenv e ''HOST_TAILSCALE_IP'',
        dm_ip4 = se_ip4 e, dm_addr = listen_addr e\<rparr>"
  using assms unfolding daemon_start_def start_ok case_prod_beta by blast

lemma start_admin:
  assumes "daemon_start e w = (Inr d, w')"
  shows "\<exists>peers. se_peers e = Some peers \<and> IsAdmin (nd_admin (dm_node d)) =
    DetermineIsAdmin (se_probe e) (dm_tsnetName d) (PeerHostnames peers (dm_tailnetName d) (hm_Names (nd_host (dm_node d))))"
proof -
  obtain names hosts net admin w5 w6 w7 where c: "join_tailnet e w5 = (Inr net, w6)"
      "BootstrapState (se_random e) (se_probe e) (snd (snd names)) (fst (snd names)) (snd net) (hm_Names hosts) w6 = (Inr admin, w7)"
    and d: "dm_tailnetName d = fst (snd names)" "dm_tsnetName d = snd (snd names)" "nd_host (dm_node d) = hosts" "nd_admin (dm_node d) = admin"
    using daemon_start_parts [OF assms] by fastforce
  have "se_peers e = Some (snd net)" using join_tailnet_ok [of e w5 "fst net" "snd net"] c(1) by simp
  then show ?thesis using Bootstrap_Determine [OF c(2)] d by simp
qed

text \<open>
  C10 (a daemon that starts is well formed). Whatever is on disk and whatever fails: if the start-up gets to serving, every integration is
  either disabled or enabled with a valid configuration, the registries satisfy their invariants, the epoch is in range, the names and the host's
  address are not empty, and the node is the admin exactly as the election among the peers it defines decides.
\<close>

theorem start_well_formed:
  assumes "daemon_start e w = (Inr d, w')"
  shows "configs_valid (dm_configs d) \<and> dm_tailnetName d \<noteq> [] \<and> dm_tsnetName d \<noteq> [] \<and> dm_hostIP d \<noteq> [] \<and>
    hm_wf (nd_host (dm_node d)) \<and> hm_SelfName (nd_host (dm_node d)) = dm_tailnetName d \<and> services_wf (nd_services (dm_node d)) \<and>
    (\<exists>a. nd_access (dm_node d) = Some a \<and> access_wf a) \<and> (\<exists>ep. nd_epoch (dm_node d) = Some ep \<and> in_int64 (ep_value ep)) \<and>
    (\<exists>peers. se_peers e = Some peers \<and> IsAdmin (nd_admin (dm_node d)) =
       DetermineIsAdmin (se_probe e) (dm_tsnetName d) (PeerHostnames peers (dm_tailnetName d) (hm_Names (nd_host (dm_node d)))))"
proof -
  obtain names configs hosts regs net admin claims w1 w2 w3 w4 w5 w6 w7 where c: "start_names e w = (Inr names, w1)"
      "load_configs (se_decoders e) w2 = (Inr configs, w3)" "open_hosts e (fst (snd names)) w3 = (Inr hosts, w4)"
      "open_registries e w4 = (Inr regs, w5)" "join_tailnet e w5 = (Inr net, w6)"
      "BootstrapState (se_random e) (se_probe e) (snd (snd names)) (fst (snd names)) (snd net) (hm_Names hosts) w6 = (Inr admin, w7)"
    and d: "se_getenv e ''HOST_TAILSCALE_IP'' \<noteq> []" "dm_tailnetName d = fst (snd names)" "dm_tsnetName d = snd (snd names)"
      "dm_configs d = configs" "dm_hostIP d = se_getenv e ''HOST_TAILSCALE_IP''"
      "dm_node d = \<lparr>nd_host = hosts, nd_services = fst regs, nd_admin = admin, nd_access = Some (fst (snd regs)),
          nd_epoch = Some (fst (snd (snd regs)))\<rparr>"
    using daemon_start_parts [OF assms] by fastforce
  have t: "fst (snd names) \<noteq> [] \<and> snd (snd names) \<noteq> []" using start_names_ok [of e w "fst names" "fst (snd names)" "snd (snd names)"] c(1)
    by (auto simp: daemonHostnameForTailnetHost_def)
  have h: "hm_wf hosts \<and> hm_SelfName hosts = fst (snd names)"
    using c(3) NewHostManager_wf t unfolding open_hosts_def must_ok hm_SelfName_def by blast
  have r: "services_wf (fst regs) \<and> access_wf (fst (snd regs)) \<and> in_int64 (ep_value (fst (snd (snd regs))))"
    using open_registries_ok [of e w4 "fst regs" "fst (snd regs)" "fst (snd (snd regs))" "snd (snd (snd regs))" w5] c(4) by simp
  show ?thesis using load_configs_valid [OF c(2)] t h r d start_admin [OF assms] by simp
qed

text \<open>
  C9 (no second admin). A node that starts while a peer it defines is up and is the admin does not make itself the admin, as long as
  the peer's host endpoint answers the probe: the endpoint reports the role, and the election believes it.
\<close>

theorem no_second_admin:
  assumes "daemon_start e w = (Inr d, w')" "se_peers e = Some (Some peers)" "se_probe e = IsPeerAdmin get"
    and "Some h \<in> set peers" "h \<noteq> []" "h \<noteq> dm_tailnetName d" "h \<in> set (hm_Names (nd_host (dm_node d)))"
    and "get (daemonHostnameForTailnetHost h) = Some (HostHandler (Some st) hm (Some adm) probe_request)" "ts_Self st = Some self" "IsAdmin adm"
  shows "\<not> IsAdmin (nd_admin (dm_node d))"
proof -
  let ?names = "PeerHostnames (Some peers) (dm_tailnetName d) (hm_Names (nd_host (dm_node d)))"
  have "daemonHostnameForTailnetHost h \<in> set ?names"
    unfolding set_PeerHostnames daemon_names_agree [symmetric] using assms(4-7) by blast
  moreover have "se_probe e (daemonHostnameForTailnetHost h) = Some True" using probe_answer [of get, OF assms(8)] assms(3,9,10) by simp
  ultimately have "found_admin (se_probe e) ?names" using found_admin_iff by blast
  then show ?thesis using start_admin [OF assms(1)] assms(2) by (simp add: Determine_Min)
qed


section \<open>What starting changes on disk\<close>

definition start_files :: "string list" where
  "start_files = [ArtifactPrivateKeyPath, ArtifactPublicKeyPath, HostsConfigPath, AdminKeyPath, AdminFencePath]"

text \<open>
  \<open>creates w w'\<close>: only the files a start may create have changed, and none that was there, except that the public artifact key is
  written again when the private one is missing.
\<close>

definition creates :: "world \<Rightarrow> world \<Rightarrow> bool" where
  "creates w w' \<longleftrightarrow> (\<forall>p. clean p \<notin> set start_files \<longrightarrow> get_file w' p = get_file w p) \<and>
     (\<forall>p f. get_file w p = Some f \<longrightarrow> (clean p = ArtifactPublicKeyPath \<longrightarrow> get_file w ArtifactPrivateKeyPath \<noteq> None) \<longrightarrow>
        get_file w' p = Some f)"

lemma start_paths [simp]: "clean HostsConfigPath = HostsConfigPath" "clean AdminKeyPath = AdminKeyPath" "clean AdminFencePath = AdminFencePath"
  "HostsConfigPath \<noteq> ArtifactPublicKeyPath" "AdminKeyPath \<noteq> ArtifactPublicKeyPath" "AdminFencePath \<noteq> ArtifactPublicKeyPath"
  by code_simp+

lemma creates_same: "(\<And>p. get_file w' p = get_file w p) \<Longrightarrow> creates w w'"
  by (simp add: creates_def)

lemma creates_files: "same_files w w' \<Longrightarrow> creates w w'"
  by (rule creates_same) (simp add: same_files_get)

lemma creates_trans:
  assumes "creates w w1" "creates w1 w2" shows "creates w w2"
proof -
  have "get_file w2 p = Some f"
    if f: "get_file w p = Some f" and pub: "clean p = ArtifactPublicKeyPath \<longrightarrow> get_file w ArtifactPrivateKeyPath \<noteq> None" for p f
  proof -
    have "get_file w1 p = Some f" using assms(1) f pub unfolding creates_def by blast
    moreover have "get_file w ArtifactPrivateKeyPath \<noteq> None \<Longrightarrow> get_file w1 ArtifactPrivateKeyPath \<noteq> None"
      using assms(1) key_paths unfolding creates_def by (metis option.exhaust)
    ultimately show ?thesis using assms(2) pub unfolding creates_def by blast
  qed
  then show ?thesis using assms unfolding creates_def by metis
qed

text \<open>A write of a file that is not there.\<close>

lemma creates_new:
  assumes "\<And>q. clean q \<notin> P \<Longrightarrow> get_file w' q = get_file w q" "P \<subseteq> set start_files"
    and "\<And>p. p \<in> P \<Longrightarrow> clean p = p \<and> (get_file w p = None \<or> p = ArtifactPublicKeyPath \<and> get_file w ArtifactPrivateKeyPath = None)"
  shows "creates w w'"
proof -
  have "get_file w' q = Some f"
    if f: "get_file w q = Some f" and pub: "clean q = ArtifactPublicKeyPath \<longrightarrow> get_file w ArtifactPrivateKeyPath \<noteq> None" for q f
  proof (cases "clean q \<in> P")
    case True
    then have "get_file w q = get_file w (clean q)" using assms(3) by (simp add: get_file_def)
    with assms(3) [OF True] f pub show ?thesis by auto
  qed (use assms(1) f in simp)
  then show ?thesis using assms(1,2) unfolding creates_def by (metis subsetD)
qed

lemma creates_wrote: "wrote p f w w' \<Longrightarrow> p \<in> set start_files \<Longrightarrow> clean p = p \<Longrightarrow> get_file w p = None \<Longrightarrow> creates w w'"
  by (rule creates_new [of "{p}"]) (simp_all add: wrote_get)

lemma creates_stat: "os_Stat p w = (r, w') \<Longrightarrow> creates w w'"
  using creates_files os_Stat_same by blast

lemma creates_ensure:
  assumes "ensure_file p c w = (r, w')" "p \<in> set start_files" "clean p = p"
  shows "creates w w'"
proof -
  obtain x w1 where st: "os_Stat p w = (x, w1)" by fastforce
  note s = creates_stat [OF st]
  show ?thesis
  proof (cases "x = Inl ENOENT \<and> c \<noteq> None")
    case False
    then have "w' = w1" using assms(1) st by (auto simp: ensure_file_def split: sum.splits io_error.splits option.splits)
    with s show ?thesis by simp
  next
    case True
    then obtain d where c: "c = Some d" and x: "x = Inl ENOENT" by auto
    obtain y w2 where wr: "os_WriteFile p d 384 w1 = (y, w2)" by fastforce
    have "get_file w1 p = None" using os_Stat_ENOENT [of p w w1] same_files_get [OF os_Stat_same [OF st]] st x by simp
    then have "creates w1 w2" using WriteFile_other [OF wr] assms(2,3) by (intro creates_new [of "{p}"]) simp_all
    moreover have "w' = w2" using assms(1) st x c wr by (auto simp: ensure_file_def split: sum.splits)
    ultimately show ?thesis using creates_trans [OF s] by simp
  qed
qed

lemma creates_bootstrap: "BootstrapState rnd probe self t st defined w = (r, w') \<Longrightarrow> creates w w'"
proof -
  assume run: "BootstrapState rnd probe self t st defined w = (r, w')"
  obtain x w1 where mk: "os_MkdirAll AdminDirPath w = (x, w1)" by fastforce
  obtain y w2 where k: "ensure_file AdminKeyPath (map_option hex_encode rnd) w1 = (y, w2)" by fastforce
  obtain z w3 where f: "ensure_file AdminFencePath (Some [CHR ''0'', CHR 0x0A]) w2 = (z, w3)" by fastforce
  have c: "creates w w1" "creates w1 w2" "creates w2 w3"
    using MkdirAll_files [OF mk] creates_ensure [OF k] creates_ensure [OF f] by (auto intro: creates_same simp: start_files_def)
  have "w' = w1 \<or> w' = w2 \<or> w' = w3"
    using run mk k f by (auto simp: BootstrapState_def EnsureBootstrapFiles_def Let_def split: sum.splits option.splits)
  then show ?thesis using c creates_trans by blast
qed

lemma creates_keys: "EnsureArtifactKeys gen w = (r, w') \<Longrightarrow> creates w w'"
proof -
  assume run: "EnsureArtifactKeys gen w = (r, w')"
  obtain x w1 where mk: "os_MkdirAll IdentityDirPath w = (x, w1)" by fastforce
  obtain y w2 where st: "os_Stat ArtifactPrivateKeyPath w1 = (y, w2)" by fastforce
  have c: "creates w w1" "creates w w2"
    using creates_same MkdirAll_files [OF mk] creates_stat [OF st] creates_trans by blast+
  show ?thesis
  proof (cases "(\<exists>u. x = Inr u) \<and> y = Inl ENOENT \<and> gen \<noteq> None")
    case False
    then have "w' = w1 \<or> w' = w2" using run mk st
      by (auto simp: EnsureArtifactKeys_def split: sum.splits io_error.splits option.splits)
    then show ?thesis using c by auto
  next
    case True
    then obtain pub priv u where g: "gen = Some (pub, priv)" "x = Inr u" "y = Inl ENOENT" by auto
    obtain a w3 where w3: "os_WriteFile ArtifactPrivateKeyPath (encodeKey priv) 384 w2 = (a, w3)" by fastforce
    obtain b w4 where w4: "os_WriteFile ArtifactPublicKeyPath (encodeKey pub) 420 w3 = (b, w4)" by fastforce
    have none: "get_file w2 ArtifactPrivateKeyPath = None"
      using os_Stat_ENOENT [of ArtifactPrivateKeyPath w1 w2] same_files_get [OF os_Stat_same [OF st]] st g by simp
    have "creates w2 w3" using WriteFile_other [OF w3] none by (intro creates_new [of "{ArtifactPrivateKeyPath}"]) (simp_all add: start_files_def)
    moreover have "creates w2 w4" using WriteFile_other [OF w3] WriteFile_other [OF w4] none
      by (intro creates_new [of "{ArtifactPrivateKeyPath, ArtifactPublicKeyPath}"]) (auto simp: start_files_def)
    moreover have "w' = w3 \<or> w' = w4" using run mk st g w3 w4 by (auto simp: EnsureArtifactKeys_def split: sum.splits)
    ultimately show ?thesis using creates_trans [OF c(2)] by blast
  qed
qed


lemma creates_hosts: "NewHostManager enc toml ok HostsConfigPath n w = (r, w') \<Longrightarrow> creates w w'"
proof -
  assume run: "NewHostManager enc toml ok HostsConfigPath n w = (r, w')"
  obtain x w1 where mk: "os_MkdirAll (dir_of HostsConfigPath) w = (x, w1)" by fastforce
  obtain y w2 where st: "os_Stat HostsConfigPath w1 = (y, w2)" by fastforce
  obtain z w3 where wr: "WriteHostFile enc HostsConfigPath [host_SetDefaults n empty_host] w2 = (z, w3)" by fastforce
  obtain u w4 where ld: "LoadHostFile toml HostsConfigPath w2 = (u, w4)" by fastforce
  have c: "creates w w1" "creates w w2"
    using creates_same MkdirAll_files [OF mk] creates_stat [OF st] creates_trans by blast+
  have "creates w2 w4" using ld quietD [OF quiet_ops(8)] by (auto simp: LoadHostFile_def creates_files split: prod.splits sum.splits)
  then have "creates w w4" using creates_trans [OF c(2)] by blast
  moreover have "creates w w3" if "y = Inl ENOENT"
  proof -
    have none: "get_file w2 HostsConfigPath = None"
      using os_Stat_ENOENT [of HostsConfigPath w1 w2] same_files_get [OF os_Stat_same [OF st]] st that by simp
    have "same_files w2 w3 \<or> (\<exists>f. wrote HostsConfigPath f w2 w3)"
    proof (cases "enc (cloneHostConfigs [host_SetDefaults n empty_host])")
      case None then show ?thesis using wr by (simp add: WriteHostFile_def)
    next
      case (Some data)
      obtain v w5 where aw: "AtomicWrite HostsConfigPath data 420 w2 = (v, w5)" by fastforce
      then have "w3 = w5" using wr Some by (auto simp: WriteHostFile_def split: sum.splits)
      then show ?thesis using aw atomic_write_cases by blast
    qed
    then have "creates w2 w3" using none creates_wrote [of HostsConfigPath] by (auto intro: creates_files simp: start_files_def)
    then show ?thesis using creates_trans [OF c(2)] by blast
  qed
  moreover obtain v w5 where en: "EnsureHostConfig enc toml HostsConfigPath n w = (v, w5)" by fastforce
  have "w5 = w1 \<or> w5 = w2 \<or> w5 = w4 \<or> (w5 = w3 \<and> y = Inl ENOENT)"
    using en mk st wr ld by (auto simp: EnsureHostConfig_def Let_def split: sum.splits io_error.splits option.splits)
  moreover have "w' = w5" using run en by (auto simp: NewHostManager_def split: sum.splits if_splits)
  ultimately show ?thesis using c by blast
qed


definition safe_step :: "(world \<Rightarrow> 'a \<times> world) \<Rightarrow> bool" where
  "safe_step m \<longleftrightarrow> (\<forall>w r w'. m w = (r, w') \<longrightarrow> creates w w')"

lemma safe_stepD: "safe_step m \<Longrightarrow> m w = (r, w') \<Longrightarrow> creates w w'"
  unfolding safe_step_def by blast

lemma safe_bind: "safe_step m \<Longrightarrow> (\<And>a. safe_step (f a)) \<Longrightarrow> safe_step (start_bind m f)"
  unfolding safe_step_def start_bind_def by (fastforce split: prod.splits sum.splits intro: creates_trans)

lemma safe_pure: "(\<And>w. snd (m w) = w) \<Longrightarrow> safe_step m"
  unfolding safe_step_def by (metis creates_same snd_conv)

lemma safe_must: "safe_step m \<Longrightarrow> safe_step (must l m)"
  unfolding safe_step_def must_def by (auto split: prod.splits sum.splits)

lemma safe_must_not: "safe_step m \<Longrightarrow> safe_step (must_not l m)"
  unfolding safe_step_def must_not_def by (auto split: prod.splits option.splits)

lemma safe_demand: "safe_step (demand l x)" "safe_step (demand_ok l b)" "safe_step (start_return a)"
  by (rule safe_pure, simp add: demand_def demand_ok_def start_return_def split: option.splits)+

lemma safe_quiet: "(\<And>w r w'. m w = (r, w') \<Longrightarrow> same_files w w') \<Longrightarrow> safe_step m"
  unfolding safe_step_def using creates_files by blast

lemma safe_files: "(\<And>w r w' p. m w = (r, w') \<Longrightarrow> get_file w' p = get_file w p) \<Longrightarrow> safe_step m"
  unfolding safe_step_def using creates_same by blast

lemma safe_logging: "safe_step (LoadLoggingConfig e)"
  by (rule safe_quiet) (auto simp: LoadLoggingConfig_def loadLoggingConfigFrom_def split: prod.splits sum.splits option.splits
      dest!: quietD [OF quiet_ops(8)])

lemma safe_build: "safe_step (Build unmarshal cfg)"
  by (rule safe_files) (auto simp: Build_def buildAPICore_def split: prod.splits sum.splits if_splits dest: MkdirAll_files)

lemma safe_configs: "safe_step (load_configs d)"
  unfolding load_configs_def
  by (intro safe_bind safe_must safe_demand; rule safe_quiet;
      auto simp: LoadMetricsConfig_def LoadFilesConfig_def LoadVarsConfig_def LoadDockerConfig_def LoadSystemdConfig_def
        dest: docker_loader.load_quiet systemd_loader.load_quiet metrics_loader.load_quiet vars_loader.load_quiet files_loader.load_quiet)

lemma safe_services: "safe_step (services_NewRegistry toml ok d)"
proof (rule safe_files)
  fix w r w' p assume run: "services_NewRegistry toml ok d w = (r, w')"
  have "get_file w2 p = get_file w1 p" if "services_Reload toml g w1 = (x, g', w2)" for w1 w2 x g g'
    using that by (auto simp: services_Reload_def svc_LoadDir_def same_files_get split: prod.splits sum.splits io_error.splits
        dest!: quietD [OF quiet_ReadDir] load_entries_quiet)
  with run show "get_file w' p = get_file w p"
    by (fastforce simp: services_NewRegistry_def MkdirAll_files split: prod.splits sum.splits if_splits option.splits)
qed

lemma safe_access: "safe_step (access_NewRegistry toml ok d)"
proof (rule safe_files)
  fix w r w' p assume run: "access_NewRegistry toml ok d w = (r, w')"
  have "get_file w2 p = get_file w1 p" if "access_Reload toml g w1 = (x, g', w2)" for w1 w2 x g g'
    using that by (auto simp: access_Reload_def same_files_get split: prod.splits sum.splits
        dest!: quietD [OF quiet_ReadDir] load_entries_quiet)
  with run show "get_file w' p = get_file w p"
    by (fastforce simp: access_NewRegistry_def MkdirAll_files split: prod.splits sum.splits if_splits option.splits)
qed

lemma safe_epoch: "safe_step (NewEpoch p)"
  by (rule safe_quiet) (auto simp: NewEpoch_def epoch_load_def split: prod.splits sum.splits io_error.splits dest!: quietD [OF quiet_ops(8)])

lemma safe_exec: "safe_step (exec_NewRegistry json d ok)"
proof (rule safe_files)
  fix w r w' p assume run: "exec_NewRegistry json d ok w = (r, w')"
  obtain x g w1 where rb: "exec_rebuild json \<lparr>xr_dir = d, xr_index = []\<rparr> w = (x, g, w1)" by (metis prod_cases3)
  then have "get_file w1 p = get_file w p"
    by (auto simp: exec_rebuild_def same_files_get split: prod.splits sum.splits if_splits dest!: quietD [OF quiet_ReadDir] load_entries_quiet)
  moreover have "same_files w1 (snd (os_Stat d w1))" using quiet_ops(9) by (simp add: quiet_def)
  ultimately show "get_file w' p = get_file w p" using run rb by (auto simp: exec_NewRegistry_def same_files_get split: if_splits)
qed

lemma safe_claims: "safe_step (NewStore c p)"
  by (rule safe_quiet) (auto simp: NewStore_def store_load_def split: prod.splits sum.splits io_error.splits option.splits
      dest!: quietD [OF quiet_ops(8)])

lemma safe_registries: "safe_step (open_registries e)"
proof -
  have "safe_step (\<lambda>w. case exec_NewRegistry json d ok w of (None, w') \<Rightarrow> (Inl l, w') | (Some r, w') \<Rightarrow> (Inr r, w'))" for json d ok and l :: string
    using safe_exec unfolding safe_step_def by (fastforce split: prod.splits option.splits)
  then show ?thesis unfolding open_registries_def by (intro safe_bind safe_must safe_demand safe_services safe_access safe_epoch)
qed

lemma safe_start: "safe_step (daemon_start e)"
proof -
  have "safe_step (start_names e)"
    unfolding start_names_def by (intro safe_bind safe_must safe_demand safe_logging safe_build)
  moreover have "safe_step (join_tailnet e)" unfolding join_tailnet_def by (intro safe_bind safe_demand)
  moreover have "safe_step (open_hosts e t)" for t
    unfolding open_hosts_def using creates_hosts by (intro safe_must) (auto simp: safe_step_def)
  ultimately show ?thesis
    unfolding daemon_start_def using creates_keys creates_bootstrap safe_registries
    by (auto intro!: safe_bind safe_must safe_must_not safe_demand safe_configs safe_claims simp: safe_step_def [of "EnsureArtifactKeys _"]
        safe_step_def [of "BootstrapState _ _ _ _ _ _"] split: prod.splits)
qed


end
