(* ===== verification/InstallerProps.thy ===== *)
theory InstallerProps
  imports Installer
begin

text \<open>
  Properties of the installer: what it can change on the machine under every fault and crash, that the service is started only
  after a verification without errors, and that the wait for it ends.
\<close>

section \<open>Waiting for the service\<close>

definition query :: "string list" where
  "query = [''systemctl'', ''is-active'', ''tailkitd'']"

definition says_active :: "host_env \<Rightarrow> string list list \<Rightarrow> bool" where
  "says_active e cs \<longleftrightarrow> (case he_command e cs of None \<Rightarrow> False | Some out \<Rightarrow> trim_space (trim_space out) = ''active'')"

lemma service_state_alive:
  assumes "\<not> w_dead (m_world s)"
  shows "service_state e s =
    (case he_command e (m_calls s @ [query]) of None \<Rightarrow> Inl CommandFails | Some out \<Rightarrow> Inr (trim_space (trim_space out)),
     s\<lparr>m_calls := m_calls s @ [query]\<rparr>)"
  using assms by (simp add: service_state_def inst_bind_def runOutput_def command_def query_def inst_return_def split: option.splits)

lemma wait_active_queries:
  assumes "\<not> w_dead (m_world s)" "wait_active e now deadline s = (r, s')"
  shows "\<exists>k. 1 \<le> k \<and> (2 \<le> k \<longrightarrow> (int k - 2) * 1000000000 < deadline - now) \<and>
    s' = s\<lparr>m_calls := m_calls s @ replicate k query\<rparr> \<and> (r = Inr () \<longleftrightarrow> says_active e (m_calls s'))"
  using assms
proof (induction e now deadline s rule: wait_active.induct)
  case (1 e now deadline s)
  let ?s1 = "s\<lparr>m_calls := m_calls s @ [query]\<rparr>"
  let ?a = "case he_command e (m_calls s @ [query]) of None \<Rightarrow> Inl CommandFails | Some out \<Rightarrow> Inr (trim_space (trim_space out))"
  note st = service_state_alive [OF 1(2)]
  have act: "?a = Inr ''active'' \<longleftrightarrow> says_active e (m_calls ?s1)" by (auto simp: says_active_def split: option.splits)
  have one: "s' = ?s1 \<Longrightarrow> ?case" if "r = Inr () \<longleftrightarrow> ?a = Inr ''active''"
    using that act by (intro exI [of _ 1]) auto
  show ?case
  proof (cases "now < deadline \<and> ?a \<noteq> Inr ''active'' \<and> ?a \<noteq> Inr ''failed''")
    case False
    then have "s' = ?s1 \<and> (r = Inr () \<longleftrightarrow> ?a = Inr ''active'')"
      using 1(3) by (subst (asm) wait_active.simps) (auto simp: st split: if_splits)
    then show ?thesis using one by blast
  next
    case True
    let ?now = "now + 1000000000 + int (he_time e (m_calls ?s1))"
    have run: "wait_active e ?now deadline ?s1 = (r, s')"
      using 1(3) True by (subst (asm) wait_active.simps) (simp add: st)
    obtain k where k: "1 \<le> k" "2 \<le> k \<longrightarrow> (int k - 2) * 1000000000 < deadline - ?now"
      "s' = ?s1\<lparr>m_calls := m_calls ?s1 @ replicate k query\<rparr>" "r = Inr () \<longleftrightarrow> says_active e (m_calls s')"
      using 1(1) [OF _ st [of e, symmetric] _ _ _ run] True 1(2) by auto
    have "(int (Suc k) - 2) * 1000000000 < deadline - now"
      using k(1,2) True by (cases "2 \<le> k") auto
    then show ?thesis using k by (intro exI [of _ "Suc k"]) (simp add: replicate_append_same [symmetric])
  qed
qed

text \<open>
  C39 (the wait ends). Starting the service runs \<^verbatim>\<open>systemctl start\<close> once and then, if that succeeds, asks for the service's state at least
  once and at most 61 times, however long the queries take; it succeeds exactly if the last answer is active,
  and changes nothing else on the machine.
\<close>

theorem start_waits:
  assumes "\<not> w_dead (m_world s)" "startService e s = (r, s')"
  shows "\<exists>k \<le> 61. s' = s\<lparr>m_calls := m_calls s @ [''systemctl'', ''start'', ''tailkitd''] # replicate k query\<rparr> \<and>
    (k = 0 \<longleftrightarrow> he_command e (m_calls s @ [[''systemctl'', ''start'', ''tailkitd'']]) = None) \<and>
    (r = Inr () \<longleftrightarrow> 0 < k \<and> says_active e (m_calls s'))"
proof (cases "he_command e (m_calls s @ [[''systemctl'', ''start'', ''tailkitd'']])")
  case None
  then show ?thesis using assms
    by (intro exI [of _ 0]) (auto simp: startService_def inst_bind_def at_def run_def command_def)
next
  case (Some out)
  let ?s1 = "s\<lparr>m_calls := m_calls s @ [[''systemctl'', ''start'', ''tailkitd'']]\<rparr>"
  have "wait_active e 0 60000000000 ?s1 = (r, s')"
    using assms Some by (simp add: startService_def inst_bind_def at_def run_def command_def)
  then obtain k where k: "1 \<le> k" "2 \<le> k \<longrightarrow> (int k - 2) * 1000000000 < 60000000000 - 0"
    "s' = ?s1\<lparr>m_calls := m_calls ?s1 @ replicate k query\<rparr>" "r = Inr () \<longleftrightarrow> says_active e (m_calls s')"
    using wait_active_queries [of ?s1 e 0 60000000000 r s'] assms(1) by auto
  then have "k \<le> 61" by (cases "2 \<le> k") auto
  then show ?thesis using k Some by (intro exI [of _ k]) auto
qed

section \<open>What the installer writes\<close>

lemma replace_install_cases:
  assumes "replace_install path data mode w = (r, w')"
  shows "(\<exists>e. r = Inl e \<and> same_files w w') \<or> (r = Inr () \<and> wrote path \<lparr>f_data = data, f_perm = mode\<rparr> w w')"
proof (rule temp_replace [where m = "\<lambda>t. io_bind (tmp_Chmod t mode) (\<lambda>_. io_bind (tmp_Write t data) (\<lambda>_. tmp_Close t))"])
  show "io_bind (os_CreateTemp (dir_of path)) (\<lambda>t. defer_remove t (io_bind (io_bind (tmp_Chmod t mode)
      (\<lambda>_. io_bind (tmp_Write t data) (\<lambda>_. tmp_Close t))) (\<lambda>_. os_Rename t path))) w = (r, w')"
    using assms by (simp add: replace_install_def io_bind_assoc)
qed (auto intro!: quiet_bind quiet_ops elim!: io_bind_cases dest!: tmp_calls_Inr)

text \<open>The checks of \<open>Verify\<close> only read.\<close>

definition start_call :: "string list" where
  "start_call = [''systemctl'', ''start'', ''tailkitd'']"

definition undisturbed :: "machine \<Rightarrow> machine \<Rightarrow> bool" where
  "undisturbed s s' \<longleftrightarrow> same_files (m_world s) (m_world s') \<and> m_owner s' = m_owner s \<and> m_modes s' = m_modes s \<and>
     (\<exists>cs. m_calls s' = m_calls s @ cs \<and> start_call \<notin> set cs)"

lemma undisturbed_refl [simp]: "undisturbed s s"
  by (auto simp: undisturbed_def)

lemma undisturbed_trans: "undisturbed s s1 \<Longrightarrow> undisturbed s1 s2 \<Longrightarrow> undisturbed s s2"
  unfolding undisturbed_def using same_files_trans by auto

lemma undisturbed_calls_only: "start_call \<notin> set cs \<Longrightarrow> undisturbed s (s\<lparr>m_calls := m_calls s @ cs\<rparr>)"
  by (auto simp: undisturbed_def)

definition only_reads :: "checker \<Rightarrow> bool" where
  "only_reads c \<longleftrightarrow> (\<forall>r s r' s'. c r s = (r', s') \<longrightarrow> undisturbed s s')"

lemma undisturbed_world: "quiet m \<Longrightarrow> on_world m s = (r, s') \<Longrightarrow> undisturbed s s'"
  unfolding undisturbed_def on_world_def by (auto split: prod.splits sum.splits dest: quietD)

lemma command_cases:
  "command e args s = (x, s') \<Longrightarrow> (x = None \<and> s' = s \<and> w_dead (m_world s)) \<or>
     (x = he_command e (m_calls s @ [args]) \<and> s' = s\<lparr>m_calls := m_calls s @ [args]\<rparr>)"
  by (auto simp: command_def split: if_splits)

lemma undisturbed_command: "command e args s = (x, s') \<Longrightarrow> args \<noteq> start_call \<Longrightarrow> undisturbed s s'"
  using undisturbed_calls_only [of "[args]" s] by (auto dest: command_cases)

lemma undisturbed_calls:
  "on_world (os_Stat p) s = (x, s') \<Longrightarrow> undisturbed s s'" "on_world (os_ReadFile p) s = (y, s') \<Longrightarrow> undisturbed s s'"
  "run e args s = (z, s') \<Longrightarrow> args \<noteq> start_call \<Longrightarrow> undisturbed s s'"
  "runOutput e args s = (y, s') \<Longrightarrow> args \<noteq> start_call \<Longrightarrow> undisturbed s s'"
  by (rule undisturbed_world [OF quiet_ops(9)], assumption)
     (rule undisturbed_world [OF quiet_ops(8)], assumption,
      auto simp: run_def runOutput_def split: prod.splits option.splits dest: undisturbed_command)

lemma reads_check_dirs: "check_dirs ds r s = (r', s') \<Longrightarrow> undisturbed s s'"
proof (induction ds arbitrary: r s)
  case (Cons d ds)
  obtain x s1 where st: "on_world (os_Stat d) s = (x, s1)" by fastforce
  then obtain r1 where "check_dirs ds r1 s1 = (r', s')" using Cons.prems by (cases x) auto
  from Cons.IH [OF this] undisturbed_calls(1) [OF st] show ?case using undisturbed_trans by blast
qed simp

lemma reads_config:
  assumes "\<And>w r w'. load w = (r, w') \<Longrightarrow> same_files w w'" shows "only_reads (check_config load en l miss val)"
  using assms by (auto simp: only_reads_def undisturbed_def check_config_def split: prod.splits sum.splits)

lemma reads_checkers: "c \<in> set (checkers e d) \<Longrightarrow> only_reads c"
proof -
  have "only_reads (checkBinary e)"
    by (auto simp: only_reads_def checkBinary_def start_call_def binaryDst_def split: prod.splits sum.splits if_splits
        dest!: undisturbed_calls intro: undisturbed_trans)
  moreover have "only_reads checkEnvFile"
    by (auto simp: only_reads_def checkEnvFile_def Let_def split: prod.splits sum.splits install_error.splits
        dest!: undisturbed_calls intro: undisturbed_trans)
  moreover have "only_reads checkDirectories"
    by (auto simp: only_reads_def checkDirectories_def simp del: check_dirs.simps split: prod.splits dest!: reads_check_dirs)
  moreover have "only_reads (checkUnitFile e)"
    by (auto simp: only_reads_def checkUnitFile_def start_call_def split: prod.splits sum.splits dest!: undisturbed_calls intro: undisturbed_trans)
  ultimately show "c \<in> set (checkers e d) \<Longrightarrow> only_reads c"
    unfolding checkers_def checkConfigMetrics_def checkConfigFiles_def checkConfigVars_def checkConfigDocker_def checkConfigSystemd_def
      LoadMetricsConfig_def LoadFilesConfig_def LoadVarsConfig_def LoadDockerConfig_def LoadSystemdConfig_def
    by (auto intro!: reads_config dest: docker_loader.load_quiet systemd_loader.load_quiet metrics_loader.load_quiet
        vars_loader.load_quiet files_loader.load_quiet)
qed

lemma reads_run_checks:
  assumes "\<And>c. c \<in> set cs \<Longrightarrow> only_reads c" shows "only_reads (run_checks cs)"
  using assms
proof (induction cs)
  case (Cons c cs)
  have c: "only_reads c" and cs: "only_reads (run_checks cs)" using Cons by auto
  show ?case unfolding only_reads_def
  proof (intro allI impI)
    fix r s r' s' assume "run_checks (c # cs) r s = (r', s')"
    then obtain r1 s1 where "c r s = (r1, s1)" "run_checks cs r1 s1 = (r', s')" by (auto split: prod.splits)
    then show "undisturbed s s'" using c cs undisturbed_trans unfolding only_reads_def by blast
  qed
qed (simp add: only_reads_def)

lemma Verify_reads: "Verify e d s = (r, s') \<Longrightarrow> undisturbed s s'"
  using reads_run_checks [where cs = "checkers e d"] reads_checkers unfolding Verify_def only_reads_def by blast

lemma wait_calls: "wait_active e now deadline s = (r, s') \<Longrightarrow> \<exists>cs. s' = s\<lparr>m_calls := m_calls s @ cs\<rparr> \<and> set cs \<subseteq> {query}"
proof (induction e now deadline s rule: wait_active.induct)
  case (1 e now deadline s)
  obtain x s1 where x: "service_state e s = (x, s1)" by fastforce
  obtain y where c: "command e query s = (y, s1)"
    using x by (auto simp: service_state_def inst_bind_def runOutput_def inst_return_def query_def split: prod.splits option.splits)
  obtain cs1 where s1: "s1 = s\<lparr>m_calls := m_calls s @ cs1\<rparr>" "set cs1 \<subseteq> {query}"
  proof (cases "s1 = s")
    case True then show ?thesis using that [of "[]"] by simp
  next
    case False then show ?thesis using that [of "[query]"] command_cases [OF c] by auto
  qed
  show ?case
  proof (cases "now < deadline \<and> x \<noteq> Inr ''active'' \<and> x \<noteq> Inr ''failed''")
    case False
    then have "s' = s1" using 1(2) x by (subst (asm) wait_active.simps) (auto split: if_splits)
    then show ?thesis using s1 by blast
  next
    case True
    let ?now = "now + 1000000000 + int (he_time e (m_calls s1))"
    have "wait_active e ?now deadline s1 = (r, s')" using 1(2) x True by (subst (asm) wait_active.simps) simp
    from 1(1) [OF _ x [symmetric] _ _ this] True obtain cs where "s' = s1\<lparr>m_calls := m_calls s1 @ cs\<rparr>" "set cs \<subseteq> {query}" by blast
    then show ?thesis using s1 by (intro exI [of _ "cs1 @ cs"]) auto
  qed
qed

text \<open>The files of a complete installation, whatever was detected, with the environment file of one key.\<close>

definition operator_files :: "(string \<times> string) list" where
  "operator_files = config_files \<lparr>in_Docker = True, in_Systemd = True\<rparr>"

definition install_writes :: "string \<Rightarrow> (string \<times> ofile) set" where
  "install_writes key =
     {(clean p, text_file content) | p content. (p, content) \<in> set operator_files} \<union>
     {(envFile, \<lparr>f_data = env_text key h ip, f_perm = 416\<rparr>) | h ip. True} \<union>
     {(binaryDst, \<lparr>f_data = d, f_perm = 493\<rparr>) | d. True} \<union> {(unitFile, text_file unitContent)}"

lemma clean_paths [simp]: "clean envFile = envFile" "clean binaryDst = binaryDst" "clean unitFile = unitFile"
  unfolding envFile_def binaryDst_def unitFile_def by code_simp+

definition may_write :: "(string \<times> ofile) set \<Rightarrow> world \<Rightarrow> world \<Rightarrow> bool" where
  "may_write W w w' \<longleftrightarrow> (\<forall>p. get_file w' p = get_file w p \<or> (\<exists>f. (clean p, f) \<in> W \<and> get_file w' p = Some f))"

lemma may_write_same: "same_files w w' \<Longrightarrow> may_write W w w'"
  by (simp add: may_write_def same_files_get)

lemma may_write_refl [simp]: "may_write W w w"
  by (simp add: may_write_def)

lemma may_write_wrote: "wrote p f w w' \<Longrightarrow> (clean p, f) \<in> W \<Longrightarrow> may_write W w w'"
  by (auto simp: may_write_def wrote_get)

lemma may_write_trans: "may_write W w w1 \<Longrightarrow> may_write W w1 w2 \<Longrightarrow> may_write W w w2"
  unfolding may_write_def by metis

text \<open>
  \<open>follows R m\<close>: whatever happens inside \<open>m\<close>, the machine before and after it are related by \<open>R\<close>. It composes along the steps for
  a relation that allows every change but that of a file, and commands that are \<open>ok\<close>.
\<close>

definition follows :: "(machine \<Rightarrow> machine \<Rightarrow> bool) \<Rightarrow> 'a inst \<Rightarrow> bool" where
  "follows R m \<longleftrightarrow> (\<forall>s r s'. m s = (r, s') \<longrightarrow> R s s')"

lemma followsD: "follows R m \<Longrightarrow> m s = (r, s') \<Longrightarrow> R s s'"
  unfolding follows_def by blast

lemma inst_bind_cases:
  assumes "inst_bind m f s = (r, s'')"
  obtains (err) e where "m s = (Inl e, s'')" "r = Inl e"
    | (ok) a s' where "m s = (Inr a, s')" "f a s' = (r, s'')"
  using assms by (auto simp: inst_bind_def split: prod.splits sum.splits)

locale step_relation =
  fixes R :: "machine \<Rightarrow> machine \<Rightarrow> bool" and ok :: "string list \<Rightarrow> bool"
  assumes same: "(\<And>q. get_file (m_world s') q = get_file (m_world s) q) \<Longrightarrow> w_fault (m_world s') = w_fault (m_world s) \<Longrightarrow>
      m_calls s' = m_calls s \<Longrightarrow> R s s'"
    and trans: "R s s1 \<Longrightarrow> R s1 s2 \<Longrightarrow> R s s2"
    and call: "ok c \<Longrightarrow> R s (s\<lparr>m_calls := m_calls s @ [c]\<rparr>)"
    and ok_other: "c \<noteq> start_call \<Longrightarrow> ok c"
begin

lemma refl: "R s s"
  by (rule same) simp_all

lemma calls: "(\<And>c. c \<in> set cs \<Longrightarrow> ok c) \<Longrightarrow> R s (s\<lparr>m_calls := m_calls s @ cs\<rparr>)"
proof (induction cs rule: rev_induct)
  case Nil then show ?case by (intro same) simp_all
next
  case (snoc c cs)
  have "R (s\<lparr>m_calls := m_calls s @ cs\<rparr>) (s\<lparr>m_calls := m_calls s @ cs @ [c]\<rparr>)"
    using call [of c "s\<lparr>m_calls := m_calls s @ cs\<rparr>"] snoc.prems by simp
  then show ?case using snoc trans by auto
qed

lemma of_unchanged: "undisturbed s s' \<Longrightarrow> R s s'"
proof -
  assume "undisturbed s s'"
  then obtain cs where u: "same_files (m_world s) (m_world s')" "m_calls s' = m_calls s @ cs" "start_call \<notin> set cs"
    unfolding undisturbed_def by blast
  have "R s (s\<lparr>m_calls := m_calls s @ cs\<rparr>)" using u(3) by (intro calls ok_other) blast
  moreover have "R (s\<lparr>m_calls := m_calls s @ cs\<rparr>) s'"
    using u(1,2) by (intro same) (simp_all add: same_files_get, simp add: same_files_def)
  ultimately show "R s s'" by (rule trans)
qed

lemma branch:
  assumes "follows R m" "\<And>a. follows R (f a)" "\<And>e. follows R (g e)"
  shows "follows R (\<lambda>s. case m s of (Inl e, s') \<Rightarrow> g e s' | (Inr a, s') \<Rightarrow> f a s')"
  unfolding follows_def
proof (intro allI impI)
  fix s r s' assume run: "(case m s of (Inl e, s') \<Rightarrow> g e s' | (Inr a, s') \<Rightarrow> f a s') = (r, s')"
  obtain x s1 where m: "m s = (x, s1)" by fastforce
  note one = followsD [OF assms(1) m]
  show "R s s'"
  proof (cases x)
    case (Inl e) then show ?thesis using run m trans [OF one followsD [OF assms(3)]] by simp
  next
    case (Inr a) then show ?thesis using run m trans [OF one followsD [OF assms(2)]] by simp
  qed
qed

lemma pure: "(\<And>s. m_world (snd (m s)) = m_world s \<and> m_calls (snd (m s)) = m_calls s) \<Longrightarrow> follows R m"
  unfolding follows_def using same by (metis snd_conv)

lemma ret: "follows R (\<lambda>s. (x, s))"
  by (rule pure) simp

lemma bind: "follows R m \<Longrightarrow> (\<And>a. follows R (f a)) \<Longrightarrow> follows R (inst_bind m f)"
  unfolding inst_bind_def [abs_def] by (rule branch) (auto intro: ret)

lemma basic: "follows R (inst_return a)" "follows R (inst_fail x)"
  by (auto intro!: pure simp: inst_return_def inst_fail_def)

lemma runs: "ok args \<Longrightarrow> follows R (run e args)"
  by (auto simp: follows_def run_def intro: refl call dest!: command_cases split: prod.splits option.splits)

lemma labelled: "follows R m \<Longrightarrow> follows R (at l m)"
  unfolding at_def [abs_def] by (rule branch) (auto intro: ret)

lemma world: "(\<And>w r w' s. m w = (r, w') \<Longrightarrow> m_world s = w \<Longrightarrow> R s (s\<lparr>m_world := w'\<rparr>)) \<Longrightarrow> follows R (on_world m)"
  unfolding follows_def on_world_def by (auto split: prod.splits sum.splits)

lemma quiet: "quiet m \<Longrightarrow> follows R (on_world m)"
  unfolding follows_def using of_unchanged undisturbed_world by blast

lemma dirs: "follows R (make_dirs p mode)"
  unfolding follows_def
proof (intro allI impI)
  fix s r s' assume run: "make_dirs p mode s = (r, s')"
  obtain x w where mk: "os_MkdirAll p (m_world s) = (x, w)" by fastforce
  then have "m_world s' = w" "m_calls s' = m_calls s"
    using run by (auto simp: make_dirs_def on_world_def Let_def split: prod.splits sum.splits)
  moreover have "w_fault w = w_fault (m_world s)"
    using mk by (auto simp: os_MkdirAll_def io_call_def Let_def split: if_splits fault.splits)
  ultimately show "R s s'" using MkdirAll_files [OF mk] by (intro same) simp_all
qed

lemma chown: "follows R (os_Chown p u g)"
  unfolding os_Chown_def by (intro bind quiet quiet_ops pure) simp

lemma atomic:
  assumes "\<And>s w'. wrote path \<lparr>f_data = data, f_perm = mode\<rparr> (m_world s) w' \<Longrightarrow> R s (s\<lparr>m_world := w'\<rparr>)"
  shows "follows R (install_atomicWrite path data mode)"
  unfolding install_atomicWrite_def
proof (intro bind labelled world pure)
  show "R s (s\<lparr>m_world := w'\<rparr>)" if "replace_install path data mode w = (r, w')" "m_world s = w" for w r w' s
    using replace_install_cases [OF that(1)]
  proof
    assume "\<exists>e. r = Inl e \<and> same_files w w'"
    then show ?thesis using that(2) by (intro same) (auto simp: same_files_get, simp add: same_files_def)
  qed (use assms that(2) in auto)
qed simp

lemma if_absent:
  "(\<And>s w'. wrote p \<lparr>f_data = c, f_perm = mode\<rparr> (m_world s) w' \<Longrightarrow> R s (s\<lparr>m_world := w'\<rparr>)) \<Longrightarrow> follows R (writeIfAbsent p c mode)"
  unfolding writeIfAbsent_def [abs_def] by (rule branch) (auto intro: quiet quiet_ops atomic ret)

lemma each_files: "(\<And>p c. (p, c) \<in> set fs \<Longrightarrow> follows R (writeIfAbsent p c 420)) \<Longrightarrow> follows R (each_file fs)"
  by (induction fs) (auto intro!: basic bind)

lemma each_dirs: "follows R (each_dir u g ds)"
proof (induction ds)
  case (Cons d ds) then show ?case by (cases d) (auto intro!: bind labelled dirs chown)
qed (auto intro: basic)

lemma ensures: "a \<noteq> start_call \<Longrightarrow> b \<noteq> start_call \<Longrightarrow> follows R (ensure_entry e a b)"
  unfolding ensure_entry_def [abs_def] by (intro branch ret runs ok_other)

lemma user: "follows R (ensureUser e b)"
  unfolding ensureUser_def using basic runs [OF ok_other]
  by (auto intro!: bind labelled ensures simp: start_call_def)

lemma directories: "follows R (ensureDirectories e)"
  using each_dirs refl unfolding follows_def ensureDirectories_def by (auto split: option.splits)

lemma own_env: "follows R (own_env_file e)"
  using chown refl unfolding follows_def own_env_file_def by (auto split: option.splits)

lemma env_once:
  "(\<And>s w'. wrote envFile \<lparr>f_data = env_text key h ip, f_perm = 416\<rparr> (m_world s) w' \<Longrightarrow> R s (s\<lparr>m_world := w'\<rparr>)) \<Longrightarrow>
   follows R (write_env_once e key h ip)"
  unfolding write_env_once_def [abs_def] by (rule branch) (auto intro: quiet quiet_ops atomic ret bind own_env)

lemma env_file:
  assumes "\<And>h ip. follows R (write_env_once e key h ip)" shows "follows R (writeEnvFile e key hostname)"
proof -
  have "follows R (getHostTailscaleIP e)"
    using call [OF ok_other] refl
    by (auto simp: follows_def getHostTailscaleIP_def start_call_def dest!: command_cases split: prod.splits option.splits)
  moreover have "follows R (install_hostname e hostname)"
    by (rule pure) (auto simp: install_hostname_def inst_return_def inst_fail_def split: option.splits)
  ultimately show ?thesis unfolding writeEnvFile_def using assms by (intro bind labelled)
qed

lemma binary:
  assumes "\<And>data s w'. wrote binaryDst \<lparr>f_data = data, f_perm = 493\<rparr> (m_world s) w' \<Longrightarrow> R s (s\<lparr>m_world := w'\<rparr>)"
  shows "follows R (installBinary e)"
  unfolding installBinary_def using assms
  by (auto split: option.splits intro!: bind labelled basic quiet quiet_ops atomic)

lemma start: "ok start_call \<Longrightarrow> follows R (startService e)"
proof -
  have "follows R (wait_active e 0 60000000000)"
    unfolding follows_def using wait_calls calls [OF ok_other] by (fastforce simp: query_def start_call_def)
  then show "ok start_call \<Longrightarrow> follows R (startService e)"
    unfolding startService_def by (intro bind labelled runs) (simp_all add: start_call_def)
qed

lemma checked: "follows R (verified e d)"
  unfolding follows_def verified_def by (auto split: prod.splits dest!: Verify_reads intro: of_unchanged)

text \<open>The steps before the verification follow the relation if the four kinds of files they write do.\<close>

lemma prepared:
  assumes "\<And>p c. (p, c) \<in> set operator_files \<Longrightarrow> follows R (writeIfAbsent p c 420)"
    and "\<And>h ip. follows R (write_env_once e key h ip)"
    and "\<And>data s w'. wrote binaryDst \<lparr>f_data = data, f_perm = 493\<rparr> (m_world s) w' \<Longrightarrow> R s (s\<lparr>m_world := w'\<rparr>)"
    and "\<And>s w'. wrote unitFile \<lparr>f_data = unitContent, f_perm = 420\<rparr> (m_world s) w' \<Longrightarrow> R s (s\<lparr>m_world := w'\<rparr>)"
  shows "follows R (prepare e key hostname)"
proof -
  have "follows R (writeConfigFiles i)" for i
    unfolding writeConfigFiles_def by (rule each_files) (use assms(1) in \<open>auto simp: operator_files_def config_files_def split: if_splits\<close>)
  moreover have "follows R writeUnitFile" unfolding writeUnitFile_def using assms(4) by (intro labelled atomic)
  moreover have "follows R (enableService e)"
    unfolding enableService_def by (intro bind labelled runs ok_other) (simp_all add: start_call_def)
  ultimately show ?thesis
    unfolding prepare_def Let_def step_def by (intro bind labelled user directories env_file assms(2) binary assms(3))
qed

lemma install:
  assumes "follows R (prepare e key hostname)" "ok start_call" shows "follows R (Install e d key hostname)"
  unfolding Install_def step_def by (intro bind labelled assms(1) checked start assms(2))

end

interpretation writing: step_relation "\<lambda>s s'. may_write W (m_world s) (m_world s')" "\<lambda>_. True" for W
  by unfold_locales (auto simp: may_write_def, metis)


section \<open>What the operator owns\<close>

definition crash_only :: "world \<Rightarrow> bool" where
  "crash_only w \<longleftrightarrow> (\<forall>n k. w_fault w n \<noteq> Fails k)"

definition kept :: "string \<Rightarrow> ofile \<Rightarrow> machine \<Rightarrow> machine \<Rightarrow> bool" where
  "kept p f s s' \<longleftrightarrow> (get_file (m_world s) p = Some f \<and> crash_only (m_world s) \<longrightarrow>
     get_file (m_world s') p = Some f \<and> crash_only (m_world s'))"

interpretation keeping: step_relation "kept p f" "\<lambda>_. True" for p f
  by unfold_locales (auto simp: kept_def crash_only_def)

lemma kept_other: "wrote q g (m_world s) w' \<Longrightarrow> clean q \<noteq> clean p \<Longrightarrow> kept p f s (s\<lparr>m_world := w'\<rparr>)"
  by (auto simp: kept_def wrote_get, simp add: wrote_def crash_only_def)

lemma dead_atomic: "w_dead (m_world s) \<Longrightarrow> \<exists>x. install_atomicWrite p c mode s = (Inl x, s)"
  by (simp add: install_atomicWrite_def inst_bind_def at_def on_world_def replace_install_def os_CreateTemp_def io_bind_def)

text \<open>Where no call fails without the process dying, a file that is there is not replaced: the check finds it, or nothing happens.\<close>

lemma kept_there:
  assumes "clean q = clean p" "\<And>s. w_dead (m_world s) \<Longrightarrow> \<exists>x. m s = (x, s)"
  shows "follows (kept p f) (\<lambda>s. case on_world (os_Stat q) s of (Inl e, s') \<Rightarrow> m s' | (Inr a, s') \<Rightarrow> (Inr (), s'))"
  unfolding follows_def
proof (intro allI impI)
  fix s r s'
  assume run: "(case on_world (os_Stat q) s of (Inl e, s') \<Rightarrow> m s' | (Inr a, s') \<Rightarrow> (Inr (), s')) = (r, s')"
  obtain x s1 where st: "on_world (os_Stat q) s = (x, s1)" by fastforce
  have same: "same_files (m_world s) (m_world s1)" using undisturbed_calls(1) [OF st] by (simp add: undisturbed_def)
  show "kept p f s s'" unfolding kept_def
  proof
    assume there: "get_file (m_world s) p = Some f \<and> crash_only (m_world s)"
    then have "get_file (m_world s) q = Some f" using assms(1) by (simp add: get_file_def)
    then have "x = Inr () \<or> w_dead (m_world s1)"
      using st there by (auto simp: on_world_def os_Stat_def io_call_def crash_only_def Let_def split: prod.splits sum.splits if_splits fault.splits)
    then have "s' = s1" using run st assms(2) [of s1] by (auto split: sum.splits)
    then show "get_file (m_world s') p = Some f \<and> crash_only (m_world s')"
      using there same by (simp add: same_files_get, simp add: same_files_def crash_only_def)
  qed
qed

lemma operator_paths: "(q, c) \<in> set operator_files \<Longrightarrow> clean q \<noteq> binaryDst \<and> clean q \<noteq> unitFile"
proof -
  have "list_all (\<lambda>q. clean q \<noteq> binaryDst \<and> clean q \<noteq> unitFile) (map fst operator_files)"
    by code_simp
  then show "(q, c) \<in> set operator_files \<Longrightarrow> clean q \<noteq> binaryDst \<and> clean q \<noteq> unitFile"
    by (auto simp: list_all_iff)
qed

text \<open>
  C14 (the operator's files survive). Re-running the installer, interrupted at any point, leaves every configuration file and the
  environment file that was there exactly as it was, as long as no call fails with an error while the process lives on.
\<close>

theorem install_keeps_config:
  assumes "get_file (m_world s) p = Some f" "p \<in> set (envFile # map fst operator_files)" "crash_only (m_world s)"
  shows "get_file (m_world (snd (Install e d key hostname s))) p = Some f"
proof -
  have p: "clean p \<noteq> binaryDst" "clean p \<noteq> unitFile"
    using assms(2) operator_paths by (auto, simp_all add: envFile_def binaryDst_def unitFile_def)
  have "follows (kept p f) (writeIfAbsent q c 420)" for q c
  proof (cases "clean q = clean p")
    case True then show ?thesis unfolding writeIfAbsent_def [abs_def] by (intro kept_there) (simp, metis dead_atomic)
  next
    case False then show ?thesis by (intro keeping.if_absent) (rule kept_other)
  qed
  moreover have "follows (kept p f) (write_env_once e key h ip)" for h ip
  proof (cases "clean envFile = clean p")
    case True
    have "\<exists>x. inst_bind (install_atomicWrite envFile (env_text key h ip) 416) (\<lambda>_. own_env_file e) s = (x, s)"
      if "w_dead (m_world s)" for s using dead_atomic [OF that, of envFile "env_text key h ip" 416] by (auto simp: inst_bind_def)
    then show ?thesis unfolding write_env_once_def [abs_def] using True by (intro kept_there)
  next
    case False then show ?thesis by (intro keeping.env_once) (rule kept_other)
  qed
  ultimately have "follows (kept p f) (Install e d key hostname)"
    using p by (intro keeping.install keeping.prepared) (auto intro: kept_other)
  from followsD [OF this, of s] assms(1,3) show ?thesis unfolding kept_def by (metis prod.collapse)
qed

section \<open>Started only when verified\<close>

interpretation calling: step_relation "\<lambda>s s'. \<exists>cs. m_calls s' = m_calls s @ cs \<and> start_call \<notin> set cs" "\<lambda>c. c \<noteq> start_call"
  by unfold_locales auto

definition extends :: "checker \<Rightarrow> bool" where
  "extends c \<longleftrightarrow> (\<forall>r s r' s'. c r s = (r', s') \<longrightarrow> prefix r r')"

lemma prefix_check [simp]: "prefix r (check l n m r)" "prefix r (check l n m (check l' n' m' r))"
  by (simp_all add: check_def)

lemma extends_dirs: "check_dirs ds r s = (r', s') \<Longrightarrow> prefix r r'"
  by (induction ds r s rule: check_dirs.induct)
     (auto split: prod.splits sum.splits intro: prefix_order.trans [OF prefix_check(1)])

lemma extends_config: "(\<And>r. prefix r (miss r)) \<Longrightarrow> extends (check_config load en l miss val)"
  by (auto simp: extends_def check_config_def split: prod.splits sum.splits if_splits)

lemma extends_checkers: "c \<in> set (checkers e d) \<Longrightarrow> extends c"
proof -
  have "extends (checkBinary e)"
    by (auto simp: extends_def checkBinary_def split: prod.splits sum.splits if_splits)
  moreover have "extends checkEnvFile"
    by (auto simp: extends_def checkEnvFile_def Let_def split: prod.splits sum.splits install_error.splits if_splits)
  moreover have "extends checkDirectories"
    by (auto simp: extends_def checkDirectories_def simp del: check_dirs.simps split: prod.splits if_splits
        dest!: extends_dirs intro: prefix_order.trans)
  moreover have "extends (checkUnitFile e)"
    by (auto simp: extends_def checkUnitFile_def split: prod.splits sum.splits)
  ultimately show "c \<in> set (checkers e d) \<Longrightarrow> extends c"
    unfolding checkers_def checkConfigMetrics_def checkConfigFiles_def checkConfigVars_def checkConfigDocker_def checkConfigSystemd_def
    by (auto intro!: extends_config)
qed

lemma extends_run: "(\<And>c. c \<in> set cs \<Longrightarrow> extends c) \<Longrightarrow> run_checks cs r s = (r', s') \<Longrightarrow> prefix r r'"
proof (induction cs arbitrary: r s)
  case (Cons c cs)
  obtain r1 s1 where c: "c r s = (r1, s1)" by fastforce
  then have "prefix r r1" using Cons.prems(1) [of c] by (auto simp: extends_def)
  moreover have "prefix r1 r'" using Cons c by auto
  ultimately show ?case by (rule prefix_order.trans)
qed simp

lemma errors_prefix: "prefix r r' \<Longrightarrow> \<not> HasErrors r' \<Longrightarrow> \<not> HasErrors r"
  by (auto simp: prefix_def HasErrors_def)

text \<open>In a report without errors every check passed, on the same files.\<close>

lemma check_passed:
  assumes "\<And>c. c \<in> set cs \<Longrightarrow> extends c \<and> only_reads c" "run_checks cs r s = (r', s')" "\<not> HasErrors r'" "c \<in> set cs"
  shows "\<exists>r0 s0 r1 s1. c r0 s0 = (r1, s1) \<and> \<not> HasErrors r1 \<and> undisturbed s s0 \<and> undisturbed s0 s1"
  using assms
proof (induction cs arbitrary: r s)
  case (Cons b cs)
  obtain r1 s1 where b: "b r s = (r1, s1)" by fastforce
  have un: "undisturbed s s1" using Cons.prems(1) [of b] b by (auto simp: only_reads_def)
  have rest: "run_checks cs r1 s1 = (r', s')" using Cons.prems(2) b by simp
  have "prefix r1 r'" by (rule extends_run [OF _ rest]) (simp add: Cons.prems(1))
  then have noerr: "\<not> HasErrors r1" using Cons.prems(3) by (rule errors_prefix)
  show ?case
  proof (cases "c = b")
    case True then show ?thesis using b un noerr undisturbed_refl by blast
  next
    case False
    then have "c \<in> set cs" using Cons.prems(4) by simp
    with Cons.IH [OF _ rest Cons.prems(3) this] Cons.prems(1)
    obtain r0 s0 r2 s2 where "c r0 s0 = (r2, s2)" "\<not> HasErrors r2" "undisturbed s1 s0" "undisturbed s0 s2" by fastforce
    then show ?thesis using undisturbed_trans [OF un] by blast
  qed
qed simp

lemma check_error [simp]: "HasErrors (check levelError l m r)"
  by (simp add: check_def HasErrors_def)

lemma config_passed:
  assumes "check_config load en l (check levelError l' m) val r s = (r', s')" "\<not> HasErrors r'"
  shows "\<exists>cfg w. load (m_world s) = (Inr cfg, w) \<and> en cfg"
  using assms by (auto simp: check_config_def split: prod.splits sum.splits if_splits)

lemma env_passed:
  assumes "checkEnvFile r s = (r', s')" "\<not> HasErrors r'"
  shows "\<exists>f. get_file (m_world s) envFile = Some f \<and> list_ex auth_line (setup_splitLines (f_data f))"
proof -
  obtain x s1 where st: "on_world (os_Stat envFile) s = (x, s1)" by fastforce
  obtain y s2 where rd: "on_world (os_ReadFile envFile) s1 = (y, s2)" by fastforce
  obtain u where x: "x = Inr u" using assms st by (cases x) (auto simp: checkEnvFile_def)
  have ok: "\<exists>data. y = Inr data \<and> list_ex auth_line (setup_splitLines data)"
  proof (cases y)
    case (Inl z')
    then obtain z where "y = Inl (Cause z)" using rd by (auto simp: on_world_def split: prod.splits sum.splits)
    then show ?thesis using assms st rd x by (simp add: checkEnvFile_def Let_def) (metis check_error)
  next
    case (Inr data)
    then have "(if list_ex auth_line (setup_splitLines data) then r0 else check levelError ''env'' msg r0) = r' \<Longrightarrow>
        list_ex auth_line (setup_splitLines data)" for r0 msg using assms(2) by (auto split: if_splits)
    then show ?thesis using assms(1) st rd x Inr by (auto simp: checkEnvFile_def Let_def)
  qed
  then obtain data where data: "y = Inr data" "list_ex auth_line (setup_splitLines data)" by blast
  then obtain w where "os_ReadFile envFile (m_world s1) = (Inr data, w)"
    using rd by (auto simp: on_world_def split: prod.splits sum.splits)
  from ReadFile_result [OF this] data(2) undisturbed_calls(1) [OF st] show ?thesis
    by (auto simp: undisturbed_def same_files_get)
qed

lemma atomic_ok: "install_atomicWrite p c mode s = (Inr u, s') \<Longrightarrow> wrote p \<lparr>f_data = c, f_perm = mode\<rparr> (m_world s) (m_world s')"
proof -
  assume run: "install_atomicWrite p c mode s = (Inr u, s')"
  obtain x w where rp: "replace_install p c mode (m_world s) = (x, w)" by fastforce
  with run have "x = Inr () \<and> m_world s' = w"
    by (cases x) (auto simp: install_atomicWrite_def inst_bind_def at_def on_world_def)
  with replace_install_cases [OF rp] show ?thesis by simp
qed

lemma at_ok: "at l m s = (Inr a, s') \<longleftrightarrow> m s = (Inr a, s')"
  by (auto simp: at_def split: prod.splits sum.splits)

lemma bind_ok: "inst_bind m f s = (Inr b, s'') \<longleftrightarrow> (\<exists>a s'. m s = (Inr a, s') \<and> f a s' = (Inr b, s''))"
  by (auto simp: inst_bind_def split: prod.splits sum.splits)

lemma run_world: "run e args s = (r, s') \<Longrightarrow> m_world s' = m_world s"
  by (auto simp: run_def split: prod.splits option.splits dest!: command_cases)

lemma prepare_ok:
  assumes "prepare e key hostname s = (Inr u, s')"
  shows "(\<exists>data. get_file (m_world s') binaryDst = Some \<lparr>f_data = data, f_perm = 493\<rparr>) \<and> get_file (m_world s') unitFile = Some (text_file unitContent)"
proof -
  obtain s1 s2 s3 u1 u2 where s: "installBinary e s1 = (Inr u1, s2)" "writeUnitFile s2 = (Inr u2, s3)" "enableService e s3 = (Inr u, s')"
    using assms [unfolded prepare_def Let_def step_def bind_ok at_ok] by blast
  obtain data t where "wrote binaryDst \<lparr>f_data = data, f_perm = 493\<rparr> t (m_world s2)"
    using s(1) by (auto simp: installBinary_def bind_ok at_ok inst_fail_def split: option.splits dest!: atomic_ok)
  then have bin: "get_file (m_world s2) binaryDst = Some \<lparr>f_data = data, f_perm = 493\<rparr>" by (simp add: wrote_get)
  have unit: "wrote unitFile (text_file unitContent) (m_world s2) (m_world s3)"
    using s(2) by (auto simp: writeUnitFile_def at_ok text_file_def dest!: atomic_ok)
  have "m_world s' = m_world s3"
    using s(3) [unfolded enableService_def bind_ok at_ok] run_world by metis
  moreover have "binaryDst \<noteq> unitFile" by (simp add: binaryDst_def unitFile_def)
  ultimately show ?thesis using bin unit by (simp add: wrote_get)
qed

lemma start_world: "startService e s = (r, s') \<Longrightarrow> m_world s' = m_world s"
  unfolding startService_def
  by (auto elim!: inst_bind_cases simp: at_def split: prod.splits sum.splits dest!: run_world wait_calls)

definition config_ready :: "(world \<Rightarrow> (config_error + 'c) \<times> world) \<Rightarrow> ('c \<Rightarrow> bool) \<Rightarrow> ('c \<Rightarrow> bool) \<Rightarrow> world \<Rightarrow> bool" where
  "config_ready load enabled valid w \<longleftrightarrow> (\<exists>w0 cfg w1. same_files w0 w \<and> load w0 = (Inr cfg, w1) \<and> enabled cfg \<and> valid cfg)"

lemma same_files_sym: "same_files w w' \<Longrightarrow> same_files w' w"
  by (simp add: same_files_def)

lemma verified_ready:
  assumes "Verify e d s = (r, s')" "\<not> HasErrors r" "same_files (m_world s) w"
  shows "config_ready (LoadMetricsConfig d) mc_Enabled metrics_valid w" "config_ready (LoadFilesConfig d) fc_Enabled files_valid w"
    "config_ready (LoadVarsConfig d) vc_Enabled vars_valid w"
    "\<exists>f. get_file w envFile = Some f \<and> list_ex auth_line (setup_splitLines (f_data f))"
proof -
  have passed: "\<exists>r0 s0 r1 s1. c r0 s0 = (r1, s1) \<and> \<not> HasErrors r1 \<and> same_files (m_world s0) w"
    if c: "c \<in> set (checkers e d)" for c
  proof -
    obtain r0 s0 r1 s1 where "c r0 s0 = (r1, s1)" "\<not> HasErrors r1" "undisturbed s s0"
      using check_passed [OF _ assms(1) [unfolded Verify_def] assms(2) c] extends_checkers reads_checkers by blast
    then show ?thesis using same_files_trans [OF same_files_sym assms(3)] unfolding undisturbed_def by blast
  qed
  have ready: "config_ready load en valid w"
    if "check_config load en l (check levelError l' m) val \<in> set (checkers e d)" "\<And>w0 cfg w1. load w0 = (Inr cfg, w1) \<Longrightarrow> en cfg \<Longrightarrow> valid cfg"
    for load :: "world \<Rightarrow> (config_error + 'x) \<times> world" and en valid l l' m val
    using passed [OF that(1)] config_passed that(2) unfolding config_ready_def by blast
  show "config_ready (LoadMetricsConfig d) mc_Enabled metrics_valid w"
    by (rule ready) (auto simp: checkers_def checkConfigMetrics_def LoadMetricsConfig_def intro: metrics_loader.enabled_valid)
  show "config_ready (LoadFilesConfig d) fc_Enabled files_valid w"
    by (rule ready) (auto simp: checkers_def checkConfigFiles_def LoadFilesConfig_def intro: files_loader.enabled_valid)
  show "config_ready (LoadVarsConfig d) vc_Enabled vars_valid w"
    by (rule ready) (auto simp: checkers_def checkConfigVars_def LoadVarsConfig_def intro: vars_loader.enabled_valid)
  have "checkEnvFile \<in> set (checkers e d)" by (simp add: checkers_def)
  from passed [OF this] env_passed show "\<exists>f. get_file w envFile = Some f \<and> list_ex auth_line (setup_splitLines (f_data f))"
    using same_files_get by metis
qed

text \<open>
  C13 (started only when verified). If an installation ever runs \<^verbatim>\<open>systemctl start\<close>, the machine it leaves has the binary, executable,
  the installer's unit file, an environment file with a key, and configurations for metrics, files and variables
  that load, are enabled and valid. It does not run it after a step has failed.
\<close>

theorem install_starts_verified:
  assumes "Install e d key hostname s = (r, s')" "m_calls s' = m_calls s @ cs" "start_call \<in> set cs"
  shows "(\<exists>data. get_file (m_world s') binaryDst = Some \<lparr>f_data = data, f_perm = 493\<rparr>) \<and>
    get_file (m_world s') unitFile = Some (text_file unitContent) \<and>
    (\<exists>f. get_file (m_world s') envFile = Some f \<and> list_ex auth_line (setup_splitLines (f_data f))) \<and>
    config_ready (LoadMetricsConfig d) mc_Enabled metrics_valid (m_world s') \<and>
    config_ready (LoadFilesConfig d) fc_Enabled files_valid (m_world s') \<and>
    config_ready (LoadVarsConfig d) vc_Enabled vars_valid (m_world s')"
proof -
  have quiet: "follows (\<lambda>s s'. \<exists>cs. m_calls s' = m_calls s @ cs \<and> start_call \<notin> set cs) (prepare e key hostname)"
    by (intro calling.prepared calling.if_absent calling.env_once) auto
  obtain x s1 where p: "prepare e key hostname s = (x, s1)" by fastforce
  obtain rep s2 where v: "Verify e d s1 = (rep, s2)" by fastforce
  obtain cs1 where cs1: "m_calls s1 = m_calls s @ cs1" "start_call \<notin> set cs1" using followsD [OF quiet p] by blast
  obtain cs2 where cs2: "m_calls s2 = m_calls s1 @ cs2" "start_call \<notin> set cs2" using Verify_reads [OF v] unfolding undisturbed_def by blast
  have "x = Inr () \<and> \<not> HasErrors rep"
  proof (rule ccontr)
    assume "\<not> (x = Inr () \<and> \<not> HasErrors rep)"
    then have "s' = s1 \<or> s' = s2" using assms(1) p v
      by (cases x) (auto simp: Install_def inst_bind_def verified_def split: if_splits)
    then show False using assms(2,3) cs1 cs2 by auto
  qed
  then have st: "step 10 (startService e) s2 = (r, s')" "prepare e key hostname s = (Inr (), s1)" "\<not> HasErrors rep"
    using assms(1) p v by (auto simp: Install_def inst_bind_def verified_def)
  have "m_world s' = m_world s2"
    using st(1) start_world by (auto simp: step_def at_def split: prod.splits sum.splits)
  then have same: "same_files (m_world s1) (m_world s')" using Verify_reads [OF v] by (simp add: undisturbed_def)
  from prepare_ok [OF st(2)] verified_ready [OF v st(3) same] show ?thesis by (simp add: same_files_get [OF same])
qed

end
