(* ===== verification/InstallerRun.thy ===== *)
theory InstallerRun
  imports InstallerProps
begin

text \<open>
  An installation without failures: on a fresh machine it succeeds, its own configuration files pass the daemon's validation, and the
  service is started. The TOML decoder is taken to read the skeletons as they are written.
\<close>

section \<open>The skeletons\<close>

definition metrics_skeleton :: metrics_config where
  "metrics_skeleton = \<lparr>mc_Enabled = False, mc_Host = True, mc_CPU = True, mc_Memory = True, mc_Disk = True, mc_DiskPaths = [],
     mc_Network = True, mc_Interfaces = [], mc_Processes = True, mc_Limit = Some 20, mc_Ports = False\<rparr>"

definition no_identity :: resolved_identity where
  "no_identity = \<lparr>ri_UID = 0, ri_GID = 0, ri_Set = False\<rparr>"

definition files_skeleton :: files_config where
  "files_skeleton = \<lparr>fc_Enabled = False, fc_Paths =
     [\<lparr>ru_Dir = ''/var/lib/tailkitd/recv/'', ru_Allow = [''read'', ''write''], ru_UseAsUser = [], ru_UseAs = no_identity, ru_Share = True\<rparr>,
      \<lparr>ru_Dir = ''/etc/tailkitd/'', ru_Allow = [''read''], ru_UseAsUser = [], ru_UseAs = no_identity, ru_Share = False\<rparr>]\<rparr>"

definition vars_skeleton :: vars_config where
  "vars_skeleton = \<lparr>vc_Enabled = False, vc_Scopes = [\<lparr>vs_Project = ''myapp'', vs_Env = ''prod'', vs_Allow = [''read'', ''write'']\<rparr>]\<rparr>"

definition docker_skeleton :: docker_config where
  "docker_skeleton = \<lparr>dk_Enabled = False,
     dk_Containers = \<lparr>ds_Enabled = True, ds_Allow = [''list'', ''inspect'', ''logs'', ''stats'', ''start'', ''stop'', ''restart'']\<rparr>,
     dk_Images = \<lparr>ds_Enabled = True, ds_Allow = [''list'']\<rparr>,
     dk_Compose = \<lparr>ds_Enabled = True, ds_Allow = [''list'', ''up'', ''down'', ''restart'']\<rparr>,
     dk_Swarm = \<lparr>ds_Enabled = False, ds_Allow = [''read'']\<rparr>\<rparr>"

definition systemd_skeleton :: systemd_config where
  "systemd_skeleton = \<lparr>sd_Enabled = False,
     sd_Units = \<lparr>uc_Enabled = True, uc_Allow = [''list'', ''inspect'', ''unit_file'', ''logs'', ''start'', ''stop'', ''restart'', ''reload'']\<rparr>,
     sd_Journal = \<lparr>jc_Enabled = True, jc_Priority = ''info'', jc_Lines = 100, jc_SystemJournal = False\<rparr>\<rparr>"

definition decodes_skeletons :: "decoders \<Rightarrow> bool" where
  "decodes_skeletons d \<longleftrightarrow> de_metrics d skeletonMetrics = Some metrics_skeleton \<and> de_files d skeletonFiles = Some files_skeleton \<and>
     de_vars d skeletonVars = Some vars_skeleton \<and> de_docker d skeletonDocker = Some docker_skeleton \<and>
     de_systemd d skeletonSystemd = Some systemd_skeleton"

text \<open>They pass the validators.\<close>

lemma skeletons_valid:
  "validateMetricsConfig metrics_skeleton = None" "validateFilesConfig files_skeleton = None" "validateVarsConfig vars_skeleton = None"
  "validateDockerConfig docker_skeleton = None" "validateSystemdConfig (systemd_skeleton\<lparr>sd_Journal := journal_defaults (sd_Journal systemd_skeleton)\<rparr>) = None"
  by code_simp+

lemma load_config_reads:
  assumes "fault_free w" "get_file w path = Some f" "toml (f_data f) = Some cfg"
  shows "fst (load_config toml zero valid path w) = (case valid cfg of Inl e \<Rightarrow> Inl (ConfigInvalid e) | Inr c \<Rightarrow> Inr c)"
  using assms by (simp add: load_config_def ReadFile_fault_free split: sum.splits)

lemma skeletons_load:
  assumes "decodes_skeletons d" "fault_free w"
  shows "get_file w MetricsConfigPath = Some (text_file skeletonMetrics) \<Longrightarrow> \<exists>cfg. fst (LoadMetricsConfig d w) = Inr cfg \<and> mc_Enabled cfg"
    "get_file w FilesConfigPath = Some (text_file skeletonFiles) \<Longrightarrow> \<exists>cfg. fst (LoadFilesConfig d w) = Inr cfg \<and> fc_Enabled cfg"
    "get_file w VarsConfigPath = Some (text_file skeletonVars) \<Longrightarrow> \<exists>cfg. fst (LoadVarsConfig d w) = Inr cfg \<and> vc_Enabled cfg"
    "get_file w DockerConfigPath = Some (text_file skeletonDocker) \<Longrightarrow> \<exists>cfg. fst (LoadDockerConfig d w) = Inr cfg \<and> dk_Enabled cfg"
    "get_file w SystemdConfigPath = Some (text_file skeletonSystemd) \<Longrightarrow> \<exists>cfg. fst (LoadSystemdConfig d w) = Inr cfg \<and> sd_Enabled cfg"
proof -
  have m: "mc_Limit metrics_skeleton = Some 20" by (simp add: metrics_skeleton_def)
  note def = LoadMetricsConfig_def LoadFilesConfig_def LoadVarsConfig_def LoadDockerConfig_def LoadSystemdConfig_def
    loadMetricsConfigFrom_def loadFilesConfigFrom_def loadVarsConfigFrom_def loadDockerConfigFrom_def loadSystemdConfigFrom_def
  note dec = assms(1) [unfolded decodes_skeletons_def]
  show "\<exists>cfg. fst (LoadMetricsConfig d w) = Inr cfg \<and> mc_Enabled cfg" if "get_file w MetricsConfigPath = Some (text_file skeletonMetrics)"
    using dec m skeletons_valid(1) unfolding def
    by (subst load_config_reads [OF assms(2) that, where cfg = metrics_skeleton]) (simp_all add: text_file_def Let_def)
  show "\<exists>cfg. fst (LoadFilesConfig d w) = Inr cfg \<and> fc_Enabled cfg" if "get_file w FilesConfigPath = Some (text_file skeletonFiles)"
    using dec skeletons_valid(2) unfolding def
    by (subst load_config_reads [OF assms(2) that, where cfg = files_skeleton]) (simp_all add: text_file_def Let_def)
  show "\<exists>cfg. fst (LoadVarsConfig d w) = Inr cfg \<and> vc_Enabled cfg" if "get_file w VarsConfigPath = Some (text_file skeletonVars)"
    using dec skeletons_valid(3) unfolding def
    by (subst load_config_reads [OF assms(2) that, where cfg = vars_skeleton]) (simp_all add: text_file_def Let_def)
  show "\<exists>cfg. fst (LoadDockerConfig d w) = Inr cfg \<and> dk_Enabled cfg" if "get_file w DockerConfigPath = Some (text_file skeletonDocker)"
    using dec skeletons_valid(4) unfolding def
    by (subst load_config_reads [OF assms(2) that, where cfg = docker_skeleton]) (simp_all add: text_file_def Let_def)
  show "\<exists>cfg. fst (LoadSystemdConfig d w) = Inr cfg \<and> sd_Enabled cfg" if "get_file w SystemdConfigPath = Some (text_file skeletonSystemd)"
    using dec skeletons_valid(5) unfolding def
    by (subst load_config_reads [OF assms(2) that, where cfg = systemd_skeleton]) (simp_all add: text_file_def Let_def)
qed

section \<open>The environment file\<close>

lemma split_unlines: "\<forall>l \<in> set ls. CHR 0x0A \<notin> set l \<Longrightarrow> split_on (CHR 0x0A) (unlines ls) = ls @ [[]]"
  by (induction ls) (simp_all add: unlines_def split_on_append split_on_notin)

lemma unlines_append: "unlines (xs @ ys) = unlines xs @ unlines ys"
  by (simp add: unlines_def)

lemma env_key_found:
  assumes "key \<noteq> []" "CHR 0x0A \<notin> set key"
  shows "list_ex auth_line (setup_splitLines (env_text key h ip))"
proof -
  have "auth_line (''TS_AUTHKEY='' @ key)" using assms(1) by (cases key) (simp_all add: auth_line_def)
  moreover have "split_on (CHR 0x0A) (env_text key h ip) = (''TS_AUTHKEY='' @ key) #
      split_on (CHR 0x0A) (unlines [''TAILKITD_HOSTNAME=tailkitd-'' @ h, ''TAILKITD_ENV=production'', ''HOST_TAILSCALE_IP='' @ ip])"
    using assms(2) by (simp add: env_text_def unlines_def split_on_append split_on_notin)
  ultimately show ?thesis by (simp add: setup_splitLines_def)
qed

section \<open>Steps that do not fail\<close>

definition written_paths :: "string list" where
  "written_paths = [binaryDst, unitFile, envFile] @ map fst operator_files"

definition dir_prefixes :: "string list" where
  "dir_prefixes = concat (map (\<lambda>(d, mode). path_prefixes (clean d)) install_dirs)"

text \<open>
  A machine in which the steps cannot fail: no faults, the two directories of others are there, no file is in the way of a directory
  and no directory in the way of a file, and the directories \<open>ds\<close> exist.
\<close>

definition sound_machine :: "string list \<Rightarrow> machine \<Rightarrow> bool" where
  "sound_machine ds s \<longleftrightarrow> fault_free (m_world s) \<and> set ([''/usr/local/bin'', ''/etc/systemd/system''] @ ds) \<subseteq> set (w_dirs (m_world s)) \<and>
     list_all (\<lambda>p. p \<notin> set (w_dirs (m_world s))) written_paths \<and> list_all (\<lambda>d. get_file (m_world s) d = None) dir_prefixes"

lemma path_facts:
  "list_all (\<lambda>p. clean p = p \<and> clean (dir_of p) = dir_of p \<and> p \<notin> set dir_prefixes) written_paths"
  "list_all (\<lambda>d. clean d = d) dir_prefixes" "list_all (\<lambda>(d, mode). clean d = d) install_dirs"
  by code_simp+

lemma written_clean: "p \<in> set written_paths \<Longrightarrow> clean p = p \<and> clean (dir_of p) = dir_of p \<and> p \<notin> set dir_prefixes"
  using path_facts(1) by (simp add: list_all_iff)

lemma sound_more: "sound_machine ds s \<Longrightarrow> set ds' \<subseteq> set ds \<Longrightarrow> sound_machine ds' s"
  by (auto simp: sound_machine_def)

lemma sound_command: "sound_machine ds s \<Longrightarrow> sound_machine ds (s\<lparr>m_calls := cs, m_owner := os, m_modes := ms\<rparr>)"
  "sound_machine ds s \<Longrightarrow> sound_machine ds (s\<lparr>m_calls := cs\<rparr>)" "sound_machine ds s \<Longrightarrow> sound_machine ds (s\<lparr>m_owner := os\<rparr>)"
  by (simp_all add: sound_machine_def)

lemma sound_alive: "sound_machine ds s \<Longrightarrow> \<not> w_dead (m_world s)"
  by (simp add: sound_machine_def fault_free_def)

definition tick :: "machine \<Rightarrow> machine" where
  "tick s = s\<lparr>m_world := (m_world s)\<lparr>w_clock := Suc (w_clock (m_world s))\<rparr>\<rparr>"

lemma tick_simps [simp]:
  "get_file (m_world (tick s)) p = get_file (m_world s) p" "w_dirs (m_world (tick s)) = w_dirs (m_world s)"
  "fault_free (m_world (tick s)) = fault_free (m_world s)" "m_calls (tick s) = m_calls s" "m_modes (tick s) = m_modes s"
  "sound_machine ds (tick s) = sound_machine ds s"
  by (simp_all add: tick_def sound_machine_def)

lemma stat_ff: "fault_free (m_world s) \<Longrightarrow> on_world (os_Stat p) s =
   (if get_file (m_world s) p \<noteq> None \<or> clean p \<in> set (w_dirs (m_world s)) then Inr () else Inl (Cause ENOENT), tick s)"
  by (simp add: on_world_def os_Stat_def io_call_fault_free tick_def)

lemma read_ff: "fault_free (m_world s) \<Longrightarrow> get_file (m_world s) p = Some f \<Longrightarrow> on_world (os_ReadFile p) s = (Inr (f_data f), tick s)"
  by (simp add: on_world_def ReadFile_fault_free tick_def)

lemma run_ok: "sound_machine ds s \<Longrightarrow> he_command e (m_calls s @ [args]) \<noteq> None \<Longrightarrow>
   run e args s = (Inr (), s\<lparr>m_calls := m_calls s @ [args]\<rparr>)"
  using sound_alive by (auto simp: run_def command_def)

lemma atomic_ff:
  assumes "sound_machine ds s" "p \<in> set written_paths" "dir_of p \<in> set (w_dirs (m_world s))"
  shows "\<exists>s'. install_atomicWrite p c mode s = (Inr (), s') \<and> sound_machine ds s' \<and> m_calls s' = m_calls s \<and>
     (\<forall>q. get_file (m_world s') q = (if clean q = p then Some \<lparr>f_data = c, f_perm = mode\<rparr> else get_file (m_world s) q))"
proof -
  let ?w = "m_world s"
  note p = written_clean [OF assms(2)]
  have ff: "fault_free ?w" and np: "p \<notin> set (w_dirs ?w)" using assms(1,2) by (auto simp: sound_machine_def list_all_iff)
  obtain r w' where rp: "replace_install p c mode ?w = (r, w')" by fastforce
  have "r = Inr () \<and> fault_free w'"
    using rp ff np p assms(3)
    by (auto simp: replace_install_def os_CreateTemp_def io_bind_def io_call_fault_free defer_remove_def
        tmp_Chmod_def tmp_Write_def tmp_Close_def tmp_append_def tmp_update_def os_Rename_def put_file_def tmp_Remove_def)
  then have w: "wrote p \<lparr>f_data = c, f_perm = mode\<rparr> ?w w'" "r = Inr ()" "fault_free w'" using replace_install_cases [OF rp] by auto
  let ?s = "s\<lparr>m_world := w', m_owner := AList.update (clean p) (0, 0) (m_owner s)\<rparr>"
  have "install_atomicWrite p c mode s = (Inr (), ?s)"
    using rp w(2) by (simp add: install_atomicWrite_def inst_bind_def at_def on_world_def)
  moreover have "w_dirs w' = w_dirs ?w" using w(1) by (simp add: wrote_def)
  then have "sound_machine ds ?s"
    using assms(1) w(1,3) p path_facts(2) by (auto simp: sound_machine_def wrote_get list_all_iff)
  ultimately show ?thesis using w(1) p by (intro exI [of _ ?s]) (simp add: wrote_get)
qed

lemma absent_ff:
  assumes "sound_machine ds s" "p \<in> set written_paths" "dir_of p \<in> set (w_dirs (m_world s))" "get_file (m_world s) p = None"
  shows "\<exists>s'. writeIfAbsent p c mode s = (Inr (), s') \<and> sound_machine ds s' \<and> m_calls s' = m_calls s \<and>
     (\<forall>q. get_file (m_world s') q = (if clean q = p then Some \<lparr>f_data = c, f_perm = mode\<rparr> else get_file (m_world s) q))"
proof -
  have ff: "fault_free (m_world s)" "clean p \<notin> set (w_dirs (m_world s))"
    using assms(1,2) written_clean [OF assms(2)] by (auto simp: sound_machine_def list_all_iff)
  then have "writeIfAbsent p c mode s = install_atomicWrite p c mode (tick s)"
    using assms(4) by (simp add: writeIfAbsent_def stat_ff)
  moreover obtain s' where "install_atomicWrite p c mode (tick s) = (Inr (), s')" "sound_machine ds s'" "m_calls s' = m_calls s"
    "\<forall>q. get_file (m_world s') q = (if clean q = p then Some \<lparr>f_data = c, f_perm = mode\<rparr> else get_file (m_world s) q)"
    using atomic_ff [of ds "tick s" p c mode] assms(1-3) by auto
  ultimately show ?thesis by (intro exI [of _ s']) simp
qed

lemma dir_facts: "list_all (\<lambda>(d, mode). clean d = d \<and> d \<in> set (path_prefixes (clean d))) install_dirs"
  by code_simp

lemma make_dirs_ff:
  assumes "sound_machine ds s" "(p, mode) \<in> set install_dirs"
  shows "\<exists>s'. make_dirs p mode s = (Inr (), s') \<and> sound_machine (p # ds) s' \<and> m_calls s' = m_calls s \<and>
     (\<forall>q. get_file (m_world s') q = get_file (m_world s) q)"
proof -
  let ?w = "m_world s" and ?ps = "path_prefixes (clean p)"
  have sub: "set ?ps \<subseteq> set dir_prefixes" using assms(2) by (auto simp: dir_prefixes_def)
  have p: "clean p = p" "p \<in> set ?ps" using dir_facts assms(2) by (auto simp: list_all_iff)
  have none: "\<not> list_ex (\<lambda>d. get_file ?w d \<noteq> None) ?ps"
    using assms(1) sub by (auto simp: sound_machine_def list_all_iff list_ex_iff)
  let ?w' = "?w\<lparr>w_clock := Suc (w_clock ?w), w_dirs := List.union ?ps (w_dirs ?w)\<rparr>"
  have mk: "os_MkdirAll p ?w = (Inr (), ?w')"
    using none assms(1) by (simp add: os_MkdirAll_def io_call_fault_free sound_machine_def list_ex_iff)
  obtain s' where run: "make_dirs p mode s = (Inr (), s')" "m_world s' = ?w'" "m_calls s' = m_calls s"
    by (simp add: make_dirs_def on_world_def mk Let_def)
  have "sound_machine (p # ds) s'"
    using assms(1) sub p written_clean by (auto simp: sound_machine_def run(2) list_all_iff)
  then show ?thesis using run by (intro exI [of _ s']) simp
qed

lemma each_dir_ff:
  assumes "sound_machine ds s" "set L \<subseteq> set install_dirs"
  shows "\<exists>s'. each_dir u g L s = (Inr (), s') \<and> sound_machine (map fst L @ ds) s' \<and> m_calls s' = m_calls s \<and>
     (\<forall>q. get_file (m_world s') q = get_file (m_world s) q)"
  using assms
proof (induction L arbitrary: s ds)
  case Nil then show ?case by (simp add: inst_return_def)
next
  case (Cons a L)
  obtain p mode where a: "a = (p, mode)" by fastforce
  obtain s1 where s1: "make_dirs p mode s = (Inr (), s1)" "sound_machine (p # ds) s1" "m_calls s1 = m_calls s"
    "\<forall>q. get_file (m_world s1) q = get_file (m_world s) q" using make_dirs_ff [OF Cons.prems(1), of p mode] Cons.prems(2) a by auto
  have "clean p = p" using dir_facts Cons.prems(2) a by (auto simp: list_all_iff)
  then have "on_world (os_Stat p) s1 = (Inr (), tick s1)" using s1(2) by (simp add: stat_ff sound_machine_def)
  then obtain s2 where s2: "os_Chown p u g s1 = (Inr (), s2)" "sound_machine (p # ds) s2" "m_calls s2 = m_calls s1"
    "m_world s2 = m_world (tick s1)"
    using s1(2) by (simp add: os_Chown_def inst_bind_def sound_command)
  obtain s3 where "each_dir u g L s2 = (Inr (), s3)" "sound_machine (map fst L @ p # ds) s3" "m_calls s3 = m_calls s2"
    "\<forall>q. get_file (m_world s3) q = get_file (m_world s2) q" using Cons.IH [OF s2(2)] Cons.prems(2) by auto
  then show ?case using s1 s2 by (intro exI [of _ s3]) (auto simp: a inst_bind_def at_def intro: sound_more)
qed

lemma each_file_ff:
  assumes "sound_machine ds s" "\<And>p c. (p, c) \<in> set fs \<Longrightarrow> p \<in> set written_paths \<and> dir_of p \<in> set ds \<and> get_file (m_world s) p = None"
    and "distinct (map fst fs)"
  shows "\<exists>s'. each_file fs s = (Inr (), s') \<and> sound_machine ds s' \<and> m_calls s' = m_calls s \<and>
     (\<forall>q. get_file (m_world s') q = (case map_of fs (clean q) of Some c \<Rightarrow> Some (text_file c) | None \<Rightarrow> get_file (m_world s) q))"
  using assms
proof (induction fs arbitrary: s)
  case Nil then show ?case by (simp add: inst_return_def)
next
  case (Cons a fs)
  obtain p c where a: "a = (p, c)" by fastforce
  have p: "p \<in> set written_paths" "dir_of p \<in> set ds" "get_file (m_world s) p = None" using Cons.prems(2) a by auto
  then have "dir_of p \<in> set (w_dirs (m_world s))" using Cons.prems(1) by (auto simp: sound_machine_def)
  then obtain s1 where s1: "writeIfAbsent p c 420 s = (Inr (), s1)" "sound_machine ds s1" "m_calls s1 = m_calls s"
    "\<forall>q. get_file (m_world s1) q = (if clean q = p then Some \<lparr>f_data = c, f_perm = 420\<rparr> else get_file (m_world s) q)"
    using absent_ff [OF Cons.prems(1) p(1) _ p(3)] by blast
  have "get_file (m_world s1) p' = None" if "(p', c') \<in> set fs" for p' c'
  proof -
    have "p' \<noteq> p" using Cons.prems(3) that a by force
    then show ?thesis using s1(4) Cons.prems(2) [of p' c'] that written_clean [of p'] by simp
  qed
  then obtain s2 where "each_file fs s1 = (Inr (), s2)" "sound_machine ds s2" "m_calls s2 = m_calls s1"
    "\<forall>q. get_file (m_world s2) q = (case map_of fs (clean q) of Some c \<Rightarrow> Some (text_file c) | None \<Rightarrow> get_file (m_world s1) q)"
    using Cons.IH [OF s1(2)] Cons.prems(2,3) by force
  moreover have "map_of fs p = None" using Cons.prems(3) a by (simp add: map_of_eq_None_iff)
  ultimately show ?case using s1
    by (intro exI [of _ s2]) (auto simp: a inst_bind_def text_file_def split: option.splits)
qed


text \<open>A host whose commands all succeed and that knows its name, its user and group, and the running binary.\<close>

definition able_host :: "host_env \<Rightarrow> string \<Rightarrow> bool" where
  "able_host e self \<longleftrightarrow> (\<forall>cs. he_command e cs \<noteq> None \<and> he_user e cs \<noteq> None \<and> he_group e cs \<noteq> None) \<and>
     he_executable e = Some self \<and> he_hostname e \<noteq> None"

lemma able_run: "able_host e self \<Longrightarrow> sound_machine ds s \<Longrightarrow> run e args s = (Inr (), s\<lparr>m_calls := m_calls s @ [args]\<rparr>)"
  by (rule run_ok) (auto simp: able_host_def)

lemma user_ff:
  assumes "able_host e self" "sound_machine ds s"
  shows "\<exists>cs. ensureUser e b s = (Inr (), s\<lparr>m_calls := cs\<rparr>)"
  using able_run [OF assms(1) sound_command(2) [OF assms(2)]] able_run [OF assms]
  by (auto simp: ensureUser_def ensure_entry_def inst_bind_def at_def inst_return_def)

lemma enable_ff:
  assumes "able_host e self" "sound_machine ds s"
  shows "\<exists>cs. enableService e s = (Inr (), s\<lparr>m_calls := cs\<rparr>)"
  using able_run [OF assms(1) sound_command(2) [OF assms(2)]] able_run [OF assms]
  by (auto simp: enableService_def inst_bind_def at_def)

lemma directories_ff:
  assumes "able_host e self" "sound_machine ds s"
  shows "\<exists>s'. ensureDirectories e s = (Inr (), s') \<and> sound_machine (map fst install_dirs @ ds) s' \<and>
     (\<forall>q. get_file (m_world s') q = get_file (m_world s) q)"
proof -
  obtain u g where "he_user e (m_calls s) = Some (u, g)" using assms(1) unfolding able_host_def by (metis option.exhaust surj_pair)
  then show ?thesis using each_dir_ff [OF assms(2), of install_dirs "atoi_value u" "atoi_value g"]
    by (auto simp: ensureDirectories_def)
qed

lemma env_ff:
  assumes "able_host e self" "sound_machine ds s" "dir_of envFile \<in> set ds" "get_file (m_world s) envFile = None"
  shows "\<exists>s' h ip. writeEnvFile e key hostname s = (Inr (), s') \<and> sound_machine ds s' \<and>
     (\<forall>q. get_file (m_world s') q = (if clean q = envFile then Some \<lparr>f_data = env_text key h ip, f_perm = 416\<rparr> else get_file (m_world s) q))"
proof -
  obtain h where h: "install_hostname e hostname s = (Inr h, s)"
    using assms(1) by (cases "hostname = []") (auto simp: install_hostname_def able_host_def inst_return_def)
  let ?call = "[''tailscale'', ''ip'', ''-4'']" and ?s1 = "s\<lparr>m_calls := m_calls s @ [[''tailscale'', ''ip'', ''-4'']]\<rparr>"
  obtain ip where "he_command e (m_calls s @ [?call]) = Some ip" using assms(1) by (auto simp: able_host_def)
  then have ip: "getHostTailscaleIP e s = (Inr ip, ?s1)"
    using sound_alive [OF assms(2)] by (simp add: getHostTailscaleIP_def command_def)
  have s1: "sound_machine ds ?s1" by (rule sound_command(2) [OF assms(2)])
  have w: "envFile \<in> set written_paths" by (simp add: written_paths_def)
  have nodir: "envFile \<notin> set (w_dirs (m_world s))" "fault_free (m_world s)" "dir_of envFile \<in> set (w_dirs (m_world s))"
    using assms(2,3) w by (auto simp: sound_machine_def list_all_iff)
  obtain s2 where s2: "install_atomicWrite envFile (env_text key h ip) 416 (tick ?s1) = (Inr (), s2)" "sound_machine ds s2"
    "\<forall>q. get_file (m_world s2) q = (if clean q = envFile then Some \<lparr>f_data = env_text key h ip, f_perm = 416\<rparr> else get_file (m_world s) q)"
    using atomic_ff [of ds "tick ?s1" envFile "env_text key h ip" 416] s1 w nodir by auto
  obtain g where "he_group e (m_calls s2) = Some g" using assms(1) by (auto simp: able_host_def)
  moreover have "fault_free (m_world s2)" "get_file (m_world s2) envFile \<noteq> None" using s2(2,3) by (auto simp: sound_machine_def)
  ultimately obtain os where own: "own_env_file e s2 = (Inr (), (tick s2)\<lparr>m_owner := os\<rparr>)"
    by (simp add: own_env_file_def os_Chown_def inst_bind_def stat_ff)
  have "on_world (os_Stat envFile) ?s1 = (Inl (Cause ENOENT), tick ?s1)" using nodir assms(4) by (simp add: stat_ff)
  then have "writeEnvFile e key hostname s = (Inr (), (tick s2)\<lparr>m_owner := os\<rparr>)"
    using h ip s2(1) own by (simp add: writeEnvFile_def inst_bind_def at_def write_env_once_def)
  then show ?thesis using s2(2,3) by (intro exI [of _ "(tick s2)\<lparr>m_owner := os\<rparr>"] exI [of _ h] exI [of _ ip]) (simp add: sound_command)
qed


lemma binary_ff:
  assumes "able_host e self" "sound_machine ds s" "get_file (m_world s) self = Some f"
  shows "\<exists>s'. installBinary e s = (Inr (), s') \<and> sound_machine ds s' \<and>
     (\<forall>q. get_file (m_world s') q = (if clean q = binaryDst then Some \<lparr>f_data = f_data f, f_perm = 493\<rparr> else get_file (m_world s) q))"
proof -
  have rd: "on_world (os_ReadFile self) s = (Inr (f_data f), tick s)" using assms(2,3) by (auto simp: sound_machine_def read_ff)
  have "dir_of binaryDst = ''/usr/local/bin''" unfolding binaryDst_def by code_simp
  then have "dir_of binaryDst \<in> set (w_dirs (m_world (tick s)))" using assms(2) by (simp add: sound_machine_def)
  then obtain s' where "install_atomicWrite binaryDst (f_data f) 493 (tick s) = (Inr (), s')" "sound_machine ds s'"
    "\<forall>q. get_file (m_world s') q = (if clean q = binaryDst then Some \<lparr>f_data = f_data f, f_perm = 493\<rparr> else get_file (m_world s) q)"
    using atomic_ff [of ds "tick s" binaryDst "f_data f" 493] assms(2) by (auto simp: written_paths_def)
  then show ?thesis using assms(1) rd by (intro exI [of _ s']) (simp add: installBinary_def able_host_def inst_bind_def at_def)
qed

lemma unit_ff:
  assumes "sound_machine ds s"
  shows "\<exists>s'. writeUnitFile s = (Inr (), s') \<and> sound_machine ds s' \<and>
     (\<forall>q. get_file (m_world s') q = (if clean q = unitFile then Some (text_file unitContent) else get_file (m_world s) q))"
proof -
  have "dir_of unitFile = ''/etc/systemd/system''" unfolding unitFile_def by code_simp
  then have "dir_of unitFile \<in> set (w_dirs (m_world s))" using assms by (simp add: sound_machine_def)
  from atomic_ff [OF assms _ this, of unitContent 420] show ?thesis
    by (auto simp: written_paths_def writeUnitFile_def at_def text_file_def)
qed

section \<open>A fresh installation\<close>

definition fresh_machine :: "string \<Rightarrow> machine \<Rightarrow> bool" where
  "fresh_machine self s \<longleftrightarrow> sound_machine [] s \<and> get_file (m_world s) self \<noteq> None \<and>
     list_all (\<lambda>p. get_file (m_world s) p = None) (envFile # map fst operator_files)"

definition all_dirs :: "string list" where
  "all_dirs = map fst install_dirs"

lemma file_facts:
  "list_all (\<lambda>(p, c). dir_of p \<in> set all_dirs \<and> p \<noteq> envFile \<and> p \<noteq> binaryDst \<and> p \<noteq> unitFile \<and> clean p = p) operator_files"
  "distinct (map fst operator_files)" "dir_of envFile \<in> set all_dirs" "envFile \<noteq> binaryDst" "envFile \<noteq> unitFile" "binaryDst \<noteq> unitFile"
  by code_simp+

lemma config_sub: "set (config_files i) \<subseteq> set operator_files" "distinct (map fst (config_files i))"
proof -
  have "distinct (map fst (config_files \<lparr>in_Docker = b, in_Systemd = c\<rparr>))" for b c
    by (cases b; cases c; simp only:; code_simp)
  then show "distinct (map fst (config_files i))" by (cases i) simp
qed (auto simp: operator_files_def config_files_def)

definition prepared_files :: "integrations \<Rightarrow> string \<Rightarrow> string \<Rightarrow> string \<Rightarrow> string \<Rightarrow> (string \<times> ofile) list" where
  "prepared_files i key h ip data =
     [(unitFile, text_file unitContent), (binaryDst, \<lparr>f_data = data, f_perm = 493\<rparr>), (envFile, \<lparr>f_data = env_text key h ip, f_perm = 416\<rparr>)] @
     map (\<lambda>(p, c). (p, text_file c)) (config_files i)"

lemma prepare_ff:
  assumes "able_host e self" "fresh_machine self s"
  shows "\<exists>s' h ip data. prepare e key hostname s = (Inr (), s') \<and> sound_machine all_dirs s' \<and>
     (\<forall>q. get_file (m_world s') q = (case map_of (prepared_files (detectIntegrations e) key h ip data) (clean q) of
        Some f \<Rightarrow> Some f | None \<Rightarrow> get_file (m_world s) q))"
proof -
  let ?i = "detectIntegrations e" and ?g = "\<lambda>s. get_file (m_world s)"
  have fresh: "sound_machine [] s" "?g s self \<noteq> None" "\<And>p. p \<in> set (envFile # map fst operator_files) \<Longrightarrow> ?g s p = None"
    using assms(2) by (auto simp: fresh_machine_def list_all_iff)
  obtain f where f: "?g s self = Some f" using fresh(2) by blast
  obtain cs where u: "ensureUser e (in_Docker ?i) s = (Inr (), s\<lparr>m_calls := cs\<rparr>)" using user_ff [OF assms(1) fresh(1)] by blast
  obtain s2 where s2: "ensureDirectories e (s\<lparr>m_calls := cs\<rparr>) = (Inr (), s2)" "sound_machine all_dirs s2" "\<forall>q. ?g s2 q = ?g s q"
    using directories_ff [OF assms(1) sound_command(2) [OF fresh(1)]] by (auto simp: all_dirs_def)
  have "p \<in> set written_paths \<and> dir_of p \<in> set all_dirs \<and> ?g s2 p = None" if "(p, c) \<in> set (config_files ?i)" for p c
  proof -
    have "(p, c) \<in> set operator_files" using that config_sub(1) by blast
    moreover from this have "p \<in> set (map fst operator_files)" by force
    ultimately show ?thesis using file_facts(1) fresh(3) [of p] s2(3) by (auto simp: written_paths_def list_all_iff)
  qed
  then obtain s3 where s3: "writeConfigFiles ?i s2 = (Inr (), s3)" "sound_machine all_dirs s3"
    "\<forall>q. ?g s3 q = (case map_of (config_files ?i) (clean q) of Some c \<Rightarrow> Some (text_file c) | None \<Rightarrow> ?g s2 q)"
    using each_file_ff [OF s2(2) _ config_sub(2)] unfolding writeConfigFiles_def by blast
  have none: "map_of (config_files ?i) p = None" if "p \<notin> set (map fst operator_files)" for p
    using that config_sub(1) by (force simp: map_of_eq_None_iff)
  have "envFile \<notin> set (map fst operator_files)" using file_facts(1) by (force simp: list_all_iff)
  then have "?g s3 envFile = None" using s3(3) s2(3) fresh(3) none by simp
  from env_ff [OF assms(1) s3(2) file_facts(3) this] obtain s4 h ip where s4: "writeEnvFile e key hostname s3 = (Inr (), s4)" "sound_machine all_dirs s4"
    "\<forall>q. ?g s4 q = (if clean q = envFile then Some \<lparr>f_data = env_text key h ip, f_perm = 416\<rparr> else ?g s3 q)" by blast
  have "\<exists>f'. ?g s4 self = Some f'" using s4(3) s3(3) s2(3) f by (auto split: option.splits)
  then obtain s5 data where s5: "installBinary e s4 = (Inr (), s5)" "sound_machine all_dirs s5"
    "\<forall>q. ?g s5 q = (if clean q = binaryDst then Some \<lparr>f_data = data, f_perm = 493\<rparr> else ?g s4 q)"
    using binary_ff [OF assms(1) s4(2)] by blast
  obtain s6 where s6: "writeUnitFile s5 = (Inr (), s6)" "sound_machine all_dirs s6"
    "\<forall>q. ?g s6 q = (if clean q = unitFile then Some (text_file unitContent) else ?g s5 q)" using unit_ff [OF s5(2)] by blast
  obtain cs' where "enableService e s6 = (Inr (), s6\<lparr>m_calls := cs'\<rparr>)" using enable_ff [OF assms(1) s6(2)] by blast
  then have "prepare e key hostname s = (Inr (), s6\<lparr>m_calls := cs'\<rparr>)"
    using u s2(1) s3(1) s4(1) s5(1) s6(1) by (simp add: prepare_def Let_def step_def inst_bind_def at_def)
  moreover have "map_of (map (\<lambda>(p, c). (p, text_file c)) fs) q = map_option text_file (map_of fs q)" for fs and q :: string
    by (induction fs) auto
  then have "?g s6 q = (case map_of (prepared_files ?i key h ip data) (clean q) of Some f \<Rightarrow> Some f | None \<Rightarrow> ?g s q)" for q
    using s6(3) s5(3) s4(3) s3(3) s2(3) by (simp add: prepared_files_def split: option.split)
  ultimately show ?thesis using sound_command(2) [OF s6(2)] by (intro exI [of _ "s6\<lparr>m_calls := cs'\<rparr>"] exI) auto
qed


text \<open>What the verification finds: the files \<open>fs\<close>, and none of the operator's files that is not among them.\<close>

definition installed :: "(string \<times> ofile) list \<Rightarrow> machine \<Rightarrow> bool" where
  "installed fs s \<longleftrightarrow> sound_machine all_dirs s \<and> list_all (\<lambda>(p, f). get_file (m_world s) p = Some f) fs \<and>
     list_all (\<lambda>(p, c). p \<in> set (map fst fs) \<or> get_file (m_world s) p = None) operator_files"

lemma installed_kept [simp]: "installed fs (tick s) = installed fs s" "installed fs (s\<lparr>m_calls := cs\<rparr>) = installed fs s"
  by (simp_all add: installed_def sound_machine_def)

definition passes :: "(machine \<Rightarrow> bool) \<Rightarrow> checker \<Rightarrow> bool" where
  "passes P c \<longleftrightarrow> (\<forall>r s. P s \<longrightarrow> \<not> HasErrors r \<longrightarrow> \<not> HasErrors (fst (c r s)) \<and> P (snd (c r s)))"

lemma passes_run: "(\<And>c. c \<in> set cs \<Longrightarrow> passes P c) \<Longrightarrow> passes P (run_checks cs)"
proof (induction cs)
  case (Cons c cs)
  then have "passes P c" "passes P (run_checks cs)" by auto
  then show ?case by (auto simp: passes_def split: prod.splits) (metis fst_conv snd_conv)+
qed (simp add: passes_def)

lemma check_no_error: "level \<noteq> levelError \<Longrightarrow> HasErrors (check level l m r) = HasErrors r"
  by (simp add: check_def HasErrors_def)

lemma stat_installed:
  "installed fs s \<Longrightarrow> (p, f) \<in> set fs \<Longrightarrow> on_world (os_Stat p) s = (Inr (), tick s)"
  "installed fs s \<Longrightarrow> d \<in> set all_dirs \<Longrightarrow> on_world (os_Stat d) s = (Inr (), tick s)"
proof -
  show "on_world (os_Stat p) s = (Inr (), tick s)" if "installed fs s" "(p, f) \<in> set fs"
    using that by (auto simp: installed_def sound_machine_def list_all_iff stat_ff)
  have "d \<in> set all_dirs \<Longrightarrow> clean d = d" using dir_facts by (auto simp: all_dirs_def list_all_iff)
  then show "on_world (os_Stat d) s = (Inr (), tick s)" if "installed fs s" "d \<in> set all_dirs"
    using that by (auto simp: installed_def sound_machine_def stat_ff)
qed

lemma passes_dirs: "set ds \<subseteq> set all_dirs \<Longrightarrow> installed fs s \<Longrightarrow> \<exists>s'. check_dirs ds r s = (r, s') \<and> installed fs s'"
  by (induction ds arbitrary: s) (simp_all add: stat_installed(2))

lemma passes_directories: "passes (installed fs) checkDirectories"
  unfolding passes_def
proof (intro allI impI)
  fix r s assume "installed fs s" "\<not> HasErrors r"
  moreover have "set [configDir, integrDir, toolsDir, stateDir, recvDir] \<subseteq> set all_dirs" by (simp add: all_dirs_def install_dirs_def)
  ultimately obtain s' where "check_dirs [configDir, integrDir, toolsDir, stateDir, recvDir] r s = (r, s')" "installed fs s'"
    using passes_dirs by blast
  then show "\<not> HasErrors (fst (checkDirectories r s)) \<and> installed fs (snd (checkDirectories r s))"
    using \<open>\<not> HasErrors r\<close> by (simp add: checkDirectories_def check_no_error del: check_dirs.simps)
qed

lemma run_cases: "run e args s = (Inr (), s\<lparr>m_calls := m_calls s @ [args]\<rparr>) \<or> (\<exists>x. run e args s = (Inl x, s\<lparr>m_calls := m_calls s @ [args]\<rparr>)) \<or>
   (\<exists>x. run e args s = (Inl x, s))"
  by (auto simp: run_def command_def split: option.splits)

lemma passes_unit:
  assumes "(unitFile, f) \<in> set fs" shows "passes (installed fs) (checkUnitFile e)"
  unfolding passes_def
proof (intro allI impI)
  fix r s assume s: "installed fs s" "\<not> HasErrors r"
  obtain x s' where "run e [''systemctl'', ''cat'', ''tailkitd''] (tick s) = (x, s')" "installed fs s'"
    using run_cases [of e "[''systemctl'', ''cat'', ''tailkitd'']" "tick s"] s(1) by auto
  then show "\<not> HasErrors (fst (checkUnitFile e r s)) \<and> installed fs (snd (checkUnitFile e r s))"
    using s by (cases x) (simp_all add: checkUnitFile_def stat_installed(1) [OF s(1) assms] check_no_error)
qed

lemma output_cases: "\<exists>x. runOutput e args s = (x, s\<lparr>m_calls := m_calls s @ [args]\<rparr>) \<or> runOutput e args s = (x, s)"
  by (auto simp: runOutput_def command_def split: option.splits)

lemma passes_binary: 
  assumes "(binaryDst, \<lparr>f_data = data, f_perm = 493\<rparr>) \<in> set fs" shows "passes (installed fs) (checkBinary e)"
  unfolding passes_def
proof (intro allI impI)
  fix r s assume s: "installed fs s" "\<not> HasErrors r"
  have "get_file (m_world (tick s)) binaryDst = Some \<lparr>f_data = data, f_perm = 493\<rparr>"
    using s(1) assms by (auto simp: installed_def list_all_iff)
  then have mode: "has_bit (mode_at binaryDst (tick s)) 64" by (simp add: mode_at_def has_bit_def)
  obtain x s' where "runOutput e [binaryDst, ''--version''] (tick s) = (x, s')" "installed fs s'"
    using output_cases [of e "[binaryDst, ''--version'']" "tick s"] s(1) by auto
  then show "\<not> HasErrors (fst (checkBinary e r s)) \<and> installed fs (snd (checkBinary e r s))"
    using s mode by (cases x) (simp_all add: checkBinary_def stat_installed(1) [OF s(1) assms] check_no_error)
qed

lemma passes_env:
  assumes "(envFile, \<lparr>f_data = env_text key h ip, f_perm = mode\<rparr>) \<in> set fs" "key \<noteq> []" "CHR 0x0A \<notin> set key"
  shows "passes (installed fs) checkEnvFile"
  unfolding passes_def
proof (intro allI impI)
  fix r s assume s: "installed fs s" "\<not> HasErrors r"
  then have "get_file (m_world (tick s)) envFile = Some \<lparr>f_data = env_text key h ip, f_perm = mode\<rparr>" "fault_free (m_world (tick s))"
    using assms(1) by (auto simp: installed_def list_all_iff sound_machine_def)
  from read_ff [OF this(2,1)] show "\<not> HasErrors (fst (checkEnvFile r s)) \<and> installed fs (snd (checkEnvFile r s))"
    using s env_key_found [OF assms(2,3)] by (simp add: checkEnvFile_def stat_installed(1) [OF s(1) assms(1)] check_no_error Let_def)
qed


lemma config_paths:
  "join_path [integrDir, ''metrics.toml''] = MetricsConfigPath" "join_path [integrDir, ''files.toml''] = FilesConfigPath"
  "join_path [integrDir, ''vars.toml''] = VarsConfigPath" "join_path [integrDir, ''docker.toml''] = DockerConfigPath"
  "join_path [integrDir, ''systemd.toml''] = SystemdConfigPath"
  by code_simp+

lemma load_world: "fault_free w \<Longrightarrow> snd (load_config toml zero valid path w) = w\<lparr>w_clock := Suc (w_clock w)\<rparr>"
  by (auto simp: load_config_def ReadFile_ff_cases split: option.splits sum.splits)

lemma loads_tick:
  assumes "fault_free (m_world s)"
  shows "s\<lparr>m_world := snd (LoadMetricsConfig d (m_world s))\<rparr> = tick s" "s\<lparr>m_world := snd (LoadFilesConfig d (m_world s))\<rparr> = tick s"
    "s\<lparr>m_world := snd (LoadVarsConfig d (m_world s))\<rparr> = tick s" "s\<lparr>m_world := snd (LoadDockerConfig d (m_world s))\<rparr> = tick s"
    "s\<lparr>m_world := snd (LoadSystemdConfig d (m_world s))\<rparr> = tick s"
  unfolding LoadMetricsConfig_def LoadFilesConfig_def LoadVarsConfig_def LoadDockerConfig_def LoadSystemdConfig_def
    loadMetricsConfigFrom_def loadFilesConfigFrom_def loadVarsConfigFrom_def loadDockerConfigFrom_def loadSystemdConfigFrom_def
  using assms by (simp_all add: load_world tick_def)

lemma passes_config:
  assumes "\<And>s. installed fs s \<Longrightarrow> s\<lparr>m_world := snd (load (m_world s))\<rparr> = tick s \<and> (\<exists>cfg. fst (load (m_world s)) = Inr cfg \<and> (enabled cfg \<or> quiet_miss))"
    and "\<And>r. quiet_miss \<Longrightarrow> HasErrors (miss r) = HasErrors r"
  shows "passes (installed fs) (check_config load enabled label miss valid)"
  unfolding passes_def
proof (intro allI impI)
  fix r s assume s: "installed fs s" "\<not> HasErrors r"
  obtain cfg w where load: "load (m_world s) = (Inr cfg, w)" "s\<lparr>m_world := w\<rparr> = tick s" "enabled cfg \<or> quiet_miss"
    using assms(1) [OF s(1)] by (metis prod.collapse)
  then show "\<not> HasErrors (fst (check_config load enabled label miss valid r s)) \<and>
      installed fs (snd (check_config load enabled label miss valid r s))"
    using s assms(2) [of r] by (auto simp: check_config_def check_no_error)
qed

lemma installed_config:
  assumes "installed fs s" "(p, c) \<in> set operator_files" "\<And>c'. (p, c') \<in> set fs \<Longrightarrow> c' = text_file c"
  shows "get_file (m_world s) p = Some (text_file c) \<or> (get_file (m_world s) p = None \<and> p \<notin> set (map fst fs) \<and> clean p \<notin> set (w_dirs (m_world s)))"
proof (cases "p \<in> set (map fst fs)")
  case True
  then obtain c' where "(p, c') \<in> set fs" by auto
  then show ?thesis using assms by (auto simp: installed_def list_all_iff)
next
  case False
  have "p \<in> set written_paths" using assms(2) by (force simp: written_paths_def)
  then have "clean p \<notin> set (w_dirs (m_world s))" using assms(1) written_clean by (auto simp: installed_def sound_machine_def list_all_iff)
  then show ?thesis using assms(1,2) False by (auto simp: installed_def list_all_iff)
qed

definition complete_files :: "integrations \<Rightarrow> (string \<times> ofile) list \<Rightarrow> bool" where
  "complete_files i fs \<longleftrightarrow> (\<exists>key h ip data. key \<noteq> [] \<and> CHR 0x0A \<notin> set key \<and> fs = prepared_files i key h ip data)"

lemma complete_configs:
  assumes "complete_files i fs" "(p, c) \<in> set operator_files"
  shows "(p, c') \<in> set fs \<Longrightarrow> c' = text_file c" "(p, c) \<in> set (config_files i) \<Longrightarrow> p \<in> set (map fst fs)"
proof -
  obtain key h ip data where fs: "fs = prepared_files i key h ip data" using assms(1) by (auto simp: complete_files_def)
  have p: "p \<noteq> envFile" "p \<noteq> binaryDst" "p \<noteq> unitFile" using file_facts(1) assms(2) by (auto simp: list_all_iff)
  show "c' = text_file c" if in_fs: "(p, c') \<in> set fs"
  proof -
    obtain c0 where "(p, c0) \<in> set (config_files i)" "c' = text_file c0" using in_fs p unfolding fs prepared_files_def by fastforce
    from this(1) have "(p, c0) \<in> set operator_files" using config_sub(1) by blast
    with \<open>c' = text_file c0\<close> show ?thesis using eq_key_imp_eq_value [OF file_facts(2) _ assms(2)] by blast
  qed
  show "p \<in> set (map fst fs)" if "(p, c) \<in> set (config_files i)" using that by (force simp: fs prepared_files_def)
qed

lemma operator_paths_in: "(MetricsConfigPath, skeletonMetrics) \<in> set (config_files i)" "(FilesConfigPath, skeletonFiles) \<in> set (config_files i)"
  "(VarsConfigPath, skeletonVars) \<in> set (config_files i)" "(DockerConfigPath, skeletonDocker) \<in> set operator_files"
  "(SystemdConfigPath, skeletonSystemd) \<in> set operator_files"
  "in_Docker i \<Longrightarrow> (DockerConfigPath, skeletonDocker) \<in> set (config_files i)"
  "in_Systemd i \<Longrightarrow> (SystemdConfigPath, skeletonSystemd) \<in> set (config_files i)"
  by (simp_all add: config_files_def operator_files_def config_paths)

lemma passes_configs:
  assumes "decodes_skeletons d" "complete_files (detectIntegrations e) fs"
  shows "passes (installed fs) (checkConfigMetrics d)" "passes (installed fs) (checkConfigFiles d)" "passes (installed fs) (checkConfigVars d)"
    "passes (installed fs) (checkConfigDocker e d)" "passes (installed fs) (checkConfigSystemd e d)"
proof -
  let ?i = "detectIntegrations e"
  have ff: "fault_free (m_world s)" if "installed fs s" for s using that by (simp add: installed_def sound_machine_def)
  have got: "get_file (m_world s) p = Some (text_file c)" if "installed fs s" "(p, c) \<in> set (config_files ?i)" for s p c
  proof -
    have "(p, c) \<in> set operator_files" using that(2) config_sub(1) by blast
    then show ?thesis using installed_config [OF that(1)] complete_configs [OF assms(2)] that(2) by blast
  qed
  note load = skeletons_load [OF assms(1) ff] and t = loads_tick [OF ff]
  show "passes (installed fs) (checkConfigMetrics d)" unfolding checkConfigMetrics_def
    by (rule passes_config [where quiet_miss = False]) (use load(1) t(1) got [OF _ operator_paths_in(1)] in blast)+
  show "passes (installed fs) (checkConfigFiles d)" unfolding checkConfigFiles_def
    by (rule passes_config [where quiet_miss = False]) (use load(2) t(2) got [OF _ operator_paths_in(2)] in blast)+
  show "passes (installed fs) (checkConfigVars d)" unfolding checkConfigVars_def
    by (rule passes_config [where quiet_miss = False]) (use load(3) t(3) got [OF _ operator_paths_in(3)] in blast)+
  have dock: "\<exists>cfg. fst (LoadDockerConfig d (m_world s)) = Inr cfg" if "installed fs s" for s
    using installed_config [OF that operator_paths_in(4) complete_configs(1) [OF assms(2) operator_paths_in(4)]] load(4) [OF that]
      docker_loader.load_missing [OF ff [OF that]] unfolding LoadDockerConfig_def by blast
  show "passes (installed fs) (checkConfigDocker e d)" unfolding checkConfigDocker_def
    by (rule passes_config [where quiet_miss = True]) (use t(4) dock in \<open>auto simp: check_no_error\<close>)
  have sys: "\<exists>cfg. fst (LoadSystemdConfig d (m_world s)) = Inr cfg" if "installed fs s" for s
    using installed_config [OF that operator_paths_in(5) complete_configs(1) [OF assms(2) operator_paths_in(5)]] load(5) [OF that]
      systemd_loader.load_missing [OF ff [OF that]] unfolding LoadSystemdConfig_def by blast
  show "passes (installed fs) (checkConfigSystemd e d)" unfolding checkConfigSystemd_def
    by (rule passes_config [where quiet_miss = True]) (use t(5) sys in \<open>auto simp: check_no_error\<close>)
qed

lemma Verify_passes:
  assumes "decodes_skeletons d" "complete_files (detectIntegrations e) fs" "installed fs s"
  shows "\<exists>r s'. Verify e d s = (r, s') \<and> \<not> HasErrors r \<and> installed fs s'"
proof -
  obtain key h ip data where k: "key \<noteq> []" "CHR 0x0A \<notin> set key" "fs = prepared_files (detectIntegrations e) key h ip data"
    using assms(2) by (auto simp: complete_files_def)
  have "\<not> HasErrors []" by (simp add: HasErrors_def)
  moreover have "passes (installed fs) (run_checks (checkers e d))"
  proof (rule passes_run)
    fix c assume "c \<in> set (checkers e d)"
    moreover have "passes (installed fs) checkEnvFile" using k by (intro passes_env [of key h ip 416]) (simp_all add: prepared_files_def)
    moreover have "passes (installed fs) (checkBinary e)" using k by (intro passes_binary [of data]) (simp add: prepared_files_def)
    moreover have "passes (installed fs) (checkUnitFile e)" using k by (intro passes_unit [of "text_file unitContent"]) (simp add: prepared_files_def)
    ultimately show "passes (installed fs) c" using passes_configs [OF assms(1,2)] passes_directories unfolding checkers_def by auto
  qed
  ultimately show ?thesis using assms(3) unfolding Verify_def passes_def by (metis prod.collapse)
qed


lemma prepared_distinct: "distinct (map fst (prepared_files i key h ip data))"
proof -
  have "p \<noteq> envFile \<and> p \<noteq> binaryDst \<and> p \<noteq> unitFile" if "p \<in> set (map fst (config_files i))" for p
  proof -
    from that obtain c where "(p, c) \<in> set (config_files i)" by auto
    then have "(p, c) \<in> set operator_files" using config_sub(1) by blast
    then show ?thesis using file_facts(1) by (auto simp: list_all_iff)
  qed
  moreover have "map fst (map (\<lambda>(p, c). (p, text_file c)) fs) = map fst fs" for fs :: "(string \<times> string) list" by (induction fs) auto
  then have "map fst (prepared_files i key h ip data) = unitFile # binaryDst # envFile # map fst (config_files i)"
    by (simp add: prepared_files_def)
  ultimately show ?thesis using config_sub(2) file_facts(4-6) by (metis distinct.simps(2) set_ConsD)
qed

lemma prepared_installed:
  assumes "fresh_machine self s" "sound_machine all_dirs s'" "\<forall>q. get_file (m_world s') q =
     (case map_of (prepared_files i key h ip data) (clean q) of Some f \<Rightarrow> Some f | None \<Rightarrow> get_file (m_world s) q)"
  shows "installed (prepared_files i key h ip data) s'"
proof -
  let ?fs = "prepared_files i key h ip data"
  have in_op: "p \<in> set (map fst operator_files)" "clean p = p" if "(p, c) \<in> set operator_files" for p c
    using that file_facts(1) by (force, auto simp: list_all_iff)
  have "get_file (m_world s') p = Some f" if "(p, f) \<in> set ?fs" for p f
  proof -
    have "clean p = p" using that config_sub(1) in_op(2) by (fastforce simp: prepared_files_def)
    then show ?thesis using assms(3) that prepared_distinct by simp
  qed
  then have "list_all (\<lambda>(p, f). get_file (m_world s') p = Some f) ?fs" by (auto simp: list_all_iff)
  moreover have "p \<in> set (map fst ?fs) \<or> get_file (m_world s') p = None" if "(p, c) \<in> set operator_files" for p c
  proof (cases "map_of ?fs p")
    case None then show ?thesis using assms(1,3) in_op [OF that] by (auto simp: fresh_machine_def list_all_iff)
  next
    case (Some f) then show ?thesis by (auto dest: map_of_SomeD intro: rev_image_eqI)
  qed
  then have "list_all (\<lambda>(p, c). p \<in> set (map fst ?fs) \<or> get_file (m_world s') p = None) operator_files"
    unfolding list_all_iff by (metis (mono_tags, lifting) case_prodI2)
  ultimately show ?thesis using assms(2) by (simp only: installed_def)
qed

lemma run_installs:
  assumes "able_host e self" "fresh_machine self s" "decodes_skeletons d" "key \<noteq> []" "CHR 0x0A \<notin> set key"
    and "\<And>cs. says_active e (cs @ [query])"
  shows "\<exists>s' cs h ip data. Install e d key hostname s = (Inr (), s') \<and>
     installed (prepared_files (detectIntegrations e) key h ip data) s' \<and> m_calls s' = m_calls s @ cs \<and> start_call \<in> set cs"
proof -
  let ?i = "detectIntegrations e"
  obtain s1 h ip data where s1: "prepare e key hostname s = (Inr (), s1)" "installed (prepared_files ?i key h ip data) s1"
    using prepare_ff [OF assms(1,2)] prepared_installed [OF assms(2)] by blast
  have "complete_files ?i (prepared_files ?i key h ip data)" using assms(4,5) by (auto simp: complete_files_def)
  from Verify_passes [OF assms(3) this s1(2)] obtain r s2 where s2: "Verify e d s1 = (r, s2)" "\<not> HasErrors r"
    "installed (prepared_files ?i key h ip data) s2" by blast
  have "follows (\<lambda>s s'. \<exists>cs. m_calls s' = m_calls s @ cs \<and> start_call \<notin> set cs) (prepare e key hostname)"
    by (intro calling.prepared calling.if_absent calling.env_once) auto
  from followsD [OF this s1(1)] Verify_reads [OF s2(1)] obtain cs where cs: "m_calls s2 = m_calls s @ cs"
    unfolding undisturbed_def by auto
  obtain out where out: "he_command e (m_calls s2 @ [start_call]) = Some out" using assms(1) by (auto simp: able_host_def)
  let ?s3 = "s2\<lparr>m_calls := m_calls s2 @ [start_call]\<rparr>" and ?s4 = "s2\<lparr>m_calls := m_calls s2 @ [start_call, query]\<rparr>"
  have alive: "\<not> w_dead (m_world s2)" using s2(3) sound_alive unfolding installed_def by blast
  have act: "says_active e (m_calls s2 @ [start_call, query])" using assms(6) [of "m_calls s2 @ [start_call]"] by simp
  have "wait_active e 0 60000000000 ?s3 = (Inr (), ?s4)"
    using act alive by (subst wait_active.simps) (auto simp: service_state_alive says_active_def split: option.splits)
  then have "startService e s2 = (Inr (), ?s4)"
    using out alive by (simp add: startService_def start_call_def inst_bind_def at_def run_def command_def)
  then have "Install e d key hostname s = (Inr (), ?s4)"
    using s1(1) s2(1,2) by (simp add: Install_def inst_bind_def verified_def step_def at_def)
  then show ?thesis using s2(3) cs by (intro exI [of _ ?s4] exI [of _ "cs @ [start_call, query]"]) auto
qed



section \<open>A run on concrete values\<close>

definition demo_host_env :: host_env where
  "demo_host_env = \<lparr>he_command = (\<lambda>cs. Some (if last cs = query then ''active'' else ''100.64.0.1'')),
     he_time = (\<lambda>_. 0), he_user = (\<lambda>_. Some (''990'', ''991'')), he_group = (\<lambda>_. Some ''991''), he_hostname = Some ''node'',
     he_executable = Some ''/tmp/tailkitd'', he_docker_sock = Some True, he_init = None\<rparr>"

definition demo_decoders :: decoders where
  "demo_decoders = \<lparr>de_metrics = (\<lambda>s. if s = skeletonMetrics then Some metrics_skeleton else None),
     de_files = (\<lambda>s. if s = skeletonFiles then Some files_skeleton else None),
     de_vars = (\<lambda>s. if s = skeletonVars then Some vars_skeleton else None),
     de_docker = (\<lambda>s. if s = skeletonDocker then Some docker_skeleton else None),
     de_systemd = (\<lambda>s. if s = skeletonSystemd then Some systemd_skeleton else None), de_users = (\<lambda>_. None)\<rparr>"

definition demo_machine :: machine where
  "demo_machine = \<lparr>m_world = demo_world [(''/tmp/tailkitd'', text_file ''ELF'')] [''/tmp'', ''/usr/local/bin'', ''/etc/systemd/system''],
     m_owner = [], m_modes = [], m_calls = []\<rparr>"

lemma demo_host_facts: "able_host demo_host_env ''/tmp/tailkitd''" "says_active demo_host_env (cs @ [query])" "decodes_skeletons demo_decoders"
proof -
  show "able_host demo_host_env ''/tmp/tailkitd''" "decodes_skeletons demo_decoders"
    by (simp_all add: able_host_def demo_host_env_def decodes_skeletons_def demo_decoders_def)
  have "trim_space (trim_space ''active'') = ''active''" by code_simp
  then show "says_active demo_host_env (cs @ [query])" by (simp add: says_active_def demo_host_env_def)
qed

lemma demo_fresh: "fresh_machine ''/tmp/tailkitd'' demo_machine"
proof -
  have "fault_free (m_world demo_machine)" by (simp add: demo_machine_def)
  moreover have "set ([''/usr/local/bin'', ''/etc/systemd/system''] @ []) \<subseteq> set (w_dirs (m_world demo_machine))"
    by (simp add: demo_machine_def demo_world_def)
  moreover have "list_all (\<lambda>p. p \<notin> set (w_dirs (m_world demo_machine))) written_paths" by code_simp
  moreover have "list_all (\<lambda>d. get_file (m_world demo_machine) d = None) dir_prefixes" by code_simp
  moreover have "get_file (m_world demo_machine) ''/tmp/tailkitd'' \<noteq> None" by code_simp
  moreover have "list_all (\<lambda>p. get_file (m_world demo_machine) p = None) (envFile # map fst operator_files)" by code_simp
  ultimately show ?thesis by (simp add: fresh_machine_def sound_machine_def)
qed

lemmas demo_run = demo_host_facts(1) demo_fresh demo_host_facts(3)


lemma start_waits_witness:
  "\<exists>k \<le> 61. snd (startService demo_host_env demo_machine) = demo_machine\<lparr>m_calls := m_calls demo_machine @
     [''systemctl'', ''start'', ''tailkitd''] # replicate k query\<rparr>"
proof -
  obtain r s' where run: "startService demo_host_env demo_machine = (r, s')" by fastforce
  have "\<not> w_dead (m_world demo_machine)" by (simp add: demo_machine_def demo_world_def)
  from start_waits [OF this run] run show ?thesis by auto
qed

definition edited_machine :: machine where
  "edited_machine = demo_machine\<lparr>m_world := demo_world [(''/etc/tailkitd/integrations/vars.toml'', text_file ''mine'')] [''/tmp'']\<rparr>"

lemma install_keeps_config_witness:
  "get_file (m_world (snd (Install demo_host_env demo_decoders ''tskey'' [] edited_machine))) ''/etc/tailkitd/integrations/vars.toml'' = Some (text_file ''mine'')"
proof (rule install_keeps_config)
  show "get_file (m_world edited_machine) ''/etc/tailkitd/integrations/vars.toml'' = Some (text_file ''mine'')"
    "''/etc/tailkitd/integrations/vars.toml'' \<in> set (envFile # map fst operator_files)" by code_simp+
  show "crash_only (m_world edited_machine)" by (simp add: crash_only_def edited_machine_def demo_world_def)
qed

lemma install_starts_verified_witness:
  "get_file (m_world (snd (Install demo_host_env demo_decoders ''tskey'' [] demo_machine))) unitFile = Some (text_file unitContent) \<and>
   config_ready (LoadVarsConfig demo_decoders) vc_Enabled vars_valid (m_world (snd (Install demo_host_env demo_decoders ''tskey'' [] demo_machine)))"
proof -
  obtain s' cs where run: "Install demo_host_env demo_decoders ''tskey'' [] demo_machine = (Inr (), s')" "m_calls s' = m_calls demo_machine @ cs"
    "start_call \<in> set cs" using run_installs [OF demo_run, of "''tskey''" "[]"] demo_host_facts(2) by auto
  from install_starts_verified [OF run] run(1) show ?thesis by auto
qed

section \<open>Removing it\<close>

lemma os_Remove_result:
  assumes "os_Remove p w = (r, w')"
  shows "(\<forall>q. clean q \<noteq> clean p \<longrightarrow> get_file w' q = get_file w q) \<and> get_file w' p \<in> {None, get_file w p} \<and>
    (r = Inl ENOENT \<or> r = Inr () \<longrightarrow> get_file w' p = None)"
  using assms by (auto simp: os_Remove_def io_call_def Let_def simp flip: get_file_def split: fault.splits option.splits if_splits)

lemma remove_result:
  assumes "remove_if_there p s = (r, s')"
  shows "m_calls s' = m_calls s \<and> (\<forall>q. clean q \<noteq> clean p \<longrightarrow> get_file (m_world s') q = get_file (m_world s) q) \<and>
    get_file (m_world s') p \<in> {None, get_file (m_world s) p} \<and> (r = Inr () \<longrightarrow> get_file (m_world s') p = None)"
proof -
  obtain x w where x: "os_Remove p (m_world s) = (x, w)" by fastforce
  have "m_world s' = w" "m_calls s' = m_calls s" "r = Inr () \<longrightarrow> x = Inl ENOENT \<or> x = Inr ()"
    using assms x by (auto simp: remove_if_there_def on_world_def split: sum.splits if_splits)
  then show ?thesis using os_Remove_result [OF x] by auto
qed

definition stop_calls :: "string list list" where
  "stop_calls = [[''systemctl'', ''stop'', ''tailkitd''], [''systemctl'', ''disable'', ''tailkitd''], [''systemctl'', ''daemon-reload'']]"

lemma ignore_run: "ignore (run e args) s = (Inr (), if w_dead (m_world s) then s else s\<lparr>m_calls := m_calls s @ [args]\<rparr>)"
  by (auto simp: ignore_def run_def command_def split: option.splits)

lemma disable_result:
  "\<not> w_dead (m_world s) \<Longrightarrow> disableService e s = (Inr (), s\<lparr>m_calls := m_calls s @ stop_calls\<rparr>)"
  "w_dead (m_world s) \<Longrightarrow> disableService e s = (Inr (), s)"
  by (simp_all add: disableService_def inst_bind_def ignore_run stop_calls_def)

text \<open>
  What an uninstall removes: Under every fault and crash, \<open>Uninstall\<close> touches no file but the unit file and the binary, each of which is as before or gone:
  the configuration and the data stay. The binary goes only after the unit file, both are gone if it succeeds, and the
  service is told to stop before that, whatever the commands answer.
\<close>

theorem uninstall_removes:
  assumes "Uninstall e s = (r, s')"
  shows "(\<forall>p. clean p \<notin> {unitFile, binaryDst} \<longrightarrow> get_file (m_world s') p = get_file (m_world s) p) \<and>
    get_file (m_world s') unitFile \<in> {None, get_file (m_world s) unitFile} \<and>
    (get_file (m_world s') binaryDst = get_file (m_world s) binaryDst \<or>
       get_file (m_world s') binaryDst = None \<and> get_file (m_world s') unitFile = None) \<and>
    (r = Inr () \<longrightarrow> get_file (m_world s') unitFile = None \<and> get_file (m_world s') binaryDst = None) \<and>
    m_calls s' = m_calls s @ (if w_dead (m_world s) then [] else stop_calls)"
proof -
  define s1 where "s1 = (if w_dead (m_world s) then s else s\<lparr>m_calls := m_calls s @ stop_calls\<rparr>)"
  have s1: "disableService e s = (Inr (), s1)" "m_world s1 = m_world s" "m_calls s1 = m_calls s @ (if w_dead (m_world s) then [] else stop_calls)"
    using disable_result [of s e] by (auto simp: s1_def)
  obtain x s2 where x: "remove_if_there unitFile s1 = (x, s2)" by fastforce
  obtain y s3 where y: "remove_if_there binaryDst s2 = (y, s3)" by fastforce
  note rx = remove_result [OF x] and ry = remove_result [OF y]
  have ne: "unitFile \<noteq> binaryDst" using file_facts(6) by simp
  show ?thesis
  proof (cases x)
    case (Inl z)
    then have "r \<noteq> Inr () \<and> s' = s2" using assms s1(1) x by (auto simp: Uninstall_def inst_bind_def removeUnitFile_def at_def)
    then show ?thesis using rx s1 ne by auto
  next
    case (Inr u)
    then have "s' = s3 \<and> (r = Inr () \<longrightarrow> y = Inr ())"
      using assms s1(1) x y by (auto simp: Uninstall_def inst_bind_def removeUnitFile_def at_def split: sum.splits)
    then show ?thesis using Inr rx ry s1 ne by auto
  qed
qed

lemma uninstall_removes_witness: "get_file (m_world (snd (Uninstall demo_host_env demo_machine))) ''/tmp/tailkitd'' = Some (text_file ''ELF'')"
proof -
  obtain r s' where run: "Uninstall demo_host_env demo_machine = (r, s')" by fastforce
  have "clean ''/tmp/tailkitd'' \<notin> {unitFile, binaryDst}" "get_file (m_world demo_machine) ''/tmp/tailkitd'' = Some (text_file ''ELF'')"
    by code_simp+
  then show ?thesis using uninstall_removes [OF run] run by auto
qed

end
