(* ===== verification/StartupRun.thy ===== *)
theory StartupRun
  imports StartupProps InstallerRun
begin

text \<open>
  A start-up without failures: every step succeeds in a world without faults in which nothing is in the way of the daemon's own files, and
  the two compositions of the command line: the daemon starts on what \<open>Install\<close> left, and it gets past the configurations that \<open>Verify\<close> found good.
\<close>

section \<open>Steps that do not fail\<close>

definition start_dirs :: "string list" where
  "start_dirs = concat (map path_prefixes [''/etc/tailkitd'', DefaultServicesDir, DefaultAccessDir, ''/var/log/tailkitd''])"

definition fresh_files :: "string list" where
  "fresh_files = [ArtifactPrivateKeyPath, ArtifactPublicKeyPath, HostsConfigPath, AdminKeyPath, AdminFencePath, EpochFilePath, ClaimsStorePath]"

text \<open>No faults, no file in the way of a directory, no directory in the way of a file.\<close>

definition calm :: "world \<Rightarrow> bool" where
  "calm w \<longleftrightarrow> fault_free w \<and> ''/etc/tailkitd'' \<in> set (w_dirs w) \<and> list_all (\<lambda>d. get_file w d = None) start_dirs \<and>
     list_all (\<lambda>p. p \<notin> set (w_dirs w)) (fresh_files @ map fst operator_files)"

lemma calm_facts:
  "list_all (\<lambda>d. clean d = d \<and> d \<notin> set fresh_files \<and> d \<notin> set (map fst operator_files)) start_dirs"
  "list_all (\<lambda>p. clean p = p) (fresh_files @ map fst operator_files)"
  "list_all (\<lambda>p. dir_of p = ''/etc/tailkitd'') start_files" "dir_of HostsConfigPath = ''/etc/tailkitd''"
  "clean ''/etc/tailkitd'' = ''/etc/tailkitd''"
  "clean IdentityDirPath = ''/etc/tailkitd''" "clean AdminDirPath = ''/etc/tailkitd''"
  "''/etc/tailkitd'' \<in> set (path_prefixes ''/etc/tailkitd'')"
  "clean DefaultServicesDir = DefaultServicesDir" "clean DefaultAccessDir = DefaultAccessDir"
  "DefaultServicesDir \<in> set (path_prefixes DefaultServicesDir)" "DefaultAccessDir \<in> set (path_prefixes DefaultAccessDir)"
  by code_simp+

lemma calm_ff: "calm w \<Longrightarrow> fault_free w"
  by (simp add: calm_def)

text \<open>A step keeps the world calm if it keeps the absence of faults, and at most creates start files and directories of the list.\<close>

lemma calm_step:
  assumes "calm w" "fault_free w'" "creates w w'" "set (w_dirs w') \<subseteq> set (w_dirs w) \<union> set start_dirs" "set (w_dirs w) \<subseteq> set (w_dirs w')"
  shows "calm w'"
proof -
  have "get_file w' d = None" if "d \<in> set start_dirs" for d
  proof -
    have "clean d = d" "d \<notin> set fresh_files" using calm_facts(1) that by (simp_all add: list_all_iff)
    then have "clean d \<notin> set start_files" by (auto simp: fresh_files_def start_files_def)
    then show ?thesis using assms(1,3) that by (auto simp: creates_def calm_def list_all_iff)
  qed
  moreover have "p \<notin> set (w_dirs w')" if "p \<in> set (fresh_files @ map fst operator_files)" for p
  proof -
    have "p \<notin> set start_dirs" using calm_facts(1) that unfolding list_all_iff by (metis UnE set_append)
    moreover have "p \<notin> set (w_dirs w)" using assms(1) that by (simp add: calm_def list_all_iff del: set_map)
    ultimately show ?thesis using assms(4) by blast
  qed
  ultimately show ?thesis using assms(1,2,5) unfolding calm_def list_all_iff by blast
qed

lemma mkdir_calm:
  assumes "calm w" "set (path_prefixes (clean d)) \<subseteq> set start_dirs"
  shows "\<exists>w'. os_MkdirAll d w = (Inr (), w') \<and> calm w' \<and> set (w_dirs w') = set (path_prefixes (clean d)) \<union> set (w_dirs w) \<and>
    (\<forall>p. get_file w' p = get_file w p)"
proof -
  have none: "\<not> list_ex (\<lambda>p. get_file w p \<noteq> None) (path_prefixes (clean d))"
    using assms by (auto simp: calm_def list_ex_iff list_all_iff)
  let ?w = "w\<lparr>w_clock := Suc (w_clock w), w_dirs := List.union (path_prefixes (clean d)) (w_dirs w)\<rparr>"
  have run: "os_MkdirAll d w = (Inr (), ?w)"
    using none calm_ff [OF assms(1)] by (simp add: os_MkdirAll_def io_call_fault_free list_ex_iff)
  have "calm ?w" by (rule calm_step [OF assms(1)]) (use assms calm_ff [OF assms(1)] in \<open>auto intro: creates_same\<close>)
  then show ?thesis using run by (intro exI [of _ ?w]) simp
qed

lemma stat_calm: "calm w \<Longrightarrow> os_Stat p w = (if get_file w p \<noteq> None \<or> clean p \<in> set (w_dirs w) then Inr () else Inl ENOENT, w\<lparr>w_clock := Suc (w_clock w)\<rparr>)"
  using calm_ff by (simp add: os_Stat_def io_call_fault_free)

lemma calm_clock [simp]: "calm (w\<lparr>w_clock := n\<rparr>) = calm w"
  by (simp add: calm_def)

lemma write_calm:
  assumes "calm w" "p \<in> set start_files" "get_file w p = None \<or> p = ArtifactPublicKeyPath \<and> get_file w ArtifactPrivateKeyPath = None"
  shows "\<exists>w'. os_WriteFile p data perm w = (Inr (), w') \<and> calm w' \<and> w_dirs w' = w_dirs w"
proof -
  have p: "p \<notin> set (w_dirs w)" "clean p = p" "dir_of p = ''/etc/tailkitd''"
    using assms(1,2) calm_facts(2,3) by (auto simp: calm_def list_all_iff start_files_def fresh_files_def)
  obtain r w' where run: "os_WriteFile p data perm w = (r, w')" by fastforce
  then have w: "r = Inr ()" "w_dirs w' = w_dirs w" "fault_free w'"
    using p assms(1) calm_ff [OF assms(1)] by (auto simp: os_WriteFile_def io_call_fault_free put_file_def calm_def split: option.splits)
  have "creates w w'" using WriteFile_other [OF run] p(2) assms(2,3) by (intro creates_new [of "{p}"]) simp_all
  then have "calm w'" by (rule calm_step [OF assms(1) w(3)]) (simp_all add: w(2))
  then show ?thesis using run w by blast
qed


lemma ensure_calm:
  assumes "calm w" "p \<in> set start_files" "c \<noteq> None" "p \<noteq> ArtifactPublicKeyPath"
  shows "\<exists>w'. ensure_file p c w = (None, w') \<and> calm w'"
proof (cases "get_file w p = None \<and> clean p \<notin> set (w_dirs w)")
  case False
  then show ?thesis using stat_calm [OF assms(1), of p] assms(1) by (auto simp: ensure_file_def)
next
  case True
  let ?w = "w\<lparr>w_clock := Suc (w_clock w)\<rparr>"
  obtain d where c: "c = Some d" using assms(3) by blast
  obtain w' where "os_WriteFile p d 384 ?w = (Inr (), w')" "calm w'"
    using write_calm [of ?w p d 384] assms(1,2) True by (auto simp: get_file_def)
  then show ?thesis using stat_calm [OF assms(1), of p] True c by (simp add: ensure_file_def)
qed

lemma mkdir_etc: "calm w \<Longrightarrow> clean d = ''/etc/tailkitd'' \<Longrightarrow> \<exists>w'. os_MkdirAll d w = (Inr (), w') \<and> calm w' \<and> (\<forall>p. get_file w' p = get_file w p)"
  using mkdir_calm [of w d] by (fastforce simp: start_dirs_def)

lemma get_file_clock [simp]: "get_file (w\<lparr>w_clock := n\<rparr>) p = get_file w p"
  by (simp add: get_file_def)

lemma keys_calm:
  assumes "calm w" "gen \<noteq> None" "get_file w ArtifactPrivateKeyPath = None" "get_file w ArtifactPublicKeyPath = None"
  shows "\<exists>w'. EnsureArtifactKeys gen w = (None, w') \<and> calm w' \<and> get_file w' HostsConfigPath = get_file w HostsConfigPath"
proof -
  obtain pub priv where gen: "gen = Some (pub, priv)" using assms(2) by auto
  obtain w1 where w1: "os_MkdirAll IdentityDirPath w = (Inr (), w1)" "calm w1" "\<forall>p. get_file w1 p = get_file w p"
    using mkdir_etc [OF assms(1) calm_facts(6)] by blast
  let ?w = "w1\<lparr>w_clock := Suc (w_clock w1)\<rparr>"
  have "ArtifactPrivateKeyPath \<notin> set (w_dirs w1)" using w1(2) by (simp add: calm_def fresh_files_def)
  then have st: "os_Stat ArtifactPrivateKeyPath w1 = (Inl ENOENT, ?w)" using stat_calm [OF w1(2)] w1(3) assms(3) by simp
  obtain w2 where w2: "os_WriteFile ArtifactPrivateKeyPath (encodeKey priv) 384 ?w = (Inr (), w2)" "calm w2"
    using write_calm [of ?w ArtifactPrivateKeyPath "encodeKey priv" 384] w1 assms(3) by (auto simp: start_files_def)
  have "get_file w2 ArtifactPublicKeyPath = None" using WriteFile_other [OF w2(1), of ArtifactPublicKeyPath] w1(3) assms(4) by simp
  then obtain w3 where w3: "os_WriteFile ArtifactPublicKeyPath (encodeKey pub) 420 w2 = (Inr (), w3)" "calm w3"
    using write_calm [OF w2(2), of ArtifactPublicKeyPath "encodeKey pub" 420] by (auto simp: start_files_def)
  have "HostsConfigPath \<noteq> ArtifactPrivateKeyPath" by code_simp
  then have "get_file w3 HostsConfigPath = get_file w HostsConfigPath"
    using WriteFile_other [OF w2(1), of HostsConfigPath] WriteFile_other [OF w3(1), of HostsConfigPath] w1(3) by simp
  then show ?thesis using gen w1(1) st w2(1) w3 by (simp add: EnsureArtifactKeys_def)
qed

lemma bootstrap_calm:
  assumes "calm w" "rnd \<noteq> None"
  shows "\<exists>a w'. BootstrapState rnd probe self t st defined w = (Inr a, w') \<and> calm w'"
proof -
  obtain w1 where w1: "os_MkdirAll AdminDirPath w = (Inr (), w1)" "calm w1" using mkdir_etc [OF assms(1) calm_facts(7)] by blast
  obtain w2 where w2: "ensure_file AdminKeyPath (map_option hex_encode rnd) w1 = (None, w2)" "calm w2"
    using ensure_calm [OF w1(2), of AdminKeyPath "map_option hex_encode rnd"] assms(2) by (auto simp: start_files_def)
  obtain w3 where "ensure_file AdminFencePath (Some [CHR ''0'', CHR 0x0A]) w2 = (None, w3)" "calm w3"
    using ensure_calm [OF w2(2), of AdminFencePath "Some [CHR ''0'', CHR 0x0A]"] by (auto simp: start_files_def)
  then show ?thesis using w1(1) w2(1) by (simp add: BootstrapState_def EnsureBootstrapFiles_def Let_def)
qed

lemma hosts_calm:
  assumes "calm w" "\<And>hs. enc hs \<noteq> None" "get_file w HostsConfigPath = None" "n \<noteq> []"
  shows "\<exists>m w'. NewHostManager enc toml True HostsConfigPath n w = (Inr m, w') \<and> calm w' \<and> hm_Names m = [n]"
proof -
  let ?hosts = "[host_SetDefaults n empty_host]"
  obtain w1 where w1: "os_MkdirAll (dir_of HostsConfigPath) w = (Inr (), w1)" "calm w1" "\<forall>p. get_file w1 p = get_file w p"
    using mkdir_etc [OF assms(1), of "dir_of HostsConfigPath"] calm_facts(4,5) by auto
  let ?w = "w1\<lparr>w_clock := Suc (w_clock w1)\<rparr>"
  have nodir: "HostsConfigPath \<notin> set (w_dirs w1)" "''/etc/tailkitd'' \<in> set (w_dirs w1)" "fault_free w1"
    using w1(2) by (simp_all add: calm_def fresh_files_def)
  then have st: "os_Stat HostsConfigPath w1 = (Inl ENOENT, ?w)" using stat_calm [OF w1(2)] w1(3) assms(3) by simp
  obtain data where data: "enc (cloneHostConfigs ?hosts) = Some data" using assms(2) by auto
  obtain w2 where w2: "AtomicWrite HostsConfigPath data 420 ?w = (Inr (), w2)" "fault_free w2" "wrote HostsConfigPath \<lparr>f_data = data, f_perm = 420\<rparr> ?w w2"
  proof -
    have "fault_free ?w" "clean (dir_of HostsConfigPath) \<in> set (w_dirs ?w)" "clean HostsConfigPath \<notin> set (w_dirs ?w)"
      using nodir calm_facts(4,5) by simp_all
    from atomic_write_fault_free [OF this] that show ?thesis by blast
  qed
  have "creates ?w w2" using w2(3) w1(3) assms(3) by (intro creates_wrote) (simp_all add: start_files_def)
  then have "calm w2" by (rule calm_step [rotated 2]) (use w1(2) w2(2,3) in \<open>simp_all add: wrote_def\<close>)
  moreover have "EnsureHostConfig enc toml HostsConfigPath n w = (Inr ?hosts, w2)"
    using w1(1) st w2(1) data by (simp add: EnsureHostConfig_def WriteHostFile_def Let_def)
  then obtain m where "NewHostManager enc toml True HostsConfigPath n w = (Inr m, w2)" "hm_hosts m = cloneHostConfigs ?hosts"
    by (simp add: NewHostManager_def resolveSelfHost_def empty_host_def or_default_def)
  ultimately show ?thesis by (auto simp: hm_Names_def cloneHostConfigs_def empty_host_def or_default_def)
qed


lemma quiet_calm: "calm w \<Longrightarrow> fault_free w' \<Longrightarrow> same_files w w' \<Longrightarrow> calm w'"
  by (rule calm_step) (auto intro: creates_files simp: same_files_def)

lemma services_calm:
  assumes "calm w" shows "\<exists>r w'. services_NewRegistry toml True DefaultServicesDir w = (Inr r, w') \<and> calm w'"
proof -
  obtain w1 where w1: "os_MkdirAll DefaultServicesDir w = (Inr (), w1)" "calm w1" "DefaultServicesDir \<in> set (w_dirs w1)"
    using mkdir_calm [OF assms, of DefaultServicesDir] calm_facts(9,11) by (auto simp: start_dirs_def)
  obtain r w2 where rl: "services_Reload toml \<lparr>sr_dir = DefaultServicesDir, sr_services = []\<rparr> w1 = (None, r, w2)" "fault_free w2"
    using services_Reload_ff [OF calm_ff [OF w1(2)], of "\<lparr>sr_dir = DefaultServicesDir, sr_services = []\<rparr>" toml] w1(3) calm_facts(9) by auto
  have "same_files w1 w2"
    using rl(1) by (auto simp: services_Reload_def svc_LoadDir_def split: prod.splits sum.splits io_error.splits
        dest!: quietD [OF quiet_ReadDir] load_entries_quiet intro: same_files_trans)
  then show ?thesis using w1(1) rl quiet_calm [OF w1(2) rl(2)] by (simp add: services_NewRegistry_def)
qed

lemma access_calm:
  assumes "calm w" shows "\<exists>r w'. access_NewRegistry toml True DefaultAccessDir w = (Inr r, w') \<and> calm w'"
proof -
  obtain w1 where w1: "os_MkdirAll DefaultAccessDir w = (Inr (), w1)" "calm w1" "DefaultAccessDir \<in> set (w_dirs w1)"
    using mkdir_calm [OF assms, of DefaultAccessDir] calm_facts(10,12) by (auto simp: start_dirs_def)
  obtain x r w2 where rl: "access_Reload toml \<lparr>ac_dir = DefaultAccessDir, ac_grants = []\<rparr> w1 = (x, r, w2)" by (metis prod_cases3)
  have "x = None \<and> fault_free w2"
    using rl ReadDir_ff [OF calm_ff [OF w1(2)], of DefaultAccessDir] w1(3) calm_facts(10)
      dir_docs_ff [OF calm_ff [OF w1(2)], of "access_parse toml" "''.toml''" DefaultAccessDir]
    by (auto simp: access_Reload_def)
  moreover have "same_files w1 w2"
    using rl by (auto simp: access_Reload_def split: prod.splits sum.splits
        dest!: quietD [OF quiet_ReadDir] load_entries_quiet intro: same_files_trans)
  ultimately show ?thesis using w1(1) rl quiet_calm [OF w1(2)] by (simp add: access_NewRegistry_def)
qed

lemma epoch_calm: "calm w \<Longrightarrow> get_file w EpochFilePath = None \<Longrightarrow>
   NewEpoch EpochFilePath w = (Inr \<lparr>ep_path = EpochFilePath, ep_value = 0\<rparr>, w\<lparr>w_clock := Suc (w_clock w)\<rparr>)"
proof -
  assume c: "calm w" and none: "get_file w EpochFilePath = None"
  have "clean EpochFilePath = EpochFilePath" by code_simp
  then have "clean EpochFilePath \<notin> set (w_dirs w)" using c by (simp add: calm_def fresh_files_def)
  then show "NewEpoch EpochFilePath w = (Inr \<lparr>ep_path = EpochFilePath, ep_value = 0\<rparr>, w\<lparr>w_clock := Suc (w_clock w)\<rparr>)"
    using none by (simp add: NewEpoch_def epoch_load_def ReadFile_ff_cases [OF calm_ff [OF c]])
qed

lemma claims_calm: "calm w \<Longrightarrow> get_file w ClaimsStorePath = None \<Longrightarrow>
   NewStore c ClaimsStorePath w = (Inr \<lparr>cs_path = ClaimsStorePath, cs_claims = []\<rparr>, w\<lparr>w_clock := Suc (w_clock w)\<rparr>)"
proof -
  assume c: "calm w" and none: "get_file w ClaimsStorePath = None"
  have "clean ClaimsStorePath = ClaimsStorePath" by code_simp
  then have "clean ClaimsStorePath \<notin> set (w_dirs w)" using c by (simp add: calm_def fresh_files_def)
  then show "NewStore c' ClaimsStorePath w = (Inr \<lparr>cs_path = ClaimsStorePath, cs_claims = []\<rparr>, w\<lparr>w_clock := Suc (w_clock w)\<rparr>)" for c'
    using none by (simp add: NewStore_def store_load_def ReadFile_ff_cases [OF calm_ff [OF c]])
qed

lemma exec_calm:
  assumes "calm w" shows "\<exists>r w'. exec_NewRegistry json d True w = (Some r, w') \<and> calm w'"
proof -
  obtain x r w1 where rb: "exec_rebuild json \<lparr>xr_dir = d, xr_index = []\<rparr> w = (x, r, w1)" by (metis prod_cases3)
  have "fault_free w1"
    using rb ReadDir_ff [OF calm_ff [OF assms], of d] dir_docs_ff [OF calm_ff [OF assms], of "parse_tool json" "''.json''" d] calm_ff [OF assms]
    by (auto simp: exec_rebuild_def split: if_splits)
  moreover have "same_files w w1"
    using rb by (auto simp: exec_rebuild_def split: prod.splits sum.splits if_splits
        dest!: quietD [OF quiet_ReadDir] load_entries_quiet intro: same_files_trans)
  ultimately have c1: "calm w1" using quiet_calm [OF assms] by blast
  then show ?thesis using rb stat_calm [OF c1, of d] by (simp add: exec_NewRegistry_def)
qed


section \<open>A verified node starts\<close>

text \<open>The configuration files are the same.\<close>

definition agrees :: "world \<Rightarrow> world \<Rightarrow> bool" where
  "agrees w0 w \<longleftrightarrow> (\<forall>p \<in> set (map fst operator_files). get_file w p = get_file w0 p)"

lemma agreesD: "agrees w0 w \<Longrightarrow> (p, c) \<in> set operator_files \<Longrightarrow> get_file w p = get_file w0 p"
  unfolding agrees_def by force

lemma agrees_same: "same_files w0 w1 \<Longrightarrow> agrees w0 w \<Longrightarrow> agrees w1 w"
  by (simp add: agrees_def same_files_get)

lemma load_config_again:
  assumes "load_config toml zero valid path w0 = (Inr c, w0')" "get_file w path = get_file w0 path" "fault_free w" "clean path \<notin> set (w_dirs w)"
  shows "load_config toml zero valid path w = (Inr c, w\<lparr>w_clock := Suc (w_clock w)\<rparr>)"
proof -
  obtain x w1 where rd: "os_ReadFile path w0 = (x, w1)" by fastforce
  show ?thesis
  proof (cases x)
    case (Inl y)
    then have "y = ENOENT" "c = zero" using assms(1) rd by (auto simp: load_config_def split: if_splits)
    then show ?thesis using ReadFile_result [OF rd] Inl assms(2-4)
      by (simp add: load_config_def ReadFile_ff_cases)
  next
    case (Inr data)
    then obtain f where "get_file w path = Some f" "f_data f = data" using ReadFile_result [OF rd] assms(2) by auto
    then show ?thesis using assms(1,3) rd Inr by (auto simp: load_config_def ReadFile_ff_cases split: option.splits sum.splits)
  qed
qed

lemma loaders_again:
  assumes "agrees w0 w" "calm w"
  shows "LoadFilesConfig d w0 = (Inr c1, v1) \<Longrightarrow> LoadFilesConfig d w = (Inr c1, w\<lparr>w_clock := Suc (w_clock w)\<rparr>)"
    "LoadVarsConfig d w0 = (Inr c2, v2) \<Longrightarrow> LoadVarsConfig d w = (Inr c2, w\<lparr>w_clock := Suc (w_clock w)\<rparr>)"
    "LoadDockerConfig d w0 = (Inr c3, v3) \<Longrightarrow> LoadDockerConfig d w = (Inr c3, w\<lparr>w_clock := Suc (w_clock w)\<rparr>)"
    "LoadSystemdConfig d w0 = (Inr c4, v4) \<Longrightarrow> LoadSystemdConfig d w = (Inr c4, w\<lparr>w_clock := Suc (w_clock w)\<rparr>)"
    "LoadMetricsConfig d w0 = (Inr c5, v5) \<Longrightarrow> LoadMetricsConfig d w = (Inr c5, w\<lparr>w_clock := Suc (w_clock w)\<rparr>)"
proof -
  have nodir: "clean p \<notin> set (w_dirs w)" if "(p, c) \<in> set operator_files" for p c
  proof -
    have p: "p \<in> set (map fst operator_files)" using that by force
    then have "clean p = p" using calm_facts(2) unfolding list_all_iff by (metis UnCI set_append)
    with p show ?thesis using assms(2) by (simp add: calm_def list_all_iff del: set_map)
  qed
  have op: "(MetricsConfigPath, skeletonMetrics) \<in> set operator_files" "(FilesConfigPath, skeletonFiles) \<in> set operator_files"
    "(VarsConfigPath, skeletonVars) \<in> set operator_files"
    using operator_paths_in(1-3) config_sub(1) by blast+
  note again = load_config_again [OF _ agreesD [OF assms(1)] calm_ff [OF assms(2)] nodir]
  note defs = LoadMetricsConfig_def LoadFilesConfig_def LoadVarsConfig_def LoadDockerConfig_def LoadSystemdConfig_def
    loadMetricsConfigFrom_def loadFilesConfigFrom_def loadVarsConfigFrom_def loadDockerConfigFrom_def loadSystemdConfigFrom_def
  show "LoadFilesConfig d w0 = (Inr c1, v1) \<Longrightarrow> LoadFilesConfig d w = (Inr c1, w\<lparr>w_clock := Suc (w_clock w)\<rparr>)"
    unfolding defs by (rule again [OF _ op(2) op(2)])
  show "LoadVarsConfig d w0 = (Inr c2, v2) \<Longrightarrow> LoadVarsConfig d w = (Inr c2, w\<lparr>w_clock := Suc (w_clock w)\<rparr>)"
    unfolding defs by (rule again [OF _ op(3) op(3)])
  show "LoadDockerConfig d w0 = (Inr c3, v3) \<Longrightarrow> LoadDockerConfig d w = (Inr c3, w\<lparr>w_clock := Suc (w_clock w)\<rparr>)"
    unfolding defs by (rule again [OF _ operator_paths_in(4) operator_paths_in(4)])
  show "LoadSystemdConfig d w0 = (Inr c4, v4) \<Longrightarrow> LoadSystemdConfig d w = (Inr c4, w\<lparr>w_clock := Suc (w_clock w)\<rparr>)"
    unfolding defs by (rule again [OF _ operator_paths_in(5) operator_paths_in(5)])
  show "LoadMetricsConfig d w0 = (Inr c5, v5) \<Longrightarrow> LoadMetricsConfig d w = (Inr c5, w\<lparr>w_clock := Suc (w_clock w)\<rparr>)"
    unfolding defs by (rule again [OF _ op(1) op(1)])
qed

text \<open>A verification without errors has loaded each of the five configurations, and found the three required ones enabled.\<close>

lemma check_config_loaded:
  "check_config load en l miss val r s = (r', s') \<Longrightarrow> \<not> HasErrors r' \<Longrightarrow> \<exists>cfg w. load (m_world s) = (Inr cfg, w)"
  by (auto simp: check_config_def split: prod.splits sum.splits)

lemma config_found:
  assumes "\<exists>r0 s0 r1 s1. check_config load en l miss val r0 s0 = (r1, s1) \<and> \<not> HasErrors r1 \<and> agrees (m_world s0) w"
  shows "\<exists>w0 c v. load w0 = (Inr c, v) \<and> agrees w0 w"
  using assms check_config_loaded by fast

lemma config_required:
  assumes "\<exists>r0 s0 r1 s1. check_config load en l (check levelError l' m) val r0 s0 = (r1, s1) \<and> \<not> HasErrors r1 \<and> agrees (m_world s0) w"
  shows "\<exists>w0 c v. load w0 = (Inr c, v) \<and> en c \<and> agrees w0 w"
  using assms config_passed by fast

lemma verified_loads:
  assumes "Verify e d s = (r, s')" "\<not> HasErrors r" "agrees (m_world s) w" "calm w"
  shows "\<exists>c. load_configs d w = (Inr c, w\<lparr>w_clock := w_clock w + 5\<rparr>) \<and> fc_Enabled (dc_files c) \<and> vc_Enabled (dc_vars c) \<and> mc_Enabled (dc_metrics c)"
proof -
  have passed: "\<exists>r0 s0 r1 s1. c r0 s0 = (r1, s1) \<and> \<not> HasErrors r1 \<and> agrees (m_world s0) w"
    if c: "c \<in> set (checkers e d)" for c
  proof -
    obtain r0 s0 r1 s1 where "c r0 s0 = (r1, s1)" "\<not> HasErrors r1" "undisturbed s s0"
      using check_passed [OF _ assms(1) [unfolded Verify_def] assms(2) c] extends_checkers reads_checkers by blast
    then show ?thesis using agrees_same [OF _ assms(3)] unfolding undisturbed_def by blast
  qed
  have "checkConfigMetrics d \<in> set (checkers e d)" "checkConfigFiles d \<in> set (checkers e d)" "checkConfigVars d \<in> set (checkers e d)"
    "checkConfigDocker e d \<in> set (checkers e d)" "checkConfigSystemd e d \<in> set (checkers e d)" by (simp_all add: checkers_def)
  note p = this [THEN passed]
  have clock: "agrees w0 (w\<lparr>w_clock := n\<rparr>) = agrees w0 w" for w0 n by (simp add: agrees_def)
  note again = loaders_again [OF clock [THEN iffD2] calm_clock [THEN iffD2], OF _ assms(4)]
  obtain v1 c1 u1 where m: "LoadMetricsConfig d v1 = (Inr c1, u1)" "mc_Enabled c1" "agrees v1 w"
    using p(1) [unfolded checkConfigMetrics_def, THEN config_required] by blast
  obtain v2 c2 u2 where f: "LoadFilesConfig d v2 = (Inr c2, u2)" "fc_Enabled c2" "agrees v2 w"
    using p(2) [unfolded checkConfigFiles_def, THEN config_required] by blast
  obtain v3 c3 u3 where v: "LoadVarsConfig d v3 = (Inr c3, u3)" "vc_Enabled c3" "agrees v3 w"
    using p(3) [unfolded checkConfigVars_def, THEN config_required] by blast
  obtain v4 c4 u4 where k: "LoadDockerConfig d v4 = (Inr c4, u4)" "agrees v4 w"
    using p(4) [unfolded checkConfigDocker_def, THEN config_found] by blast
  obtain v5 c5 u5 where y: "LoadSystemdConfig d v5 = (Inr c5, u5)" "agrees v5 w"
    using p(5) [unfolded checkConfigSystemd_def, THEN config_found] by blast
  have "LoadFilesConfig d w = (Inr c2, w\<lparr>w_clock := w_clock w + 1\<rparr>)"
    "LoadVarsConfig d (w\<lparr>w_clock := w_clock w + 1\<rparr>) = (Inr c3, w\<lparr>w_clock := w_clock w + 2\<rparr>)"
    "LoadDockerConfig d (w\<lparr>w_clock := w_clock w + 2\<rparr>) = (Inr c4, w\<lparr>w_clock := w_clock w + 3\<rparr>)"
    "LoadSystemdConfig d (w\<lparr>w_clock := w_clock w + 3\<rparr>) = (Inr c5, w\<lparr>w_clock := w_clock w + 4\<rparr>)"
    "LoadMetricsConfig d (w\<lparr>w_clock := w_clock w + 4\<rparr>) = (Inr c1, w\<lparr>w_clock := w_clock w + 5\<rparr>)"
    using loaders_again(1) [OF f(3) assms(4) f(1)] again(2) [OF v(3,1), of "w_clock w + 1"] again(3) [OF k(2,1), of "w_clock w + 2"]
      again(4) [OF y(2,1), of "w_clock w + 3"] again(5) [OF m(3,1), of "w_clock w + 4"] by simp_all
  then have "load_configs d w = (Inr \<lparr>dc_files = c2, dc_vars = c3, dc_docker = c4, dc_systemd = c5, dc_metrics = c1\<rparr>, w\<lparr>w_clock := w_clock w + 5\<rparr>)"
    by (simp add: load_configs_def start_bind_def must_def start_return_def)
  then show ?thesis using m f v by simp
qed


text \<open>An environment in which nothing outside the files keeps the daemon from starting.\<close>

definition able_start :: "start_env \<Rightarrow> bool" where
  "able_start e \<longleftrightarrow> resolveTailnetHostname (se_tailscaled e) \<noteq> None \<and> se_hostname e \<noteq> None \<and> se_keys e \<noteq> None \<and> se_random e \<noteq> None \<and>
     se_peers e \<noteq> None \<and> (\<forall>d. se_watch e d) \<and> (\<forall>hs. se_enc_hosts e hs \<noteq> None) \<and> se_docker_client e \<and> se_tsnet e \<and> se_local_client e \<and>
     se_getenv e ''HOST_TAILSCALE_IP'' \<noteq> [] \<and> knows_levels (se_level e)"

text \<open>The logging configuration, which \<open>Verify\<close> does not look at: it loads, and its request log is in the daemon's log directory.\<close>

definition logs_ready :: "start_env \<Rightarrow> world \<Rightarrow> bool" where
  "logs_ready e w \<longleftrightarrow> (case fst (LoadLoggingConfig e w) of
     Inl _ \<Rightarrow> False | Inr log \<Rightarrow> list_all (\<lambda>d. d \<in> set start_dirs) (path_prefixes (clean (dir_of (pl_Path (lg_API log))))))"

lemma names_calm:
  assumes "able_start e" "calm w" "logs_ready e w"
  shows "\<exists>names w'. start_names e w = (Inr names, w') \<and> calm w' \<and> (\<forall>p. get_file w' p = get_file w p) \<and> fst (snd names) \<noteq> []"
proof -
  obtain log w1 where log: "LoadLoggingConfig e w = (Inr log, w1)" using assms(3)
    by (auto simp: logs_ready_def split: sum.splits) (metis prod.collapse)
  have dirs: "set (path_prefixes (clean (dir_of (pl_Path (lg_API log))))) \<subseteq> set start_dirs"
    using assms(3) log by (auto simp: logs_ready_def list_all_iff)
  have lv: "logging_valid log" "same_files w w1" using logging_loaded log unfolding LoadLoggingConfig_def by blast+
  have "w1 = w\<lparr>w_clock := Suc (w_clock w)\<rparr>"
    using log by (auto simp: LoadLoggingConfig_def loadLoggingConfigFrom_def ReadFile_ff_cases [OF calm_ff [OF assms(2)]]
        split: option.splits if_splits)
  then have c1: "calm w1" using assms(2) by simp
  obtain r w2 where b: "Build (se_level e) log w1 = (r, w2)" by fastforce
  have kl: "knows_levels (se_level e)" using assms(1) by (simp add: able_start_def)
  obtain w3 where w3: "os_MkdirAll (dir_of (pl_Path (lg_API log))) w1 = (Inr (), w3)" "calm w3"
    using mkdir_calm [OF c1 dirs] by blast
  have "(\<exists>l. r = Inr l) \<and> calm w2"
  proof -
    obtain l1 l2 where "se_level e (al_Level (lg_App log)) = Some l1" "se_level e (pl_Level (lg_API log)) = Some l2"
      using lv(1) kl by (auto simp: logging_valid_def knows_levels_def validLogLevels_def)
    then show ?thesis using b w3 c1 by (auto simp: Build_def parseLevel_def buildAPICore_def split: if_splits)
  qed
  then obtain l where l: "r = Inr l" and c2: "calm w2" by blast
  have files: "get_file w2 p = get_file w p" for p using Build_result(2) [OF b lv(1) kl] same_files_get [OF lv(2)] by simp
  obtain t where t: "resolveTailnetHostname (se_tailscaled e) = Some t" using assms(1) by (auto simp: able_start_def)
  then have tn: "t \<noteq> []" by (auto simp: resolveTailnetHostname_def split: option.splits if_splits)
  then obtain n where "resolveHostname (se_getenv e ''TAILKITD_HOSTNAME'') t (se_hostname e) = Some n"
    by (cases "se_getenv e ''TAILKITD_HOSTNAME'' = []") (auto simp: resolveHostname_def)
  then have "start_names e w = (Inr (l, t, n), w2)"
    using log b l t by (simp add: start_names_def start_bind_def must_def demand_def start_return_def)
  then show ?thesis using c2 files tn by auto
qed

lemma registries_calm:
  assumes "able_start e" "calm w" "get_file w EpochFilePath = None"
  shows "\<exists>r w'. open_registries e w = (Inr r, w') \<and> calm w'"
proof -
  have ok: "se_watch e d" for d using assms(1) by (simp add: able_start_def)
  obtain a w1 where w1: "services_NewRegistry (se_dec_service e) True DefaultServicesDir w = (Inr a, w1)" "calm w1"
    using services_calm [OF assms(2)] by blast
  obtain b w2 where w2: "access_NewRegistry (se_dec_grants e) True DefaultAccessDir w1 = (Inr b, w2)" "calm w2"
    using access_calm [OF w1(2)] by blast
  have "creates w w2" using safe_stepD [OF safe_services w1(1)] safe_stepD [OF safe_access w2(1)] creates_trans by blast
  moreover have "clean EpochFilePath \<notin> set start_files" by code_simp
  ultimately have none: "get_file w2 EpochFilePath = None" using assms(3) by (simp add: creates_def)
  obtain r w4 where "exec_NewRegistry (se_dec_tool e) daemonToolsDir True (w2\<lparr>w_clock := Suc (w_clock w2)\<rparr>) = (Some r, w4)" "calm w4"
    using exec_calm [of "w2\<lparr>w_clock := Suc (w_clock w2)\<rparr>" "se_dec_tool e" daemonToolsDir] w2(2) by auto
  then show ?thesis using ok w1(1) w2 epoch_calm [OF w2(2) none]
    by (simp add: open_registries_def start_bind_def must_def start_return_def)
qed

lemma creates_agrees: "creates w0 w \<Longrightarrow> agrees w0 w"
proof -
  have "list_all (\<lambda>p. clean p = p \<and> p \<notin> set start_files) (map fst operator_files)" by code_simp
  then show "creates w0 w \<Longrightarrow> agrees w0 w" unfolding agrees_def creates_def list_all_iff by metis
qed

lemma start_ends:
  assumes "able_start e" "calm w" "list_all (\<lambda>p. get_file w p = None) fresh_files" "logs_ready e w"
    and configs: "\<And>v. calm v \<Longrightarrow> agrees w v \<Longrightarrow> \<exists>c. load_configs (se_decoders e) v = (Inr c, v\<lparr>w_clock := w_clock v + 5\<rparr>) \<and> P c"
  shows "\<exists>d w'. daemon_start e w = (Inr d, w') \<and> P (dm_configs d)"
proof -
  have fresh: "get_file w p = None" if "p \<in> set fresh_files" for p using assms(3) that by (simp add: list_all_iff)
  obtain names w1 where w1: "start_names e w = (Inr names, w1)" "calm w1" "\<forall>p. get_file w1 p = get_file w p" "fst (snd names) \<noteq> []"
    using names_calm [OF assms(1,2,4)] by blast
  obtain w2 where w2: "EnsureArtifactKeys (se_keys e) w1 = (None, w2)" "calm w2" "get_file w2 HostsConfigPath = get_file w1 HostsConfigPath"
    using keys_calm [OF w1(2), of "se_keys e"] assms(1) w1(3) fresh by (auto simp: able_start_def fresh_files_def)
  have "creates w w2" using creates_trans [OF creates_same creates_keys [OF w2(1)]] w1(3) by blast
  then obtain c where c: "load_configs (se_decoders e) w2 = (Inr c, w2\<lparr>w_clock := w_clock w2 + 5\<rparr>)" "P c"
    using configs [OF w2(2)] creates_agrees by blast
  have "get_file w2 HostsConfigPath = None" using w2(3) w1(3) fresh by (simp add: fresh_files_def)
  moreover have "\<And>hs. se_enc_hosts e hs \<noteq> None" "se_watch e (dir_of HostsConfigPath)" using assms(1) by (simp_all add: able_start_def)
  ultimately obtain m w4 where w4: "open_hosts e (fst (snd names)) (w2\<lparr>w_clock := w_clock w2 + 5\<rparr>) = (Inr m, w4)" "calm w4"
    using hosts_calm [of "w2\<lparr>w_clock := w_clock w2 + 5\<rparr>" "se_enc_hosts e" "fst (snd names)" "se_dec_hosts e"] w2(2) w1(4)
    by (auto simp: open_hosts_def must_def)
  have "creates w w4" using \<open>creates w w2\<close> safe_stepD [OF safe_configs c(1)]
      creates_hosts w4(1) [unfolded open_hosts_def must_ok] creates_trans by blast
  moreover have others: "clean EpochFilePath \<notin> set start_files" "clean ClaimsStorePath \<notin> set start_files" by code_simp+
  ultimately have "get_file w4 EpochFilePath = None" using fresh by (simp add: creates_def fresh_files_def)
  then obtain regs w5 where w5: "open_registries e w4 = (Inr regs, w5)" "calm w5" using registries_calm [OF assms(1) w4(2)] by blast
  obtain net where net: "join_tailnet e w5 = (Inr net, w5)"
    using assms(1) by (auto simp: able_start_def join_tailnet_def start_bind_def demand_ok_def demand_def start_return_def)
  obtain adm w6 where w6: "BootstrapState (se_random e) (se_probe e) (snd (snd names)) (fst (snd names)) (snd net) (hm_Names m) w5 = (Inr adm, w6)" "calm w6"
    using bootstrap_calm [OF w5(2)] assms(1) unfolding able_start_def by metis
  have "creates w w6" using \<open>creates w w4\<close> safe_stepD [OF safe_registries w5(1)] creates_bootstrap [OF w6(1)] creates_trans by blast
  then have "get_file w6 ClaimsStorePath = None" using fresh others by (simp add: creates_def fresh_files_def)
  note claims = claims_calm [OF w6(2) this, of "se_claims e"]
  show ?thesis
    using w1(1) w2(1) c w4(1) w5(1) net w6(1) claims assms(1)
    by (simp add: daemon_start_def start_bind_def must_def must_not_def demand_ok_def demand_def start_return_def able_start_def case_prod_beta)
qed



section \<open>A start on concrete values\<close>

definition demo_installed :: machine where
  "demo_installed = \<lparr>m_world = demo_world (prepared_files (detectIntegrations demo_host_env) ''tskey'' ''node'' ''100.64.0.1'' ''ELF'')
       ([''/usr/local/bin'', ''/etc/systemd/system''] @ dir_prefixes),
     m_owner = [], m_modes = [], m_calls = []\<rparr>"

lemma demo_installed_ok: "installed (prepared_files (detectIntegrations demo_host_env) ''tskey'' ''node'' ''100.64.0.1'' ''ELF'') demo_installed"
proof -
  let ?fs = "prepared_files (detectIntegrations demo_host_env) ''tskey'' ''node'' ''100.64.0.1'' ''ELF''"
  have "fault_free (m_world demo_installed)" by (simp add: demo_installed_def)
  moreover have "list_all (\<lambda>d. d \<in> set (w_dirs (m_world demo_installed))) ([''/usr/local/bin'', ''/etc/systemd/system''] @ all_dirs)" by code_simp
  then have "set ([''/usr/local/bin'', ''/etc/systemd/system''] @ all_dirs) \<subseteq> set (w_dirs (m_world demo_installed))" by (auto simp: list_all_iff)
  moreover have "list_all (\<lambda>p. p \<notin> set (w_dirs (m_world demo_installed))) written_paths" by code_simp
  moreover have "list_all (\<lambda>d. get_file (m_world demo_installed) d = None) dir_prefixes" by code_simp
  moreover have "list_all (\<lambda>(p, f). get_file (m_world demo_installed) p = Some f) ?fs" by code_simp
  moreover have "list_all (\<lambda>(p, c). p \<in> set (map fst ?fs) \<or> get_file (m_world demo_installed) p = None) operator_files" by code_simp
  ultimately show ?thesis by (simp only: installed_def sound_machine_def)
qed

definition demo_start :: start_env where
  "demo_start = \<lparr>se_getenv = (\<lambda>k. if k = ''HOST_TAILSCALE_IP'' then ''100.64.0.1'' else []), se_logging = (\<lambda>_ _. Some defaultLoggingConfig),
     se_level = (\<lambda>_. Some Info), se_tailscaled = Some (Some \<lparr>ps_HostName = ''Node'', ps_DNSName = [], ps_OS = [], ps_IPs = []\<rparr>),
     se_hostname = Some ''node'', se_keys = Some (demo_pub, demo_priv), se_decoders = demo_decoders, se_enc_hosts = (\<lambda>_. Some ''hosts''),
     se_dec_hosts = (\<lambda>_. Some ([demo_host ''Node'' [], demo_host ''Peer'' []], [])), se_dec_service = (\<lambda>_. None), se_dec_grants = (\<lambda>_. None),
     se_dec_tool = (\<lambda>_. None), se_claims = demo_claims, se_watch = (\<lambda>_. True), se_docker_client = True, se_dbus = True, se_tsnet = True,
     se_local_client = True, se_peers = Some (Some [Some ''Peer'']), se_random = Some [],
     se_probe = IsPeerAdmin (\<lambda>_. Some (HostHandler (Some \<lparr>ts_Self = Some \<lparr>ps_HostName = ''Peer'', ps_DNSName = [], ps_OS = [], ps_IPs = []\<rparr>, ts_Version = []\<rparr>)
        \<lparr>hm_hosts = [], hm_self = demo_host ''Peer'' [], hm_path = [], hm_selfTailnetName = ''Peer''\<rparr> (Some \<lparr>isAdmin = True\<rparr>) probe_request)),
     se_ip4 = ''100.64.0.2''\<rparr>"

lemma demo_able: "able_start demo_start"
proof -
  have "resolveTailnetHostname (se_tailscaled demo_start) \<noteq> None" by code_simp
  then show ?thesis by (simp add: able_start_def knows_levels_def) (simp add: demo_start_def)
qed

lemma demo_calm: "calm (m_world demo_installed)" "list_all (\<lambda>p. get_file (m_world demo_installed) p = None) fresh_files"
  "logs_ready demo_start (m_world demo_installed)"
proof -
  have "fault_free (m_world demo_installed)" by (simp add: demo_installed_def)
  moreover have "list_all (\<lambda>d. d \<in> set (w_dirs (m_world demo_installed))) [''/etc/tailkitd'']" by code_simp
  moreover have "list_all (\<lambda>d. get_file (m_world demo_installed) d = None) start_dirs" by code_simp
  moreover have "list_all (\<lambda>p. p \<notin> set (w_dirs (m_world demo_installed))) (fresh_files @ map fst operator_files)" by code_simp
  ultimately show "calm (m_world demo_installed)" by (simp add: calm_def)
  show "list_all (\<lambda>p. get_file (m_world demo_installed) p = None) fresh_files" "logs_ready demo_start (m_world demo_installed)" by code_simp+
qed

lemma demo_verified: "\<exists>r s'. Verify demo_host_env (se_decoders demo_start) demo_installed = (r, s') \<and> \<not> HasErrors r"
proof -
  have "complete_files (detectIntegrations demo_host_env) (prepared_files (detectIntegrations demo_host_env) ''tskey'' ''node'' ''100.64.0.1'' ''ELF'')"
    unfolding complete_files_def
    by (intro exI [of _ "''tskey''"] exI [of _ "''node''"] exI [of _ "''100.64.0.1''"] exI [of _ "''ELF''"]) simp
  from Verify_passes [OF demo_host_facts(3) this demo_installed_ok] show ?thesis by (auto simp: demo_start_def)
qed



lemma demo_starts: "\<exists>d w'. daemon_start demo_start (m_world demo_installed) = (Inr d, w')"
proof -
  obtain r s' where v: "Verify demo_host_env (se_decoders demo_start) demo_installed = (r, s')" "\<not> HasErrors r" using demo_verified by blast
  have "same_files (m_world demo_installed) (m_world s')" using Verify_reads [OF v(1)] by (simp add: undisturbed_def)
  then have "\<exists>c. load_configs (se_decoders demo_start) u = (Inr c, u\<lparr>w_clock := w_clock u + 5\<rparr>) \<and> True"
    if "calm u" "agrees (m_world demo_installed) u" for u
    using verified_loads [OF v that(2,1)] by blast
  from start_ends [OF demo_able demo_calm this] show ?thesis by blast
qed

lemma start_well_formed_witness:
  "\<exists>d w'. daemon_start demo_start (m_world demo_installed) = (Inr d, w') \<and> configs_valid (dm_configs d) \<and> hm_wf (nd_host (dm_node d))"
proof -
  obtain d w' where run: "daemon_start demo_start (m_world demo_installed) = (Inr d, w')" using demo_starts by blast
  from start_well_formed [OF run] run show ?thesis by blast
qed


text \<open>A node whose host file names a running peer: the start-up evaluated step by step.\<close>

definition demo_peer_disk :: world where
  "demo_peer_disk = demo_world [(HostsConfigPath, text_file ''hosts'')] [''/etc'', ''/etc/tailkitd'', ''/var'', ''/var/log'', ''/var/log/tailkitd'']"

lemma demo_peer_starts:
  "case daemon_start demo_start demo_peer_disk of
     (Inl _, _) \<Rightarrow> False | (Inr d, _) \<Rightarrow> dm_tailnetName d = ''Node'' \<and> ''Peer'' \<in> set (hm_Names (nd_host (dm_node d)))"
  by code_simp


lemma no_second_admin_witness:
  "\<exists>d w'. daemon_start demo_start demo_peer_disk = (Inr d, w') \<and> \<not> IsAdmin (nd_admin (dm_node d))"
proof -
  obtain d w' where run: "daemon_start demo_start demo_peer_disk = (Inr d, w')" "dm_tailnetName d = ''Node''"
    "''Peer'' \<in> set (hm_Names (nd_host (dm_node d)))"
    using demo_peer_starts by (cases "daemon_start demo_start demo_peer_disk") (auto split: sum.splits)
  let ?self = "\<lparr>ps_HostName = ''Peer'', ps_DNSName = [], ps_OS = [], ps_IPs = []\<rparr>"
  have "\<not> IsAdmin (nd_admin (dm_node d))"
    by (rule no_second_admin [OF run(1), where peers = "[Some ''Peer'']" and h = "''Peer''" and self = ?self and adm = "\<lparr>isAdmin = True\<rparr>"
          and st = "\<lparr>ts_Self = Some ?self, ts_Version = []\<rparr>"
          and hm = "\<lparr>hm_hosts = [], hm_self = demo_host ''Peer'' [], hm_path = [], hm_selfTailnetName = ''Peer''\<rparr>"])
      (use run(2,3) in \<open>simp_all add: demo_start_def IsAdmin_def\<close>)
  then show ?thesis using run(1) by blast
qed

end
