(* ===== verification/Command.thy ===== *)
theory Command
  imports StartupRun
begin

text \<open>
  The command line (\<^verbatim>\<open>cmd/tailkitd/main.go\<close>, \<^verbatim>\<open>root.go\<close>, \<^verbatim>\<open>install.go\<close>, \<^verbatim>\<open>verify.go\<close>): what each subcommand does to the machine, and the exit
  code it ends with. Parsing of flags and the printed text are not modelled; cobra runs a command only if it takes the arguments.
\<close>

datatype subcommand = RunDaemon | InstallSystem string string | UninstallSystem | ShowStatus | VerifyInstall | Completion

text \<open>How a child process ended: its exit code, killed by a signal (which Go reports as -1), or not started at all.\<close>

datatype child_end = Exited int | Killed | NotStarted

record command_env =
  cx_host :: host_env
  cx_start :: start_env
  cx_stop :: stop_event
  cx_euid :: nat
  cx_status :: "string list list \<Rightarrow> child_end"
  cx_stdout :: bool

datatype command_error = ExitCode int | Failure

type_synonym command_run = "machine \<Rightarrow> command_error option \<times> machine"

definition installerCmd :: "command_env \<Rightarrow> string \<Rightarrow> string \<Rightarrow> command_run" where
  "installerCmd c authKey hostname s =
     (let key = (if authKey = [] then se_getenv (cx_start c) ''TS_AUTHKEY'' else authKey) in
      if key = [] then (Some Failure, s)
      else if cx_euid c \<noteq> 0 then (Some Failure, s)
      else (case Install (cx_host c) (se_decoders (cx_start c)) key hostname s of
              (Inl _, s') \<Rightarrow> (Some Failure, s') | (Inr _, s') \<Rightarrow> (None, s')))"

definition uninstallCmd :: "command_env \<Rightarrow> command_run" where
  "uninstallCmd c s =
     (if cx_euid c \<noteq> 0 then (Some Failure, s)
      else (case Uninstall (cx_host c) s of (Inl _, s') \<Rightarrow> (Some Failure, s') | (Inr _, s') \<Rightarrow> (None, s')))"

definition statusCmd :: "command_env \<Rightarrow> command_run" where
  "statusCmd c s =
     (let calls = m_calls s @ [[''systemctl'', ''status'', ''tailkitd'']]; s' = s\<lparr>m_calls := calls\<rparr> in
      case cx_status c calls of
        Exited k \<Rightarrow> (if k = 0 then None else Some (ExitCode k), s')
      | Killed \<Rightarrow> (Some (ExitCode (- 1)), s')
      | NotStarted \<Rightarrow> (Some Failure, s'))"

definition verifyCmd :: "command_env \<Rightarrow> command_run" where
  "verifyCmd c s =
     (case Verify (cx_host c) (se_decoders (cx_start c)) s of
        (r, s') \<Rightarrow> (if HasErrors r then Some (ExitCode 1) else None, s'))"

definition completionCmd :: "command_env \<Rightarrow> string list \<Rightarrow> command_run" where
  "completionCmd c args s =
     (if args ! 0 \<in> {''bash'', ''zsh'', ''fish'', ''powershell''} \<and> cx_stdout c then (None, s) else (Some Failure, s))"

text \<open>The daemon command always ends with an error value, which carries 0 when it stopped cleanly.\<close>

definition daemonCmd :: "command_env \<Rightarrow> command_run" where
  "daemonCmd c s = (case cmdRun (cx_start c) (cx_stop c) (m_world s) of (code, w) \<Rightarrow> (Some (ExitCode code), s\<lparr>m_world := w\<rparr>))"

definition execute_command :: "command_env \<Rightarrow> subcommand \<Rightarrow> string list \<Rightarrow> command_run" where
  "execute_command c cmd args s =
     (if (if cmd = Completion then length args \<noteq> 1 else args \<noteq> []) then (Some Failure, s)
      else (case cmd of
              RunDaemon \<Rightarrow> daemonCmd c s
            | InstallSystem key hostname \<Rightarrow> installerCmd c key hostname s
            | UninstallSystem \<Rightarrow> uninstallCmd c s
            | ShowStatus \<Rightarrow> statusCmd c s
            | VerifyInstall \<Rightarrow> verifyCmd c s
            | Completion \<Rightarrow> completionCmd c args s))"

text \<open>\<open>main\<close>: the status that the parent process sees, one byte of what \<open>os.Exit\<close> gets.\<close>

definition main_exit :: "command_env \<Rightarrow> subcommand \<Rightarrow> string list \<Rightarrow> machine \<Rightarrow> int \<times> machine" where
  "main_exit c cmd args s =
     (case execute_command c cmd args s of
        (e, s') \<Rightarrow> ((case e of None \<Rightarrow> 0 | Some (ExitCode k) \<Rightarrow> k mod 256 | Some Failure \<Rightarrow> 1), s'))"

section \<open>Exit codes\<close>



definition demo_command :: command_env where
  "demo_command = \<lparr>cx_host = demo_host_env, cx_start = demo_start, cx_stop = GotSignal, cx_euid = 0,
     cx_status = (\<lambda>_. Exited 0), cx_stdout = True\<rparr>"


end
