(* ===== verification/RequestLog.thy ===== *)
theory RequestLog
  imports Http
begin

text \<open>
  The request logger around the router (\<^verbatim>\<open>helpers/requestlog.go\<close>, \<^verbatim>\<open>helpers/requestctx.go\<close>): a recorder between handler and connection that remembers
  the status. A handler is what it calls on its writer, in order, and whether it panics after that. The connection's writer is
  the standard library's: the first final status counts, and a write or a flush sends 200 if there was none.
\<close>

section \<open>The connection\<close>

datatype rw_op = RwWrite string | RwHeader nat | RwFlush | RwReadFrom string | RwHijack | RwPush string

record conn =
  cn_status :: "nat option"
  cn_infos :: "nat list"
  cn_body :: string
  cn_pushes :: "string list"
  cn_hijacked :: bool
  cn_canFlush :: bool
  cn_canHijack :: bool
  cn_canPush :: bool

definition send_header :: "nat \<Rightarrow> conn \<Rightarrow> conn" where
  "send_header st c =
     (if cn_status c \<noteq> None then c
      else if 100 \<le> st \<and> st < 200 \<and> st \<noteq> 101 then c\<lparr>cn_infos := cn_infos c @ [st]\<rparr>
      else c\<lparr>cn_status := Some st\<rparr>)"

definition send_body :: "string \<Rightarrow> conn \<Rightarrow> conn" where
  "send_body d c = (let c' = send_header 200 c in c'\<lparr>cn_body := cn_body c' @ d\<rparr>)"

text \<open>An operation on the connection: what it supports, and what it does. A hijacked connection takes nothing more.\<close>

fun conn_op :: "rw_op \<Rightarrow> conn \<Rightarrow> conn" where
  "conn_op (RwWrite d) c = (if cn_hijacked c then c else send_body d c)"
| "conn_op (RwHeader st) c = (if cn_hijacked c then c else send_header st c)"
| "conn_op RwFlush c = (if cn_hijacked c \<or> \<not> cn_canFlush c then c else send_header 200 c)"
| "conn_op (RwReadFrom d) c = (if cn_hijacked c \<or> d = [] then c else send_body d c)"
| "conn_op RwHijack c = (if cn_canHijack c then c\<lparr>cn_hijacked := True\<rparr> else c)"
| "conn_op (RwPush t) c = (if cn_canPush c then c\<lparr>cn_pushes := cn_pushes c @ [t]\<rparr> else c)"

section \<open>The recorder\<close>

record recorder =
  rc_conn :: conn
  rc_status :: nat

text \<open>The recorder's \<open>Write\<close>, \<open>Flush\<close>, \<open>ReadFrom\<close>, \<open>Hijack\<close> and \<open>Push\<close> pass the call on; only \<open>WriteHeader\<close> looks at it.\<close>

definition recorder_op :: "rw_op \<Rightarrow> recorder \<Rightarrow> recorder" where
  "recorder_op opn r =
     (case opn of
        RwHeader st \<Rightarrow> r\<lparr>rc_status := st, rc_conn := conn_op opn (rc_conn r)\<rparr>
      | _ \<Rightarrow> r\<lparr>rc_conn := conn_op opn (rc_conn r)\<rparr>)"

record log_line =
  ln_level :: level
  ln_method :: string
  ln_path :: string
  ln_status :: nat
  ln_request_id :: string
  ln_caller :: "string option"

text \<open>The request id travels in the context: a value there counts only if it is not empty.\<close>

type_synonym request_ctx = "string option"

definition WithRequestID :: "string \<Rightarrow> request_ctx" where
  "WithRequestID requestID = Some requestID"

definition RequestIDFromContext :: "request_ctx \<Rightarrow> string option" where
  "RequestIDFromContext ctx = (case ctx of None \<Rightarrow> None | Some i \<Rightarrow> if i = [] then None else Some i)"

definition WithRequestLogFields :: "request_ctx \<Rightarrow> (string \<times> string) list \<Rightarrow> (string \<times> string) list" where
  "WithRequestLogFields ctx fs =
     (case RequestIDFromContext ctx of None \<Rightarrow> fs | Some i \<Rightarrow> fs @ [(''request_id'', i)])"

definition caller_field :: "request \<Rightarrow> string option" where
  "caller_field r = (case Caller r of None \<Rightarrow> None | Some c \<Rightarrow> if Hostname c = [] then None else Some (Hostname c))"

text \<open>\<open>RequestLogger\<close>: the line is written after the handler returns; a panic passes through it, and nothing is logged.\<close>

definition RequestLogger :: "string \<Rightarrow> (request_ctx \<Rightarrow> request \<Rightarrow> rw_op list \<times> bool) \<Rightarrow> request \<Rightarrow> conn \<Rightarrow> conn \<times> log_line option" where
  "RequestLogger requestID handler r c =
     (case handler (WithRequestID requestID) r of
        (ops, panics) \<Rightarrow>
          (let rec = fold recorder_op ops \<lparr>rc_conn = c, rc_status = 200\<rparr>
           in (rc_conn rec,
               if panics then None
               else Some \<lparr>ln_level = request_log_level r (rc_status rec), ln_method = Method r, ln_path = Path r,
                          ln_status = rc_status rec, ln_request_id = requestID, ln_caller = caller_field r\<rparr>)))"

section \<open>The recorder is transparent, and its status is the one sent\<close>

lemma recorder_conn: "rc_conn (fold recorder_op ops r) = fold conn_op ops (rc_conn r)"
  by (induction ops arbitrary: r) (simp_all add: recorder_op_def split: rw_op.splits)

definition headers_of :: "rw_op list \<Rightarrow> nat list" where
  "headers_of ops = [st. RwHeader st \<leftarrow> ops]"

lemma recorder_status: "rc_status (fold recorder_op ops r) = last (rc_status r # headers_of ops)"
  by (induction ops arbitrary: r) (auto simp: recorder_op_def headers_of_def split: rw_op.splits)

text \<open>A handler that sends one final status and sends it first.\<close>

definition header_first :: "rw_op list \<Rightarrow> bool" where
  "header_first ops \<longleftrightarrow>
     (case ops of RwHeader st # rest \<Rightarrow> headers_of rest = [] \<and> (st < 100 \<or> 200 \<le> st) | _ \<Rightarrow> headers_of ops = [])"

lemma status_stays: "cn_status c = Some st \<Longrightarrow> cn_status (conn_op opn c) = Some st"
  by (cases opn) (auto simp: send_header_def send_body_def Let_def)

lemma status_stays_all: "cn_status c = Some st \<Longrightarrow> cn_status (fold conn_op ops c) = Some st"
  by (induction ops arbitrary: c) (auto intro: status_stays)

lemma no_header_status:
  "headers_of ops = [] \<Longrightarrow> cn_status c = None \<Longrightarrow> cn_status (fold conn_op ops c) \<in> {None, Some 200}"
proof (induction ops arbitrary: c)
  case (Cons opn ops)
  have rest: "headers_of ops = []" "\<forall>st. opn \<noteq> RwHeader st" using Cons.prems(1) by (auto simp: headers_of_def split: rw_op.splits)
  then have "cn_status (conn_op opn c) = None \<or> cn_status (conn_op opn c) = Some 200"
    using Cons.prems(2) by (cases opn) (auto simp: send_header_def send_body_def Let_def)
  then show ?case using Cons.IH [OF rest(1)] status_stays_all [of "conn_op opn c" 200 ops] by auto
qed simp

text \<open>
  Logging is transparent: The client gets exactly what the handler would send without the logger. A handler that returns leaves one log line;
  if it sends at most one final status, before anything else, the status in the line is the one the client got, 200 where the server
  chose it. A handler that panics leaves none.
\<close>

theorem request_logged:
  assumes "RequestLogger i h r c = (c', line)" "h (WithRequestID i) r = (ops, panics)"
  shows "c' = fold conn_op ops c \<and> (line = None \<longleftrightarrow> panics) \<and>
    (\<forall>l. line = Some l \<longrightarrow> ln_request_id l = i \<and> ln_status l = last (200 # headers_of ops) \<and> ln_level l = request_log_level r (ln_status l) \<and>
      (header_first ops \<and> cn_status c = None \<and> \<not> cn_hijacked c \<longrightarrow>
         (case cn_status c' of None \<Rightarrow> ln_status l = 200 | Some st \<Rightarrow> ln_status l = st)))"
proof -
  have c': "c' = fold conn_op ops c" using assms by (auto simp: RequestLogger_def Let_def recorder_conn)
  have line: "line = (if panics then None else Some \<lparr>ln_level = request_log_level r (last (200 # headers_of ops)), ln_method = Method r,
      ln_path = Path r, ln_status = last (200 # headers_of ops), ln_request_id = i, ln_caller = caller_field r\<rparr>)"
    using assms by (auto simp: RequestLogger_def Let_def recorder_status)
  have "(case cn_status c' of None \<Rightarrow> last (200 # headers_of ops) = 200 | Some st \<Rightarrow> last (200 # headers_of ops) = st)"
    if hf: "header_first ops" "cn_status c = None" "\<not> cn_hijacked c"
  proof (cases "\<exists>st rest. ops = RwHeader st # rest")
    case True
    then obtain st rest where ops: "ops = RwHeader st # rest" by blast
    then have h: "headers_of rest = []" "st < 100 \<or> 200 \<le> st" using hf(1) by (auto simp: header_first_def)
    then have "cn_status (conn_op (RwHeader st) c) = Some st" using hf(2,3) by (auto simp: send_header_def)
    then have "cn_status c' = Some st" using status_stays_all by (simp add: c' ops)
    then show ?thesis using h(1) by (simp add: ops headers_of_def)
  next
    case False
    then have "headers_of ops = []" using hf(1) by (auto simp: header_first_def split: list.splits rw_op.splits)
    with no_header_status [OF this hf(2)] show ?thesis by (auto simp: c')
  qed
  then show ?thesis using c' line by (auto split: if_splits option.splits)
qed

definition demo_conn :: conn where
  "demo_conn = \<lparr>cn_status = None, cn_infos = [], cn_body = [], cn_pushes = [], cn_hijacked = False, cn_canFlush = True, cn_canHijack = True, cn_canPush = False\<rparr>"

definition demo_log_request :: request where
  "demo_log_request = \<lparr>Method = ''GET'', Path = ''/host'', Header = (\<lambda>_. []), Query = (\<lambda>_. []), Body = [], Caller = None\<rparr>"

lemma request_logged_witness:
  "\<exists>c' l. RequestLogger ''id'' (\<lambda>_ _. ([RwHeader 404, RwWrite ''no''], False)) demo_log_request demo_conn = (c', Some l) \<and> ln_status l = 404"
proof -
  let ?ops = "[RwHeader 404, RwWrite ''no'']"
  obtain c' line where run: "RequestLogger ''id'' (\<lambda>_ _. (?ops, False)) demo_log_request demo_conn = (c', line)" by fastforce
  from request_logged [OF run] obtain l where "line = Some l" "ln_status l = last (200 # headers_of ?ops)" by (cases line) auto
  then show ?thesis using run by (simp add: headers_of_def)
qed

text \<open>A second status is logged although the client got the first.\<close>

lemma second_status_logged:
  "(case RequestLogger ''id'' (\<lambda>_ _. ([RwHeader 200, RwHeader 500], False)) demo_log_request demo_conn of
     (c', line) \<Rightarrow> (cn_status c', map_option ln_status line)) = (Some 200, Some 500)"
  by code_simp

end
