(* ===== verification/Vars.thy ===== *)
theory Vars
  imports Config Replace
begin

text \<open>
  The store of variables and its endpoints (\<^verbatim>\<open>internal/vars/store.go, handlers.go\<close>). Every operation of the store holds
  the lock of its scope from its first to its last access of the scope's file, so operations are atomic
  with respect to each other and a step is a whole operation. The JSON codec of a scope is a parameter; decoding
  \<^verbatim>\<open>null\<close> gives the nil map, on which an assignment panics.
\<close>

type_synonym scope_data = "(string \<times> string) list"

record vars_codec =
  dec_scope :: "string \<Rightarrow> scope_data option option"
  enc_scope :: "scope_data \<Rightarrow> string option"

datatype vars_error = VarsCanceled | ScopeNotFound | KeyNotFound | ReservedKey | InvalidKey string | VarsRead io_error
  | VarsParse | VarsIO io_error | VarsMarshal | NilMapPanic

section \<open>The store\<close>

definition scopePath :: "string \<Rightarrow> string \<Rightarrow> string \<Rightarrow> string" where
  "scopePath base project env = join_path [base, project, env @ ''.json'']"

definition readScope :: "vars_codec \<Rightarrow> string \<Rightarrow> string \<Rightarrow> string \<Rightarrow> world \<Rightarrow> (vars_error + scope_data option) \<times> world" where
  "readScope c base project env w =
     (case os_ReadFile (scopePath base project env) w of
        (Inl x, w1) \<Rightarrow> (Inl (if x = ENOENT then ScopeNotFound else VarsRead x), w1)
      | (Inr data, w1) \<Rightarrow> (case dec_scope c data of None \<Rightarrow> (Inl VarsParse, w1) | Some sd \<Rightarrow> (Inr sd, w1)))"

definition readScopeOrEmpty :: "vars_codec \<Rightarrow> string \<Rightarrow> string \<Rightarrow> string \<Rightarrow> world \<Rightarrow> (vars_error + scope_data option) \<times> world" where
  "readScopeOrEmpty c base project env w =
     (case readScope c base project env w of
        (Inl e, w1) \<Rightarrow> (if e = ScopeNotFound then Inr (Some []) else Inl e, w1)
      | (Inr sd, w1) \<Rightarrow> (Inr sd, w1))"

definition writeScope :: "vars_codec \<Rightarrow> string \<Rightarrow> string \<Rightarrow> string \<Rightarrow> scope_data \<Rightarrow> world \<Rightarrow> vars_error option \<times> world" where
  "writeScope c base project env sd w =
     (let path = scopePath base project env; dir = dir_of path in
      case os_MkdirAll dir w of
        (Inl x, w1) \<Rightarrow> (Some (VarsIO x), w1)
      | (Inr _, w1) \<Rightarrow>
          (case enc_scope c sd of
             None \<Rightarrow> (Some VarsMarshal, w1)
           | Some data \<Rightarrow>
               (case replace_file dir path data 416 w1 of
                  (Inl x, w2) \<Rightarrow> (Some (VarsIO x), w2)
                | (Inr _, w2) \<Rightarrow> (None, w2))))"

definition reserved :: "string \<Rightarrow> bool" where
  "reserved key \<longleftrightarrow> has_prefix key ''_''"

text \<open>The pattern \<^verbatim>\<open>^[a-zA-Z][a-zA-Z0-9_./-]*$\<close>.\<close>

definition is_letter :: "char \<Rightarrow> bool" where
  "is_letter ch \<longleftrightarrow> is_lower ch \<or> is_upper ch"

definition keyPattern :: "string \<Rightarrow> bool" where
  "keyPattern key = (case key of [] \<Rightarrow> False
     | ch # rest \<Rightarrow> is_letter ch \<and> list_all (\<lambda>x. is_letter x \<or> is_digit x \<or> x \<in> {CHR ''_'', CHR ''.'', CHR ''/'', CHR ''-''}) rest)"

definition visible_vars :: "scope_data option \<Rightarrow> scope_data" where
  "visible_vars sd = filter (\<lambda>(k, v). \<not> reserved k) (case sd of None \<Rightarrow> [] | Some m \<Rightarrow> m)"

definition vars_List :: "vars_codec \<Rightarrow> string \<Rightarrow> bool \<Rightarrow> string \<Rightarrow> string \<Rightarrow> world \<Rightarrow> (vars_error + scope_data) \<times> world" where
  "vars_List c base cancelled project env w =
     (if cancelled then (Inl VarsCanceled, w)
      else (case readScope c base project env w of
              (Inl e, w1) \<Rightarrow> (Inl e, w1)
            | (Inr sd, w1) \<Rightarrow> (Inr (visible_vars sd), w1)))"

definition vars_Get :: "vars_codec \<Rightarrow> string \<Rightarrow> bool \<Rightarrow> string \<Rightarrow> string \<Rightarrow> string \<Rightarrow> world \<Rightarrow> (vars_error + string) \<times> world" where
  "vars_Get c base cancelled project env key w =
     (if cancelled then (Inl VarsCanceled, w)
      else if reserved key then (Inl ReservedKey, w)
      else (case readScope c base project env w of
              (Inl e, w1) \<Rightarrow> (Inl e, w1)
            | (Inr sd, w1) \<Rightarrow>
                (case map_of (case sd of None \<Rightarrow> [] | Some m \<Rightarrow> m) key of None \<Rightarrow> (Inl KeyNotFound, w1) | Some v \<Rightarrow> (Inr v, w1))))"

definition stamp :: "string \<Rightarrow> string \<Rightarrow> scope_data \<Rightarrow> scope_data" where
  "stamp now caller m = AList.update ''_meta.updated_by'' caller (AList.update ''_meta.updated_at'' now m)"

definition vars_Set ::
  "vars_codec \<Rightarrow> string \<Rightarrow> bool \<Rightarrow> string \<Rightarrow> string \<Rightarrow> string \<Rightarrow> string \<Rightarrow> string \<Rightarrow> string \<Rightarrow> world \<Rightarrow> vars_error option \<times> world" where
  "vars_Set c base cancelled now project env key value caller w =
     (if cancelled then (Some VarsCanceled, w)
      else if reserved key then (Some ReservedKey, w)
      else if \<not> keyPattern key then (Some (InvalidKey key), w)
      else (case readScopeOrEmpty c base project env w of
              (Inl e, w1) \<Rightarrow> (Some e, w1)
            | (Inr None, w1) \<Rightarrow> (Some NilMapPanic, w1)
            | (Inr (Some data), w1) \<Rightarrow>
                writeScope c base project env (stamp now caller (AList.update key value data)) w1))"

definition vars_Delete ::
  "vars_codec \<Rightarrow> string \<Rightarrow> bool \<Rightarrow> string \<Rightarrow> string \<Rightarrow> string \<Rightarrow> string \<Rightarrow> string \<Rightarrow> world \<Rightarrow> vars_error option \<times> world" where
  "vars_Delete c base cancelled now project env key caller w =
     (if cancelled then (Some VarsCanceled, w)
      else if reserved key then (Some ReservedKey, w)
      else (case readScopeOrEmpty c base project env w of
              (Inl e, w1) \<Rightarrow> (Some e, w1)
            | (Inr None, w1) \<Rightarrow> (Some NilMapPanic, w1)
            | (Inr (Some data), w1) \<Rightarrow> writeScope c base project env (stamp now caller (AList.delete key data)) w1))"

definition DeleteScope :: "string \<Rightarrow> bool \<Rightarrow> string \<Rightarrow> string \<Rightarrow> world \<Rightarrow> vars_error option \<times> world" where
  "DeleteScope base cancelled project env w =
     (if cancelled then (Some VarsCanceled, w)
      else (case os_Remove (scopePath base project env) w of
              (Inl x, w1) \<Rightarrow> (if x = ENOENT then None else Some (VarsIO x), w1)
            | (Inr _, w1) \<Rightarrow> (None, w1)))"

text \<open>\<open>strings.ReplaceAll(s, "'", "'\''")\<close> between single quotes.\<close>

definition quote :: char where "quote = CHR 0x27"
definition backslash :: char where "backslash = CHR 0x5C"

definition shellQuote :: "string \<Rightarrow> string" where
  "shellQuote s = quote # concat (map (\<lambda>ch. if ch = quote then [quote, backslash, quote, quote] else [ch]) s) @ [quote]"

definition env_line :: "string \<Rightarrow> string \<Rightarrow> string" where
  "env_line k v = k @ CHR ''='' # shellQuote v @ [CHR 0x0A]"

definition render_vars :: "scope_data \<Rightarrow> string" where
  "render_vars vars = concat (map (\<lambda>k. env_line k (the (map_of vars k))) (sort (remdups (map fst vars))))"

definition RenderEnv :: "vars_codec \<Rightarrow> string \<Rightarrow> bool \<Rightarrow> string \<Rightarrow> string \<Rightarrow> world \<Rightarrow> (vars_error + string) \<times> world" where
  "RenderEnv c base cancelled project env w =
     (case vars_List c base cancelled project env w of
        (Inl e, w1) \<Rightarrow> (Inl e, w1)
      | (Inr vars, w1) \<Rightarrow> (Inr (render_vars vars), w1))"

section \<open>The store as a map\<close>

text \<open>
  The specification: a scope is a map from keys to values. \<open>scope_map\<close> reads it off the disk, \<open>stored\<close> says
  that the scope's file is the encoding of a map.
\<close>

definition scope_map :: "vars_codec \<Rightarrow> string \<Rightarrow> string \<Rightarrow> string \<Rightarrow> world \<Rightarrow> (string \<rightharpoonup> string) option" where
  "scope_map c base project env w =
     (case get_file w (scopePath base project env) of
        None \<Rightarrow> Some Map.empty
      | Some f \<Rightarrow> map_option (\<lambda>sd. map_of (case sd of None \<Rightarrow> [] | Some m \<Rightarrow> m)) (dec_scope c (f_data f)))"

definition stored :: "vars_codec \<Rightarrow> string \<Rightarrow> string \<Rightarrow> string \<Rightarrow> (string \<rightharpoonup> string) \<Rightarrow> world \<Rightarrow> bool" where
  "stored c base project env m w \<longleftrightarrow> (\<exists>f l. get_file w (scopePath base project env) = Some f \<and>
     enc_scope c l = Some (f_data f) \<and> map_of l = m)"

definition only_scope :: "string \<Rightarrow> string \<Rightarrow> string \<Rightarrow> world \<Rightarrow> world \<Rightarrow> bool" where
  "only_scope base project env w w' \<longleftrightarrow>
     (\<forall>q. clean q \<noteq> clean (scopePath base project env) \<longrightarrow> get_file w' q = get_file w q)"

definition keeps_files :: "world \<Rightarrow> world \<Rightarrow> bool" where
  "keeps_files w w' \<longleftrightarrow> (\<forall>q. get_file w' q = get_file w q)"

lemma keeps_files_same: "same_files w w' \<Longrightarrow> keeps_files w w'"
  by (simp add: keeps_files_def same_files_get)

lemma keeps_files_only: "keeps_files w w' \<Longrightarrow> only_scope base project env w w'"
  by (simp add: keeps_files_def only_scope_def)

definition stamped :: "string \<Rightarrow> string \<Rightarrow> (string \<rightharpoonup> string) \<Rightarrow> (string \<rightharpoonup> string)" where
  "stamped now caller m = m(''_meta.updated_at'' \<mapsto> now, ''_meta.updated_by'' \<mapsto> caller)"

lemma map_of_stamp [simp]: "map_of (stamp now caller m) = stamped now caller (map_of m)"
  by (simp add: stamp_def stamped_def)

lemma readScope_files: "readScope c base p e w = (r, w') \<Longrightarrow> same_files w w'"
  using quietD [OF quiet_ops(8)] by (fastforce simp: readScope_def split: prod.splits sum.splits option.splits)

lemma readScopeOrEmpty_cases:
  assumes "readScopeOrEmpty c base p e w = (r, w')"
  shows "same_files w w' \<and> (\<forall>sd. r = Inr sd \<longrightarrow> scope_map c base p e w = Some (map_of (case sd of None \<Rightarrow> [] | Some m \<Rightarrow> m)))"
proof -
  obtain x w1 where rd: "os_ReadFile (scopePath base p e) w = (x, w1)" by fastforce
  show ?thesis
    using assms ReadFile_result [OF rd] quietD [OF quiet_ops(8) rd] rd
    by (cases x) (auto simp: readScopeOrEmpty_def readScope_def scope_map_def split: if_splits option.splits)
qed

lemma writeScope_cases:
  assumes "writeScope c base p e sd w = (r, w')"
  shows "(r \<noteq> None \<longrightarrow> keeps_files w w') \<and> (r = None \<longrightarrow> stored c base p e (map_of sd) w' \<and> only_scope base p e w w')"
proof -
  let ?p = "scopePath base p e"
  obtain x w1 where mk: "os_MkdirAll (dir_of ?p) w = (x, w1)" by fastforce
  have files: "get_file w1 q = get_file w q" for q using MkdirAll_files [OF mk] .
  show ?thesis
  proof (cases "\<exists>u d. x = Inr u \<and> enc_scope c sd = Some d")
    case False
    with assms mk files show ?thesis by (auto simp: writeScope_def Let_def keeps_files_def split: sum.splits option.splits)
  next
    case True
    then obtain u d where d: "x = Inr u" "enc_scope c sd = Some d" by blast
    obtain y w2 where rp: "replace_file (dir_of ?p) ?p d 416 w1 = (y, w2)" by fastforce
    have "w' = w2" "r = (case y of Inl z \<Rightarrow> Some (VarsIO z) | Inr _ \<Rightarrow> None)"
      using assms mk d rp by (auto simp: writeScope_def Let_def split: sum.splits)
    then show ?thesis
      using replace_cases [OF rp] d files
      by (auto simp: keeps_files_def stored_def only_scope_def same_files_get wrote_get)
  qed
qed

lemma Remove_files:
  "os_Remove p w = (r, w') \<Longrightarrow> (\<forall>q. clean q \<noteq> clean p \<longrightarrow> get_file w' q = get_file w q) \<and>
     (\<forall>x. r = Inl x \<longrightarrow> keeps_files w w') \<and> (r = Inl ENOENT \<or> r = Inr () \<longrightarrow> get_file w' p = None)"
  by (auto simp: os_Remove_def io_call_def Let_def keeps_files_def split: if_splits fault.splits option.splits)

lemma Set_cases:
  assumes "vars_Set c base cancelled now p e key value caller w = (r, w')"
  shows "(r \<noteq> None \<longrightarrow> keeps_files w w') \<and> (r = None \<longrightarrow> \<not> reserved key \<and> keyPattern key \<and> only_scope base p e w w' \<and>
      (\<exists>m. scope_map c base p e w = Some m \<and> stored c base p e (stamped now caller (m(key \<mapsto> value))) w'))"
proof (cases "cancelled \<or> reserved key \<or> \<not> keyPattern key")
  case True with assms show ?thesis by (auto simp: vars_Set_def keeps_files_def split: if_splits)
next
  case False
  obtain x w1 where rd: "readScopeOrEmpty c base p e w = (x, w1)" by fastforce
  note rdc = readScopeOrEmpty_cases [OF rd]
  show ?thesis
  proof (cases "\<exists>data. x = Inr (Some data)")
    case False': False
    with assms False rd rdc show ?thesis
      by (auto simp: vars_Set_def keeps_files_same split: sum.splits option.splits)
  next
    case True
    then obtain data where x: "x = Inr (Some data)" by blast
    with assms False rd have wr: "writeScope c base p e (stamp now caller (AList.update key value data)) w1 = (r, w')"
      by (simp add: vars_Set_def)
    have "get_file w1 q = get_file w q" for q using rdc same_files_get by blast
    with writeScope_cases [OF wr] rdc x False show ?thesis
      by (auto simp: keeps_files_def only_scope_def)
  qed
qed

lemma Delete_cases:
  assumes "vars_Delete c base cancelled now p e key caller w = (r, w')"
  shows "(r \<noteq> None \<longrightarrow> keeps_files w w') \<and> (r = None \<longrightarrow> \<not> reserved key \<and> only_scope base p e w w' \<and>
      (\<exists>m. scope_map c base p e w = Some m \<and> stored c base p e (stamped now caller (m(key := None))) w'))"
proof (cases "cancelled \<or> reserved key")
  case True with assms show ?thesis by (auto simp: vars_Delete_def keeps_files_def split: if_splits)
next
  case False
  obtain x w1 where rd: "readScopeOrEmpty c base p e w = (x, w1)" by fastforce
  note rdc = readScopeOrEmpty_cases [OF rd]
  show ?thesis
  proof (cases "\<exists>data. x = Inr (Some data)")
    case False': False
    with assms False rd rdc show ?thesis
      by (auto simp: vars_Delete_def keeps_files_same split: sum.splits option.splits)
  next
    case True
    then obtain data where x: "x = Inr (Some data)" by blast
    with assms False rd have wr: "writeScope c base p e (stamp now caller (AList.delete key data)) w1 = (r, w')"
      by (simp add: vars_Delete_def)
    have "get_file w1 q = get_file w q" for q using rdc same_files_get by blast
    with writeScope_cases [OF wr] rdc x False show ?thesis
      by (auto simp: keeps_files_def only_scope_def)
  qed
qed

lemma DeleteScope_cases:
  assumes "DeleteScope base cancelled p e w = (r, w')"
  shows "(r \<noteq> None \<longrightarrow> keeps_files w w') \<and> (r = None \<longrightarrow> only_scope base p e w w' \<and> scope_map c base p e w' = Some Map.empty)"
proof (cases cancelled)
  case True with assms show ?thesis by (auto simp: DeleteScope_def keeps_files_def only_scope_def)
next
  case False
  obtain x w1 where rm: "os_Remove (scopePath base p e) w = (x, w1)" by fastforce
  show ?thesis
    using assms False rm Remove_files [OF rm]
    by (cases x) (auto simp: DeleteScope_def only_scope_def keeps_files_def scope_map_def split: if_splits)
qed

text \<open>
  C20 (the store is a map on disk). Whatever calls fail and wherever the process dies: a \<open>Set\<close> or \<open>Delete\<close> that reports
  success has replaced the scope's file by the encoding of the old map with just that key changed and the
  two metadata entries renewed, a successful \<open>DeleteScope\<close> leaves the empty map, none touches another file, and one that
  reports an error has changed no file at all. \<open>Set\<close> only accepts keys of the pattern, and neither
  touches a reserved key by request.
\<close>

theorem vars_store_refines:
  "(\<forall>r w'. vars_Set c base x now p e key v caller w = (r, w') \<longrightarrow>
      (r \<noteq> None \<longrightarrow> keeps_files w w') \<and> (r = None \<longrightarrow> \<not> reserved key \<and> keyPattern key \<and> only_scope base p e w w' \<and>
        (\<exists>m. scope_map c base p e w = Some m \<and> stored c base p e (stamped now caller (m(key \<mapsto> v))) w'))) \<and>
   (\<forall>r w'. vars_Delete c base x now p e key caller w = (r, w') \<longrightarrow>
      (r \<noteq> None \<longrightarrow> keeps_files w w') \<and> (r = None \<longrightarrow> \<not> reserved key \<and> only_scope base p e w w' \<and>
        (\<exists>m. scope_map c base p e w = Some m \<and> stored c base p e (stamped now caller (m(key := None))) w'))) \<and>
   (\<forall>r w'. DeleteScope base x p e w = (r, w') \<longrightarrow>
      (r \<noteq> None \<longrightarrow> keeps_files w w') \<and> (r = None \<longrightarrow> only_scope base p e w w' \<and> scope_map c base p e w' = Some Map.empty))"
  by (intro conjI allI; rule impI, erule Set_cases Delete_cases DeleteScope_cases)

definition demo_vars :: vars_codec where
  "demo_vars = \<lparr>dec_scope = (\<lambda>d. if d = ''e'' then Some (Some [(''k'', ''1''), (''_meta.updated_at'', ''t''), (''_meta.updated_by'', ''h'')])
       else if d = ''null'' then Some None else None),
     enc_scope = (\<lambda>m. Some ''e'')\<rparr>"

lemma Set_ff:
  assumes "vars_Set c base x now p e k v caller w = (r, w')" "fault_free w"
  shows "fault_free w'"
proof -
  have rd: "fault_free w1" if "readScopeOrEmpty c base p e w = (y, w1)" for y w1
    using that assms(2) ffD [OF ff_ops(8)]
    by (fastforce simp: readScopeOrEmpty_def readScope_def split: prod.splits sum.splits option.splits)
  have wr: "fault_free w2" if "writeScope c base p e sd w1 = (y, w2)" "fault_free w1" for sd y w1 w2
    using that ffD [OF ff_ops(10)] ffD [OF ff_replace]
    by (fastforce simp: writeScope_def Let_def split: prod.splits sum.splits option.splits)
  show ?thesis
    using assms rd wr
    by (fastforce simp: vars_Set_def split: if_splits prod.splits sum.splits option.splits)
qed

lemma demo_set:
  obtains w' where "vars_Set demo_vars ''/v'' False ''t'' ''p'' ''e'' ''k'' ''1'' ''h'' (demo_world [] [''/v'']) = (None, w')"
    "fault_free w'" "clean (scopePath ''/v'' ''p'' ''e'') \<notin> set (w_dirs w')"
proof -
  let ?run = "vars_Set demo_vars ''/v'' False ''t'' ''p'' ''e'' ''k'' ''1'' ''h'' (demo_world [] [''/v''])"
  obtain r w' where run: "?run = (r, w')" by fastforce
  have "fst ?run = None" "clean (scopePath ''/v'' ''p'' ''e'') \<notin> set (w_dirs (snd ?run))" by code_simp+
  with Set_ff [OF run demo_fault_free] that run show thesis by simp
qed

theorem vars_store_refines_witness:
  "\<exists>w'. vars_Set demo_vars ''/v'' False ''t'' ''p'' ''e'' ''k'' ''1'' ''h'' (demo_world [] [''/v'']) = (None, w') \<and>
     stored demo_vars ''/v'' ''p'' ''e'' (stamped ''t'' ''h'' [''k'' \<mapsto> ''1'']) w'"
proof -
  obtain w' where run: "vars_Set demo_vars ''/v'' False ''t'' ''p'' ''e'' ''k'' ''1'' ''h'' (demo_world [] [''/v'']) = (None, w')"
    using demo_set by blast
  have "scope_map demo_vars ''/v'' ''p'' ''e'' (demo_world [] [''/v'']) = Some Map.empty"
    by (simp add: scope_map_def get_file_def demo_world_def)
  with run vars_store_refines [of demo_vars "''/v''" False "''t''" "''p''" "''e''" "''k''" "''1''" "''h''" "demo_world [] [''/v'']"]
  show ?thesis by fastforce
qed

lemma Get_fault_free:
  assumes "fault_free w" "clean (scopePath base p e) \<notin> set (w_dirs w)" "scope_map c base p e w = Some m" "\<not> reserved key"
    "get_file w (scopePath base p e) \<noteq> None"
  shows "fst (vars_Get c base False p e key w) = (case m key of None \<Rightarrow> Inl KeyNotFound | Some v \<Rightarrow> Inr v)"
  using assms
  by (auto simp: vars_Get_def readScope_def ReadFile_ff_cases scope_map_def split: option.splits)

text \<open>
  Read after write: After a successful \<open>Set\<close> a fault-free \<open>Get\<close> of the key gives the value, and every other key that
  is not reserved reads as the map before had it, provided the codec reads back the map it has written (JSON
  does, for valid UTF-8).
\<close>

theorem vars_read_after_write:
  assumes "vars_Set c base x now p e key v caller w = (None, w')" "scope_map c base p e w = Some m" "fault_free w'"
    and "clean (scopePath base p e) \<notin> set (w_dirs w')"
    and "\<And>l d. enc_scope c l = Some d \<Longrightarrow> map_of l = stamped now caller (m(key \<mapsto> v)) \<Longrightarrow>
      \<exists>l'. dec_scope c d = Some (Some l') \<and> map_of l' = map_of l"
  shows "fst (vars_Get c base False p e key w') = Inr v \<and>
    (\<forall>k. k \<noteq> key \<and> \<not> reserved k \<longrightarrow>
       fst (vars_Get c base False p e k w') = (case m k of None \<Rightarrow> Inl KeyNotFound | Some u \<Rightarrow> Inr u))"
proof -
  from Set_cases [OF assms(1)] assms(2) have k: "\<not> reserved key"
    and st: "stored c base p e (stamped now caller (m(key \<mapsto> v))) w'" by auto
  from st obtain f l where f: "get_file w' (scopePath base p e) = Some f" "enc_scope c l = Some (f_data f)"
    "map_of l = stamped now caller (m(key \<mapsto> v))" by (auto simp: stored_def)
  with assms(5) obtain l' where "dec_scope c (f_data f) = Some (Some l')" "map_of l' = stamped now caller (m(key \<mapsto> v))"
    by metis
  with f have sm: "scope_map c base p e w' = Some (stamped now caller (m(key \<mapsto> v)))" by (simp add: scope_map_def)
  have get: "fst (vars_Get c base False p e k w') = (case (m(key \<mapsto> v)) k of None \<Rightarrow> Inl KeyNotFound | Some u \<Rightarrow> Inr u)"
    if "\<not> reserved k" for k
  proof -
    have "k \<noteq> ''_meta.updated_at''" "k \<noteq> ''_meta.updated_by''" using that by (auto simp: reserved_def has_prefix_def)
    then show ?thesis using Get_fault_free [OF assms(3,4) sm that] f by (simp add: stamped_def)
  qed
  from get [OF k] get show ?thesis by simp
qed

theorem vars_read_after_write_witness:
  "\<exists>w'. vars_Set demo_vars ''/v'' False ''t'' ''p'' ''e'' ''k'' ''1'' ''h'' (demo_world [] [''/v'']) = (None, w') \<and>
     fst (vars_Get demo_vars ''/v'' False ''p'' ''e'' ''k'' w') = Inr ''1'' \<and>
     fst (vars_Get demo_vars ''/v'' False ''p'' ''e'' ''j'' w') = Inl KeyNotFound"
proof -
  obtain w' where run: "vars_Set demo_vars ''/v'' False ''t'' ''p'' ''e'' ''k'' ''1'' ''h'' (demo_world [] [''/v'']) = (None, w')"
    and w': "fault_free w'" "clean (scopePath ''/v'' ''p'' ''e'') \<notin> set (w_dirs w')" by (rule demo_set)
  have m: "scope_map demo_vars ''/v'' ''p'' ''e'' (demo_world [] [''/v'']) = Some Map.empty"
    by (simp add: scope_map_def get_file_def demo_world_def)
  have "\<not> reserved ''j''" by code_simp
  then show ?thesis
    using vars_read_after_write [OF run m w'] run
    by (fastforce simp: demo_vars_def stamped_def fun_eq_iff)
qed

section \<open>The rendered environment\<close>

text \<open>
  How a POSIX shell reads the text back: an assignment's name, then words of single-quoted and escaped parts
  up to the end of the line. Only the syntax the renderer can produce is covered; anything else is rejected.
\<close>

fun sh_value :: "bool \<Rightarrow> string \<Rightarrow> (string \<times> string) option" where
  "sh_value quoted [] = None"
| "sh_value True (ch # s) =
     (if ch = quote then sh_value False s else map_option (\<lambda>(v, rest). (ch # v, rest)) (sh_value True s))"
| "sh_value False (ch # s) =
     (if ch = CHR 0x0A then Some ([], s)
      else if ch = quote then sh_value True s
      else if ch = backslash then (case s of [] \<Rightarrow> None | d # s' \<Rightarrow> map_option (\<lambda>(v, rest). (d # v, rest)) (sh_value False s'))
      else if is_letter ch \<or> is_digit ch then map_option (\<lambda>(v, rest). (ch # v, rest)) (sh_value False s)
      else None)"

lemma sh_value_length: "sh_value q s = Some (v, rest) \<Longrightarrow> length rest < length s"
  by (induction q s arbitrary: v rest rule: sh_value.induct) (fastforce split: if_splits list.splits)+

definition sh_name :: "string \<Rightarrow> bool" where
  "sh_name k = (case k of [] \<Rightarrow> False
     | ch # s \<Rightarrow> (is_letter ch \<or> ch = CHR ''_'') \<and> list_all (\<lambda>x. is_letter x \<or> is_digit x \<or> x = CHR ''_'') s)"

function sh_env :: "string \<Rightarrow> (string \<times> string) list option" where
  "sh_env s =
     (if s = [] then Some []
      else (case cut_at (CHR ''='') s of
              (name, t, found) \<Rightarrow>
                if \<not> found \<or> \<not> sh_name name then None
                else (case sh_value False t of
                        None \<Rightarrow> None
                      | Some (v, rest) \<Rightarrow> if length rest < length s then map_option (\<lambda>as. (name, v) # as) (sh_env rest) else None)))"
  by pat_completeness auto
termination by (relation "measure length") auto

declare sh_env.simps [simp del]

lemma sh_quoted:
  "sh_value True (concat (map (\<lambda>ch. if ch = quote then [quote, backslash, quote, quote] else [ch]) s) @ quote # CHR 0x0A # rest) = Some (s, rest)"
  by (induction s) (auto simp: quote_def backslash_def)

lemma sh_shellQuote: "sh_value False (shellQuote s @ CHR 0x0A # rest) = Some (s, rest)"
  using sh_quoted [of s rest] by (simp add: shellQuote_def quote_def backslash_def)

lemma sh_name_no_eq: "sh_name k \<Longrightarrow> CHR ''='' \<notin> set k"
  by (auto simp: sh_name_def is_letter_def is_digit_def is_lower_def is_upper_def list_all_iff split: list.splits)

lemma cut_found: "c \<notin> set k \<Longrightarrow> cut_at c (k @ c # t) = (k, t, True)"
  by (induction k) (auto simp: cut_at_def split: if_splits)

lemma sh_env_line: "sh_name k \<Longrightarrow> sh_env (env_line k v @ rest) = map_option (\<lambda>as. (k, v) # as) (sh_env rest)"
proof -
  assume k: "sh_name k"
  have "cut_at (CHR ''='') (env_line k v @ rest) = (k, shellQuote v @ CHR 0x0A # rest, True)"
    using sh_name_no_eq [OF k] by (simp add: env_line_def cut_found)
  then show ?thesis using k sh_shellQuote by (subst sh_env.simps) (simp add: env_line_def)
qed

lemma sh_env_lines: "\<forall>k \<in> set ks. sh_name k \<Longrightarrow> sh_env (concat (map (\<lambda>k. env_line k (f k)) ks)) = Some (map (\<lambda>k. (k, f k)) ks)"
  by (induction ks) (simp_all add: sh_env_line, simp add: sh_env.simps)



text \<open>A key the store accepts need not be a shell name: its line is not an assignment.\<close>

lemma render_dotted_key: "keyPattern ''a.b'' \<and> sh_env (render_vars [(''a.b'', v)]) = None"
proof -
  have "cut_at (CHR ''='') (env_line ''a.b'' v) = (''a.b'', shellQuote v @ [CHR 0x0A], True)"
    by (simp add: env_line_def cut_at_def)
  moreover have "\<not> sh_name ''a.b''" "keyPattern ''a.b''" by code_simp+
  ultimately show ?thesis by (simp add: render_vars_def sh_env.simps env_line_def)
qed

section \<open>The endpoints\<close>

datatype vars_body = VarScopes "var_scope list" | VarsConfigured vars_config | VarMap scope_data

type_synonym vars_reply = "(vars_body, vars_error) response"

text \<open>What a handler gets besides the request: the time as text, and whether its context is cancelled.\<close>

record vars_call =
  vq_Request :: request
  vq_Now :: string
  vq_Cancelled :: bool

definition vars_disabled :: vars_reply where
  "vars_disabled = WriteError 503 ''vars integration not configured on this node'' ''create /etc/tailkitd/integrations/vars.toml to enable''"

definition handleScopes :: "vars_config \<Rightarrow> request \<Rightarrow> vars_reply" where
  "handleScopes cfg r =
     (if \<not> vc_Enabled cfg then vars_disabled
      else if Method r \<noteq> ''GET'' then bad_method ''use GET''
      else WriteJSON 200 (VarScopes (map (\<lambda>s. \<lparr>vs_Project = vs_Project s, vs_Env = vs_Env s, vs_Allow = vs_Allow s\<rparr>) (vc_Scopes cfg))))"

definition handleList :: "vars_codec \<Rightarrow> string \<Rightarrow> vars_call \<Rightarrow> string \<Rightarrow> string \<Rightarrow> world \<Rightarrow> vars_reply \<times> world" where
  "handleList c base q project env w =
     (case vars_List c base (vq_Cancelled q) project env w of
        (Inl e, w1) \<Rightarrow> (if e = ScopeNotFound then WriteJSON 200 (VarMap []) else WriteError 500 ''failed to read vars'' [], w1)
      | (Inr vars, w1) \<Rightarrow> (WriteJSON 200 (VarMap vars), w1))"

definition handleEnv :: "vars_codec \<Rightarrow> string \<Rightarrow> vars_call \<Rightarrow> string \<Rightarrow> string \<Rightarrow> world \<Rightarrow> vars_reply \<times> world" where
  "handleEnv c base q project env w =
     (case RenderEnv c base (vq_Cancelled q) project env w of
        (Inl e, w1) \<Rightarrow> (if e = ScopeNotFound then WriteRaw ''text/plain'' [] else WriteError 500 ''failed to render env'' [], w1)
      | (Inr t, w1) \<Rightarrow> (WriteRaw ''text/plain'' t, w1))"

definition handleGet :: "vars_codec \<Rightarrow> string \<Rightarrow> vars_call \<Rightarrow> string \<Rightarrow> string \<Rightarrow> string \<Rightarrow> world \<Rightarrow> vars_reply \<times> world" where
  "handleGet c base q project env key w =
     (case vars_Get c base (vq_Cancelled q) project env key w of
        (Inl e, w1) \<Rightarrow>
          (if e = KeyNotFound then WriteError 404 ''key not found'' []
           else if e = ScopeNotFound then WriteError 404 ''scope not found or empty'' []
           else if e = ReservedKey then WriteErrorE 400 [] e
           else WriteError 500 ''failed to get var'' [], w1)
      | (Inr val, w1) \<Rightarrow> (WriteJSON 200 (VarMap [(''key'', key), (''value'', val)]), w1))"

text \<open>The reader refuses a body as soon as it has seen a mebibyte of it.\<close>

definition readBody :: "request \<Rightarrow> int \<Rightarrow> string option" where
  "readBody r limit = (if int (length (Body r)) \<ge> limit then None else Some (Body r))"

text \<open>A panic ends the request without an answer, the reply \<open>None\<close>.\<close>

definition handleSet :: "vars_codec \<Rightarrow> string \<Rightarrow> vars_call \<Rightarrow> string \<Rightarrow> string \<Rightarrow> string \<Rightarrow> string \<Rightarrow> world \<Rightarrow> vars_reply option \<times> world" where
  "handleSet c base q project env key caller w =
     (case readBody (vq_Request q) 1048576 of
        None \<Rightarrow> (Some (WriteError 400 ''failed to read request body: request body too large (max 1 MiB)'' []), w)
      | Some body \<Rightarrow>
          (case vars_Set c base (vq_Cancelled q) (vq_Now q) project env key (trim_right_by (\<lambda>ch. ch = CHR 0x0A) body) caller w of
             (Some e, w1) \<Rightarrow>
               (if e = NilMapPanic then None
                else Some (case e of
                    ReservedKey \<Rightarrow> WriteErrorE 400 [] e
                  | InvalidKey _ \<Rightarrow> WriteErrorE 400 [] e
                  | _ \<Rightarrow> WriteError 500 ''failed to set var'' []), w1)
           | (None, w1) \<Rightarrow> (Some (WriteJSON 200 (VarMap [(''key'', key), (''status'', ''ok'')])), w1)))"

definition handleDelete :: "vars_codec \<Rightarrow> string \<Rightarrow> vars_call \<Rightarrow> string \<Rightarrow> string \<Rightarrow> string \<Rightarrow> string \<Rightarrow> world \<Rightarrow> vars_reply option \<times> world" where
  "handleDelete c base q project env key caller w =
     (case vars_Delete c base (vq_Cancelled q) (vq_Now q) project env key caller w of
        (Some e, w1) \<Rightarrow>
          (if e = NilMapPanic then None
           else Some (if e = ReservedKey then WriteErrorE 400 [] e else WriteError 500 ''failed to delete var'' []), w1)
      | (None, w1) \<Rightarrow> (Some (WriteHeader 204), w1))"

definition findScope :: "vars_config \<Rightarrow> string \<Rightarrow> string \<Rightarrow> var_scope option" where
  "findScope cfg project env = List.find (\<lambda>s. vs_Project s = project \<and> vs_Env s = env) (vc_Scopes cfg)"

definition routeScope :: "vars_codec \<Rightarrow> string \<Rightarrow> vars_call \<Rightarrow> string \<Rightarrow> string \<Rightarrow> var_scope \<Rightarrow> world \<Rightarrow> vars_reply \<times> world" where
  "routeScope c base q project env scope w =
     (let r = vq_Request q in
      if Method r = ''GET'' then
        (if ''read'' \<notin> set (vs_Allow scope) then (WriteError 403 ''read not permitted for this scope'' [], w)
         else if Query r ''format'' = ''env'' then handleEnv c base q project env w
         else handleList c base q project env w)
      else if Method r = ''DELETE'' then
        (if ''write'' \<notin> set (vs_Allow scope) then (WriteError 403 ''write not permitted for this scope'' [], w)
         else (case DeleteScope base (vq_Cancelled q) project env w of
                 (Some _, w1) \<Rightarrow> (WriteError 500 ''failed to delete scope'' [], w1)
               | (None, w1) \<Rightarrow> (WriteHeader 204, w1)))
      else (bad_method ''use GET or DELETE'', w))"

definition routeKey :: "vars_codec \<Rightarrow> string \<Rightarrow> vars_call \<Rightarrow> string \<Rightarrow> string \<Rightarrow> string \<Rightarrow> var_scope \<Rightarrow> string \<Rightarrow> world \<Rightarrow> vars_reply option \<times> world" where
  "routeKey c base q project env key scope caller w =
     (let r = vq_Request q in
      if Method r = ''GET'' then
        (if ''read'' \<notin> set (vs_Allow scope) then (Some (WriteError 403 ''read not permitted for this scope'' []), w)
         else (case handleGet c base q project env key w of (resp, w1) \<Rightarrow> (Some resp, w1)))
      else if Method r = ''PUT'' then
        (if ''write'' \<notin> set (vs_Allow scope) then (Some (WriteError 403 ''write not permitted for this scope'' []), w)
         else handleSet c base q project env key caller w)
      else if Method r = ''DELETE'' then
        (if ''write'' \<notin> set (vs_Allow scope) then (Some (WriteError 403 ''write not permitted for this scope'' []), w)
         else handleDelete c base q project env key caller w)
      else (Some (bad_method ''use GET, PUT, or DELETE''), w))"

text \<open>
  The project, the environment and the key a path names; the key is empty where there is none. (The
  code's message for a bad path has a dash where the model has a colon.)
\<close>

definition vars_target :: "request \<Rightarrow> (string \<times> string \<times> string) option" where
  "vars_target r =
     (case split_n 3 slash (trim_prefix (Path r) ''/vars/'') of
        project # env # rest \<Rightarrow>
          (if project = [] \<or> env = [] then None else Some (project, env, case rest of [] \<Rightarrow> [] | key # _ \<Rightarrow> key))
      | _ \<Rightarrow> None)"

definition vars_route :: "vars_config \<Rightarrow> vars_codec \<Rightarrow> string \<Rightarrow> vars_call \<Rightarrow> world \<Rightarrow> vars_reply option \<times> world" where
  "vars_route cfg c base q w =
     (let r = vq_Request q in
      if \<not> vc_Enabled cfg then (Some vars_disabled, w)
      else (case vars_target r of
              None \<Rightarrow> (Some (WriteError 400 ''invalid path: expected /vars/{project}/{env}[/{key}]'' []), w)
            | Some (project, env, key) \<Rightarrow>
                (case findScope cfg project env of
                   None \<Rightarrow> (Some (WriteError 404 ''scope not configured on this node'' ''add a [[scope]] entry in vars.toml''), w)
                 | Some scope \<Rightarrow>
                     (let caller = (case Caller r of None \<Rightarrow> [] | Some k \<Rightarrow> Hostname k) in
                      if key \<noteq> [] then routeKey c base q project env key scope caller w
                      else (case routeScope c base q project env scope w of (resp, w1) \<Rightarrow> (Some resp, w1))))))"

section \<open>The configuration gates the endpoints\<close>

definition vars_refused :: "vars_reply option \<Rightarrow> bool" where
  "vars_refused a = (case a of None \<Rightarrow> True | Some resp \<Rightarrow> 400 \<le> status resp)"

text \<open>The operation a method needs on its scope.\<close>

definition vars_op :: "string \<Rightarrow> string" where
  "vars_op m = (if m = ''GET'' then ''read'' else ''write'')"

definition vars_permitted :: "vars_config \<Rightarrow> vars_call \<Rightarrow> bool" where
  "vars_permitted cfg q \<longleftrightarrow> vc_Enabled cfg \<and> Method (vq_Request q) \<in> {''GET'', ''PUT'', ''DELETE''} \<and>
     (\<exists>project env key. vars_target (vq_Request q) = Some (project, env, key) \<and>
       list_ex (\<lambda>s. vs_Project s = project \<and> vs_Env s = env \<and> vars_op (Method (vq_Request q)) \<in> set (vs_Allow s)) (vc_Scopes cfg))"

lemma findScope_permitted:
  assumes "\<not> vars_permitted cfg q" "vc_Enabled cfg" "vars_target (vq_Request q) = Some (project, env, key)"
    "findScope cfg project env = Some scope" "Method (vq_Request q) \<in> {''GET'', ''PUT'', ''DELETE''}"
  shows "vars_op (Method (vq_Request q)) \<notin> set (vs_Allow scope)"
proof -
  have "scope \<in> set (vc_Scopes cfg)" "vs_Project scope = project" "vs_Env scope = env"
    using find_Some_in [OF assms(4) [unfolded findScope_def]] by auto
  then show ?thesis using assms(1,2,3,5) by (auto simp: vars_permitted_def list_ex_iff)
qed

lemma vars_denied:
  assumes "\<not> vars_permitted cfg q"
  shows "\<exists>resp. vars_route cfg c base q w = (Some resp, w) \<and> 400 \<le> status resp"
proof (cases "vc_Enabled cfg")
  case False then show ?thesis by (simp add: vars_route_def vars_disabled_def)
next
  case on: True
  show ?thesis
  proof (cases "vars_target (vq_Request q)")
    case None with on show ?thesis by (simp add: vars_route_def)
  next
    case (Some t)
    obtain project env key where t: "t = (project, env, key)" by (cases t)
    show ?thesis
    proof (cases "findScope cfg project env")
      case None with on Some t show ?thesis by (simp add: vars_route_def)
    next
      case scope: (Some scope)
      have "vars_op (Method (vq_Request q)) \<notin> set (vs_Allow scope)" if "Method (vq_Request q) \<in> {''GET'', ''PUT'', ''DELETE''}"
        using findScope_permitted [OF assms on Some [unfolded t] scope that] .
      then show ?thesis
        using on Some t scope
        by (auto simp: vars_route_def routeKey_def routeScope_def vars_op_def Let_def)
    qed
  qed
qed

interpretation vars_gate: gated "vars_route cfg c base" vars_refused "vars_permitted cfg" for cfg c base
proof
  fix q w assume "\<not> vars_permitted cfg q"
  then obtain resp where "vars_route cfg c base q w = (Some resp, w)" "400 \<le> status resp" using vars_denied by blast
  then show "snd (vars_route cfg c base q w) = w" "vars_refused (fst (vars_route cfg c base q w))"
    by (simp_all add: vars_refused_def)
qed

lemma projectName_comp: "projectName s \<Longrightarrow> normal_comp s \<and> normal_comp (s @ ''.json'')"
proof -
  assume s: "projectName s"
  have "s \<noteq> ''.'' \<and> s \<noteq> ''..''" using s by (auto simp: projectName_def is_lower_def is_digit_def)
  then show ?thesis
    using s projectName_no_slash [OF s] by (auto simp: normal_comp_def projectName_def append_eq_Cons_conv)
qed

lemma scopePath_child:
  assumes "is_abs base" "clean base \<noteq> ''/''" "projectName project" "projectName env"
  shows "scopePath base project env = clean base @ slash # project @ slash # env @ ''.json''"
    and "clean (scopePath base project env) = scopePath base project env"
proof -
  note comps = projectName_comp [OF assms(3)] projectName_comp [OF assms(4)]
  have base: "base \<noteq> []" using assms(1) by (auto elim: is_absE)
  have d: "clean (base @ slash # project) = clean base @ slash # project" "is_abs (base @ slash # project)"
    using clean_child [OF assms(1)] comps assms(1,2) by (simp_all add: is_abs_append)
  have "project \<noteq> []" using comps(1) by (simp add: normal_comp_def)
  then have "clean (base @ slash # project) \<noteq> ''/''" using d(1) by (cases "clean base") auto
  then have "clean ((base @ slash # project) @ slash # (env @ ''.json'')) = clean base @ slash # project @ slash # env @ ''.json''"
    using clean_child [OF d(2)] comps(2) d(1) by simp
  then show "scopePath base project env = clean base @ slash # project @ slash # env @ ''.json''"
    using base by (simp add: scopePath_def join_path.simps)
  show "clean (scopePath base project env) = scopePath base project env"
    unfolding scopePath_def using join_path_canonical [OF assms(1)] by (rule clean_id)
qed

lemma RenderEnv_files: "RenderEnv c base x p e w = (r, w') \<Longrightarrow> same_files w w'"
  using readScope_files by (fastforce simp: RenderEnv_def vars_List_def split: if_splits prod.splits sum.splits)

lemma read_handlers_files:
  "handleList c base q p e w = (r, w') \<Longrightarrow> same_files w w'"
  "handleEnv c base q p e w = (r, w') \<Longrightarrow> same_files w w'"
  "handleGet c base q p e key w = (r, w') \<Longrightarrow> same_files w w'"
  using readScope_files RenderEnv_files
  by (fastforce simp: handleList_def handleEnv_def handleGet_def vars_List_def vars_Get_def
      split: if_splits prod.splits sum.splits option.splits)+

lemma write_handlers_files:
  "handleSet c base q p e key k w = (r, w') \<Longrightarrow> only_scope base p e w w'"
  "handleDelete c base q p e key k w = (r, w') \<Longrightarrow> only_scope base p e w w'"
proof -
  assume "handleSet c base q p e key k w = (r, w')"
  moreover obtain x w1 where "vars_Set c base (vq_Cancelled q) (vq_Now q) p e key
      (trim_right_by (\<lambda>ch. ch = CHR 0x0A) (Body (vq_Request q))) k w = (x, w1)" by fastforce
  moreover note Set_cases [OF this]
  ultimately have "(w' = w \<or> w' = w1) \<and> only_scope base p e w w1"
    using keeps_files_only by (cases x) (auto simp: handleSet_def readBody_def split: if_splits)
  then show "only_scope base p e w w'" by (auto simp: only_scope_def)
next
  assume "handleDelete c base q p e key k w = (r, w')"
  moreover obtain x w1 where "vars_Delete c base (vq_Cancelled q) (vq_Now q) p e key k w = (x, w1)" by fastforce
  moreover note Delete_cases [OF this]
  ultimately show "only_scope base p e w w'"
    using keeps_files_only by (cases x) (auto simp: handleDelete_def split: if_splits)
qed

lemma vars_route_effect:
  assumes "vars_route cfg c base q w = (a, w')" "get_file w' p \<noteq> get_file w p"
  shows "\<exists>project env key. vars_target (vq_Request q) = Some (project, env, key) \<and>
     Method (vq_Request q) \<in> {''PUT'', ''DELETE''} \<and> clean p = clean (scopePath base project env)"
proof -
  have perm: "vars_permitted cfg q" using vars_gate.effect_permitted [of cfg c base q w] assms by auto
  then obtain project env key where t: "vars_target (vq_Request q) = Some (project, env, key)"
    and m: "Method (vq_Request q) \<in> {''GET'', ''PUT'', ''DELETE''}" by (auto simp: vars_permitted_def)
  obtain scope where scope: "findScope cfg project env = Some scope"
    using assms t by (cases "findScope cfg project env") (auto simp: vars_route_def Let_def split: if_splits)
  have on: "vc_Enabled cfg" using perm by (simp add: vars_permitted_def)
  note run = assms(1) [unfolded vars_route_def Let_def t option.case prod.case scope]
  have "Method (vq_Request q) \<noteq> ''GET''"
  proof
    assume "Method (vq_Request q) = ''GET''"
    with run on have "same_files w w'"
      using read_handlers_files
      by (auto simp: routeKey_def routeScope_def Let_def split: if_splits prod.splits)
    with assms(2) same_files_get show False by metis
  qed
  moreover have "only_scope base project env w w'"
    using run on m calculation write_handlers_files DeleteScope_cases [where c = c] keeps_files_only
    by (auto simp: routeKey_def routeScope_def Let_def only_scope_def split: if_splits prod.splits option.splits)
  ultimately show ?thesis using t m assms(2) by (auto simp: only_scope_def)
qed

text \<open>
  C21 (only configured scopes are written). If a request to the endpoints changes a file then the integration is enabled, the
  request is a \<open>PUT\<close> or a \<open>DELETE\<close>, and the file is that of a scope configured with \<open>write\<close>: directly under the
  project's directory below the store's base, with no path of the request able to lead elsewhere.
\<close>

theorem vars_write_gate:
  assumes "vars_route cfg c base q w = (a, w')" "get_file w' p \<noteq> get_file w p"
    and "vars_valid cfg" "is_abs base" "clean base \<noteq> ''/''"
  shows "vc_Enabled cfg \<and> Method (vq_Request q) \<in> {''PUT'', ''DELETE''} \<and>
    (\<exists>s \<in> set (vc_Scopes cfg). ''write'' \<in> set (vs_Allow s) \<and>
       clean p = clean base @ slash # vs_Project s @ slash # vs_Env s @ ''.json'')"
proof -
  obtain project env key where t: "vars_target (vq_Request q) = Some (project, env, key)"
    and m: "Method (vq_Request q) \<in> {''PUT'', ''DELETE''}" and p: "clean p = clean (scopePath base project env)"
    using vars_route_effect [OF assms(1,2)] by blast
  have "vars_permitted cfg q" using vars_gate.effect_permitted [of cfg c base q w] assms(1,2) by auto
  with t m obtain s where s: "vc_Enabled cfg" "s \<in> set (vc_Scopes cfg)" "vs_Project s = project" "vs_Env s = env"
    "''write'' \<in> set (vs_Allow s)" by (auto simp: vars_permitted_def vars_op_def list_ex_iff)
  with assms(3) have "projectName project" "projectName env" by (auto simp: vars_valid_def list_all_iff scope_ok_def)
  with p s m scopePath_child [OF assms(4,5)] show ?thesis by auto
qed

definition demo_vars_config :: vars_config where
  "demo_vars_config = \<lparr>vc_Enabled = True, vc_Scopes = [\<lparr>vs_Project = ''p'', vs_Env = ''e'', vs_Allow = [''read'', ''write'']\<rparr>]\<rparr>"

definition demo_vars_call :: vars_call where
  "demo_vars_call = \<lparr>vq_Request = \<lparr>Method = ''PUT'', Path = ''/vars/p/e/k'', Header = (\<lambda>_. []), Query = (\<lambda>_. []), Body = ''1'', Caller = None\<rparr>,
     vq_Now = ''t'', vq_Cancelled = False\<rparr>"

theorem vars_write_gate_witness:
  "\<exists>a w'. vars_route demo_vars_config demo_vars ''/v'' demo_vars_call (demo_world [] [''/v'']) = (a, w') \<and>
     get_file w' ''/v/p/e.json'' \<noteq> None \<and>
     (\<exists>s \<in> set (vc_Scopes demo_vars_config). clean ''/v/p/e.json'' = clean ''/v'' @ slash # vs_Project s @ slash # vs_Env s @ ''.json'')"
proof -
  let ?run = "vars_route demo_vars_config demo_vars ''/v'' demo_vars_call (demo_world [] [''/v''])"
  obtain a w' where run: "?run = (a, w')" by fastforce
  have "case get_file (snd ?run) ''/v/p/e.json'' of None \<Rightarrow> False | Some f \<Rightarrow> True" by code_simp
  with run have new: "get_file w' ''/v/p/e.json'' \<noteq> None" by (cases "get_file w' ''/v/p/e.json''") simp_all
  have old: "get_file (demo_world [] [''/v'']) ''/v/p/e.json'' = None" by (simp add: get_file_def demo_world_def)
  have ok: "vars_valid demo_vars_config" "is_abs ''/v''" "clean ''/v'' \<noteq> ''/''" by code_simp+
  have "get_file w' ''/v/p/e.json'' \<noteq> get_file (demo_world [] [''/v'']) ''/v/p/e.json''" using new old by simp
  from vars_write_gate [OF run this ok] new run show ?thesis by blast
qed

end
