(* ===== verification/Files.thy ===== *)
theory Files
  imports Config Replace AdminBootstrap
begin

text \<open>
  The file endpoints and the inbox (\<^verbatim>\<open>internal/files/handlers.go\<close>). What is not under the repository is a parameter in
  \<open>files_env\<close>: the rule match and the permission test of the configuration type, SHA-256, the
  answers of the operating system to a stat and to the two identity changes. An identity change happens on
  a thread of its own that ends afterwards, so it has no effect but its success or failure; the
  permission bits a dropped identity meets are part of the fault plan. A request's body arrives whole.
\<close>

record file_info =
  fi_Size :: int
  fi_IsDir :: bool
  fi_ModTime :: int
  fi_Mode :: string

record files_env =
  MatchPathRule :: "files_config \<Rightarrow> string \<Rightarrow> (path_rule \<times> string) option"
  rule_Permits :: "path_rule \<Rightarrow> string \<Rightarrow> bool"
  setgid_ok :: "int \<Rightarrow> bool"
  setuid_ok :: "int \<Rightarrow> bool"
  stat_info :: "string \<Rightarrow> world \<Rightarrow> file_info"
  entry_info :: "string \<Rightarrow> string \<Rightarrow> world \<Rightarrow> file_info option"
  file_sha256 :: "string \<Rightarrow> 8 word list"

record dir_entry =
  de_Name :: string
  de_Size :: int
  de_IsDir :: bool
  de_ModTime :: int
  de_Mode :: string

datatype files_error = FilesIO io_error | SetGid int | SetUid int | AbsolutePath string | EscapesInbox string

datatype files_body = FilesConfigured files_config | SendResult string int | FileContent string
  | FileStat dir_entry string | DirEntries "dir_entry list"

type_synonym files_reply = "(files_body, files_error) response"

definition recvBase :: string where "recvBase = ''/var/lib/tailkitd/recv''"

section \<open>Writing and reading under an identity\<close>

definition files_io :: "'a io \<Rightarrow> world \<Rightarrow> (files_error + 'a) \<times> world" where
  "files_io m w = (case m w of (Inl x, w1) \<Rightarrow> (Inl (FilesIO x), w1) | (Inr a, w1) \<Rightarrow> (Inr a, w1))"

text \<open>The thread of the \<open>...As\<close> functions: group first, then user, then the work.\<close>

definition as_identity :: "files_env \<Rightarrow> resolved_identity \<Rightarrow> (world \<Rightarrow> (files_error + 'a) \<times> world) \<Rightarrow> world \<Rightarrow> (files_error + 'a) \<times> world" where
  "as_identity e i m w =
     (if \<not> setgid_ok e (ri_GID i) then (Inl (SetGid (ri_GID i)), w)
      else if \<not> setuid_ok e (ri_UID i) then (Inl (SetUid (ri_UID i)), w)
      else m w)"

definition files_atomicWrite :: "string \<Rightarrow> string \<Rightarrow> world \<Rightarrow> (files_error + int) \<times> world" where
  "files_atomicWrite dest data w =
     (case replace_file (dir_of dest) dest data 420 w of
        (Inl x, w1) \<Rightarrow> (Inl (FilesIO x), w1)
      | (Inr _, w1) \<Rightarrow> (Inr (int (length data)), w1))"

definition atomicWriteAs :: "files_env \<Rightarrow> string \<Rightarrow> string \<Rightarrow> resolved_identity \<Rightarrow> world \<Rightarrow> (files_error + int) \<times> world" where
  "atomicWriteAs e dest data i =
     as_identity e i (\<lambda>w.
       case os_MkdirAll (dir_of dest) w of
         (Inl x, w1) \<Rightarrow> (Inl (FilesIO x), w1)
       | (Inr _, w1) \<Rightarrow> files_atomicWrite dest data w1)"

definition readFile :: "files_env \<Rightarrow> string \<Rightarrow> resolved_identity \<Rightarrow> world \<Rightarrow> (files_error + string) \<times> world" where
  "readFile e path i =
     (if ri_Set i then as_identity e i (files_io (os_ReadFile path)) else files_io (os_ReadFile path))"

definition statFile :: "files_env \<Rightarrow> string \<Rightarrow> resolved_identity \<Rightarrow> world \<Rightarrow> (files_error + file_info) \<times> world" where
  "statFile e path i =
     (let st = (\<lambda>w. case os_Stat path w of (Inl x, w1) \<Rightarrow> (Inl (FilesIO x), w1) | (Inr _, w1) \<Rightarrow> (Inr (stat_info e path w1), w1))
      in if ri_Set i then as_identity e i st else st)"

definition readDir :: "files_env \<Rightarrow> string \<Rightarrow> resolved_identity \<Rightarrow> world \<Rightarrow> (files_error + (string \<times> bool) list) \<times> world" where
  "readDir e path i =
     (if ri_Set i then as_identity e i (files_io (os_ReadDir path)) else files_io (os_ReadDir path))"

text \<open>The last element of a cleaned path, the name of a stat result.\<close>

definition base_name :: "string \<Rightarrow> string" where
  "base_name p = (if p = ''/'' then p else rev (takeWhile (\<lambda>ch. ch \<noteq> slash) (rev p)))"

definition readFileStat :: "files_env \<Rightarrow> string \<Rightarrow> string \<Rightarrow> resolved_identity \<Rightarrow> world \<Rightarrow> (files_error + (dir_entry \<times> string)) \<times> world" where
  "readFileStat e data path i w =
     (case statFile e path i w of
        (Inl x, w1) \<Rightarrow> (Inl x, w1)
      | (Inr info, w1) \<Rightarrow>
          (Inr (\<lparr>de_Name = base_name path, de_Size = fi_Size info, de_IsDir = fi_IsDir info, de_ModTime = fi_ModTime info,
                 de_Mode = fi_Mode info\<rparr>, hex_encode (file_sha256 e data)), w1))"

text \<open>Entries whose information cannot be read (they have gone) are skipped.\<close>

definition list_entries :: "files_env \<Rightarrow> string \<Rightarrow> (string \<times> bool) list \<Rightarrow> world \<Rightarrow> dir_entry list" where
  "list_entries e d es w =
     List.map_filter (\<lambda>(n, isdir).
       case entry_info e d n w of
         None \<Rightarrow> None
       | Some info \<Rightarrow> Some \<lparr>de_Name = n, de_Size = fi_Size info, de_IsDir = isdir, de_ModTime = fi_ModTime info, de_Mode = fi_Mode info\<rparr>) es"

section \<open>POST /files\<close>

definition inbox_dest :: "string \<Rightarrow> string \<Rightarrow> string" where
  "inbox_dest tool filename = join_path [join_path [recvBase, tool], filename]"

definition write_inbox :: "request \<Rightarrow> world \<Rightarrow> files_reply \<times> world" where
  "write_inbox r w =
     (let tool = Header r ''X-Tool''; filename = Header r ''X-Filename'' in
      if tool = [] then (WriteError 400 ''X-Dest-Path or X-Tool header is required'' [], w)
      else if filename = [] then (WriteError 400 ''X-Filename header is required when X-Tool is used without X-Dest-Path'' [], w)
      else
        (let dest = inbox_dest tool filename in
         if \<not> has_prefix (clean dest) recvBase then (WriteError 400 ''path traversal detected'' [], w)
         else (case os_MkdirAll (dir_of dest) w of
                 (Inl _, w1) \<Rightarrow> (WriteError 500 ''failed to create recv directory'' [], w1)
               | (Inr _, w1) \<Rightarrow>
                   (case files_atomicWrite dest (Body r) w1 of
                      (Inl x, w2) \<Rightarrow> (WriteErrorE 500 ''write failed: '' x, w2)
                    | (Inr n, w2) \<Rightarrow> (WriteJSON 200 (SendResult dest n), w2)))))"

text \<open>The traversal check of an explicit path: a prefix test against the allowed directory without its slash.\<close>

definition within :: "string \<Rightarrow> string \<Rightarrow> bool" where
  "within dir path \<longleftrightarrow> has_prefix (clean path) (trim_suffix dir ''/'')"

definition handleWrite :: "files_env \<Rightarrow> files_config \<Rightarrow> request \<Rightarrow> world \<Rightarrow> files_reply \<times> world" where
  "handleWrite e cfg r w =
     (let destPath = Header r ''X-Dest-Path'' in
      if destPath = [] then write_inbox r w
      else (case MatchPathRule e cfg destPath of
              None \<Rightarrow> (WriteError 403 ''no write rule configured for this path'' ''add a matching entry in files.toml'', w)
            | Some (rule, allowedDir) \<Rightarrow>
                if \<not> rule_Permits e rule ''write''
                then (WriteError 403 ''write permission denied for this path'' ''add write to the allow list in files.toml'', w)
                else if \<not> within allowedDir destPath then (WriteError 400 ''path traversal detected'' [], w)
                else (case atomicWriteAs e (clean destPath) (Body r) (ru_UseAs rule) w of
                        (Inl x, w1) \<Rightarrow> (WriteErrorE 500 ''write failed: '' x, w1)
                      | (Inr n, w1) \<Rightarrow> (WriteJSON 200 (SendResult (clean destPath) n), w1))))"

section \<open>GET /files\<close>

definition send_content :: "request \<Rightarrow> string \<Rightarrow> files_reply" where
  "send_content r data =
     (if Header r ''Accept'' = ''application/octet-stream'' then WriteRaw ''application/octet-stream'' data
      else WriteJSON 200 (FileContent data))"

definition not_exist :: "files_error \<Rightarrow> bool" where
  "not_exist x \<longleftrightarrow> x = FilesIO ENOENT"

definition handleReadFile :: "files_env \<Rightarrow> files_config \<Rightarrow> request \<Rightarrow> string \<Rightarrow> world \<Rightarrow> files_reply \<times> world" where
  "handleReadFile e cfg r path w =
     (case MatchPathRule e cfg path of
        None \<Rightarrow> (WriteError 403 ''no read rule configured for this path'' ''add a matching entry in files.toml'', w)
      | Some (rule, allowedDir) \<Rightarrow>
          if \<not> rule_Permits e rule ''read''
          then (WriteError 403 ''read permission denied for this path'' ''add read to the allow list in files.toml'', w)
          else if \<not> within allowedDir path then (WriteError 400 ''path traversal detected'' [], w)
          else (case readFile e (clean path) (ru_UseAs rule) w of
                  (Inl x, w1) \<Rightarrow> (if not_exist x then WriteError 404 ''file not found'' [] else WriteErrorE 500 ''read failed: '' x, w1)
                | (Inr data, w1) \<Rightarrow>
                    if Query r ''stat'' = ''true''
                    then (case readFileStat e data (clean path) (ru_UseAs rule) w1 of
                            (Inl x, w2) \<Rightarrow> (WriteErrorE 500 ''read failed: '' x, w2)
                          | (Inr (entry, digest), w2) \<Rightarrow> (WriteJSON 200 (FileStat entry digest), w2))
                    else (send_content r data, w1)))"

definition handleListDir :: "files_env \<Rightarrow> files_config \<Rightarrow> string \<Rightarrow> world \<Rightarrow> files_reply \<times> world" where
  "handleListDir e cfg dir w =
     (case MatchPathRule e cfg dir of
        None \<Rightarrow> (WriteError 403 ''no read rule configured for this path'' ''add a matching entry in files.toml'', w)
      | Some (rule, allowedDir) \<Rightarrow>
          if \<not> rule_Permits e rule ''read''
          then (WriteError 403 ''read permission denied for this path'' ''add read to the allow list in files.toml'', w)
          else if \<not> within allowedDir dir then (WriteError 400 ''path traversal detected'' [], w)
          else (case readDir e (clean dir) (ru_UseAs rule) w of
                  (Inl x, w1) \<Rightarrow> (if not_exist x then WriteError 404 ''directory not found'' [] else WriteErrorE 500 ''list failed: '' x, w1)
                | (Inr es, w1) \<Rightarrow> (WriteJSON 200 (DirEntries (list_entries e (clean dir) es w1)), w1)))"

definition handleRead :: "files_env \<Rightarrow> files_config \<Rightarrow> request \<Rightarrow> world \<Rightarrow> files_reply \<times> world" where
  "handleRead e cfg r w =
     (if Query r ''path'' \<noteq> [] then handleReadFile e cfg r (Query r ''path'') w
      else if Query r ''dir'' \<noteq> [] then handleListDir e cfg (Query r ''dir'') w
      else (WriteError 400 ''missing query parameter'' ''use ?path=/absolute/file or ?dir=/absolute/dir/'', w))"

definition files_disabled :: files_reply where
  "files_disabled = WriteError 503 ''files integration not configured on this node'' ''create /etc/tailkitd/integrations/files.toml to enable''"

definition FilesHandler :: "files_env \<Rightarrow> files_config \<Rightarrow> request \<Rightarrow> world \<Rightarrow> files_reply \<times> world" where
  "FilesHandler e cfg r w =
     (if \<not> fc_Enabled cfg then (files_disabled, w)
      else if Method r = ''POST'' then handleWrite e cfg r w
      else if Method r = ''GET'' then handleRead e cfg r w
      else (bad_method ''use GET or POST'', w))"

definition handleFilesConfig :: "files_config \<Rightarrow> files_reply" where
  "handleFilesConfig cfg = WriteJSON 200 (FilesConfigured (cfg\<lparr>fc_Paths := filter ru_Share (fc_Paths cfg)\<rparr>))"

section \<open>The inbox\<close>

definition resolveInboxPath :: "string \<Rightarrow> string \<Rightarrow> files_error + string" where
  "resolveInboxPath toolDir relPath =
     (if is_abs relPath then Inl (AbsolutePath relPath)
      else
        (let c = clean (join_path [toolDir, relPath]) in
         if \<not> has_prefix c (clean toolDir @ ''/'') \<and> c \<noteq> clean toolDir then Inl (EscapesInbox relPath)
         else Inr c))"

definition handleInboxList :: "files_env \<Rightarrow> string \<Rightarrow> world \<Rightarrow> files_reply \<times> world" where
  "handleInboxList e toolDir w =
     (case os_ReadDir toolDir w of
        (Inl x, w1) \<Rightarrow> (if x = ENOENT then WriteJSON 200 (DirEntries []) else WriteError 500 ''list failed'' [], w1)
      | (Inr es, w1) \<Rightarrow> (WriteJSON 200 (DirEntries (list_entries e toolDir es w1)), w1))"

definition handleInboxReadFile :: "request \<Rightarrow> string \<Rightarrow> world \<Rightarrow> files_reply \<times> world" where
  "handleInboxReadFile r toolDir w =
     (if Query r ''path'' = [] then (WriteError 400 ''path query parameter is required'' [], w)
      else (case resolveInboxPath toolDir (Query r ''path'') of
              Inl x \<Rightarrow> (WriteErrorE 400 [] x, w)
            | Inr c \<Rightarrow>
                (case os_ReadFile c w of
                   (Inl x, w1) \<Rightarrow> (if x = ENOENT then WriteError 404 ''file not found'' [] else WriteErrorE 500 ''read failed: '' (FilesIO x), w1)
                 | (Inr data, w1) \<Rightarrow> (send_content r data, w1))))"

definition handleInboxDelete :: "request \<Rightarrow> string \<Rightarrow> world \<Rightarrow> files_reply \<times> world" where
  "handleInboxDelete r toolDir w =
     (if Query r ''path'' = [] then (WriteError 400 ''path query parameter is required'' [], w)
      else (case resolveInboxPath toolDir (Query r ''path'') of
              Inl x \<Rightarrow> (WriteErrorE 400 [] x, w)
            | Inr c \<Rightarrow>
                (case os_Remove c w of
                   (Inl x, w1) \<Rightarrow> (if x = ENOENT then WriteError 404 ''file not found'' [] else WriteError 500 ''delete failed'' [], w1)
                 | (Inr _, w1) \<Rightarrow> (WriteHeader 204, w1))))"

definition serveInbox :: "files_env \<Rightarrow> files_config \<Rightarrow> request \<Rightarrow> world \<Rightarrow> files_reply \<times> world" where
  "serveInbox e cfg r w =
     (if \<not> fc_Enabled cfg then (files_disabled, w)
      else (case cut_at slash (trim_prefix (Path r) ''/inbox/'') of
              (tool, suf, _) \<Rightarrow>
                if tool = [] then (WriteError 400 ''tool name is required'' [], w)
                else
                  (let toolDir = join_path [recvBase, tool] @ ''/'' in
                   if suf = [] \<and> Method r = ''GET'' then handleInboxList e toolDir w
                   else if suf = ''file'' \<and> Method r = ''GET'' then handleInboxReadFile r toolDir w
                   else if suf = ''file'' \<and> Method r = ''DELETE'' then handleInboxDelete r toolDir w
                   else if suf = ''file'' then (bad_method ''use GET or DELETE for /inbox/{tool}/file'', w)
                   else (WriteError 404 (''unknown inbox sub-path '' @ [CHR 0x22] @ suf @ [CHR 0x22]) ''valid: /inbox/{tool} or /inbox/{tool}/file?path='', w))))"

section \<open>What a request can change\<close>

lemma as_identity_cases:
  assumes "as_identity e i m w = (r, w')"
  obtains (refused) x where "r = Inl x" "w' = w" | (run) "m w = (r, w')"
  using assms by (auto simp: as_identity_def split: if_splits)

lemma files_io_quiet: "quiet m \<Longrightarrow> files_io m w = (r, w') \<Longrightarrow> same_files w w'"
  by (auto simp: files_io_def split: prod.splits sum.splits dest: quietD)

lemma read_quiet:
  "readFile e p i w = (r, w') \<Longrightarrow> same_files w w'"
  "readDir e p i w = (r', w') \<Longrightarrow> same_files w w'"
  "statFile e p i w = (r'', w') \<Longrightarrow> same_files w w'"
  using quietD [OF quiet_ops(9)]
  by (fastforce simp: readFile_def readDir_def statFile_def Let_def split: if_splits prod.splits sum.splits
      elim!: as_identity_cases dest: files_io_quiet [OF quiet_ops(8)] files_io_quiet [OF quiet_ReadDir])+

lemma readFileStat_quiet: "readFileStat e d p i w = (r, w') \<Longrightarrow> same_files w w'"
  using read_quiet(3) by (fastforce simp: readFileStat_def split: prod.splits sum.splits)

lemma handleRead_quiet:
  assumes "handleRead e cfg r w = (resp, w')"
  shows "same_files w w'"
proof -
  have fl: "same_files w w'" if run: "handleReadFile e cfg r path w = (resp, w')" for path
  proof (cases "MatchPathRule e cfg path")
    case None with run show ?thesis by (simp add: handleReadFile_def)
  next
    case (Some ra)
    obtain rule dir where ra: "ra = (rule, dir)" by (cases ra)
    obtain x w1 where rd: "readFile e (clean path) (ru_UseAs rule) w = (x, w1)" by fastforce
    note s1 = read_quiet(1) [OF rd]
    obtain y w2 where st: "readFileStat e (case x of Inr d \<Rightarrow> d | Inl _ \<Rightarrow> []) (clean path) (ru_UseAs rule) w1 = (y, w2)" by fastforce
    have "w' = w \<or> w' = w1 \<or> w' = w2"
      using run Some ra rd st by (cases x) (auto simp: handleReadFile_def split: if_splits sum.splits prod.splits)
    with s1 readFileStat_quiet [OF st] same_files_trans show ?thesis by auto
  qed
  have dir: "same_files w w'" if run: "handleListDir e cfg d w = (resp, w')" for d
    using run read_quiet(2) by (fastforce simp: handleListDir_def split: option.splits prod.splits if_splits sum.splits)
  from assms fl dir show ?thesis by (auto simp: handleRead_def split: if_splits)
qed

lemma files_atomicWrite_cases:
  assumes "files_atomicWrite dest data w = (x, w')"
  shows "((\<exists>er. x = Inl er) \<and> same_files w w') \<or> (x = Inr (int (length data)) \<and> wrote dest \<lparr>f_data = data, f_perm = 420\<rparr> w w')"
proof -
  obtain y w1 where rp: "replace_file (dir_of dest) dest data 420 w = (y, w1)" by fastforce
  from replace_cases [OF rp] assms rp show ?thesis by (auto simp: files_atomicWrite_def)
qed

definition stored_at :: "string \<Rightarrow> string \<Rightarrow> world \<Rightarrow> world \<Rightarrow> bool" where
  "stored_at dest data w w' \<longleftrightarrow> (\<forall>q. get_file w' q =
     (if clean q = clean dest then Some \<lparr>f_data = data, f_perm = 420\<rparr> else get_file w q))"

definition unchanged_files :: "world \<Rightarrow> world \<Rightarrow> bool" where
  "unchanged_files w w' \<longleftrightarrow> (\<forall>q. get_file w' q = get_file w q)"

lemma unchanged_same: "same_files w w' \<Longrightarrow> unchanged_files w w'"
  by (simp add: unchanged_files_def same_files_get)

lemma mkdir_then_write:
  assumes "os_MkdirAll d w = (Inr u, w1)" "files_atomicWrite dest data w1 = (x, w')"
  shows "((\<exists>er. x = Inl er) \<and> unchanged_files w w') \<or> (x = Inr (int (length data)) \<and> stored_at dest data w w')"
  using files_atomicWrite_cases [OF assms(2)] MkdirAll_files [OF assms(1)]
  by (auto simp: unchanged_files_def stored_at_def same_files_get wrote_get)

lemma write_inbox_cases:
  assumes "write_inbox r w = (resp, w')"
  shows "(400 \<le> status resp \<and> unchanged_files w w') \<or>
    (resp = WriteJSON 200 (SendResult (inbox_dest (Header r ''X-Tool'') (Header r ''X-Filename'')) (int (length (Body r)))) \<and>
     has_prefix (clean (inbox_dest (Header r ''X-Tool'') (Header r ''X-Filename''))) recvBase \<and>
     stored_at (inbox_dest (Header r ''X-Tool'') (Header r ''X-Filename'')) (Body r) w w')"
proof -
  let ?d = "inbox_dest (Header r ''X-Tool'') (Header r ''X-Filename'')"
  obtain x w1 where mk: "os_MkdirAll (dir_of ?d) w = (x, w1)" by fastforce
  obtain y w2 where wr: "files_atomicWrite ?d (Body r) w1 = (y, w2)" by fastforce
  note same1 = MkdirAll_files [OF mk]
  have "(400 \<le> status resp \<and> (w' = w \<or> w' = w1)) \<or> (\<exists>u. x = Inr u \<and> w' = w2 \<and> has_prefix (clean ?d) recvBase \<and>
      resp = (case y of Inl z \<Rightarrow> WriteErrorE 500 ''write failed: '' z | Inr n \<Rightarrow> WriteJSON 200 (SendResult ?d n)))"
    using assms mk wr by (auto simp: write_inbox_def Let_def split: if_splits sum.splits)
  then show ?thesis
  proof
    assume "400 \<le> status resp \<and> (w' = w \<or> w' = w1)"
    then show ?thesis using same1 by (auto simp: unchanged_files_def)
  next
    assume ok: "\<exists>u. x = Inr u \<and> w' = w2 \<and> has_prefix (clean ?d) recvBase \<and>
      resp = (case y of Inl z \<Rightarrow> WriteErrorE 500 ''write failed: '' z | Inr n \<Rightarrow> WriteJSON 200 (SendResult ?d n))"
    then obtain u where "os_MkdirAll (dir_of ?d) w = (Inr u, w1)" using mk by auto
    from mkdir_then_write [OF this wr] ok show ?thesis by auto
  qed
qed

lemma atomicWriteAs_cases:
  assumes "atomicWriteAs e dest data i w = (x, w')"
  shows "((\<exists>er. x = Inl er) \<and> unchanged_files w w') \<or> (x = Inr (int (length data)) \<and> stored_at dest data w w')"
  using assms unfolding atomicWriteAs_def
proof (cases rule: as_identity_cases)
  case (refused y) then show ?thesis by (simp add: unchanged_files_def)
next
  case run
  obtain y w1 where mk: "os_MkdirAll (dir_of dest) w = (y, w1)" by fastforce
  show ?thesis
  proof (cases y)
    case Inl with run mk MkdirAll_files [OF mk] show ?thesis by (auto simp: unchanged_files_def)
  next
    case (Inr u) with run mk show ?thesis using mkdir_then_write by simp
  qed
qed

lemma handleWrite_cases:
  assumes "handleWrite e cfg r w = (resp, w')"
  shows "(400 \<le> status resp \<and> unchanged_files w w') \<or> (\<exists>dest. resp = WriteJSON 200 (SendResult dest (int (length (Body r)))) \<and>
     stored_at dest (Body r) w w' \<and>
     (if Header r ''X-Dest-Path'' = [] then dest = inbox_dest (Header r ''X-Tool'') (Header r ''X-Filename'') \<and> has_prefix (clean dest) recvBase
      else dest = clean (Header r ''X-Dest-Path'') \<and> (\<exists>rule dir. MatchPathRule e cfg (Header r ''X-Dest-Path'') = Some (rule, dir) \<and>
        rule_Permits e rule ''write'' \<and> within dir (Header r ''X-Dest-Path''))))"
proof (cases "Header r ''X-Dest-Path'' = []")
  case True
  with assms have "write_inbox r w = (resp, w')" by (simp add: handleWrite_def)
  from write_inbox_cases [OF this] True show ?thesis by auto
next
  case False
  show ?thesis
  proof (cases "\<exists>rule dir. MatchPathRule e cfg (Header r ''X-Dest-Path'') = Some (rule, dir) \<and>
      rule_Permits e rule ''write'' \<and> within dir (Header r ''X-Dest-Path'')")
    case no: False
    with assms False show ?thesis
      by (auto simp: handleWrite_def Let_def unchanged_files_def split: option.splits if_splits prod.splits)
  next
    case True
    then obtain rule dir where ok: "MatchPathRule e cfg (Header r ''X-Dest-Path'') = Some (rule, dir)"
      "rule_Permits e rule ''write''" "within dir (Header r ''X-Dest-Path'')" by blast
    obtain x w1 where wr: "atomicWriteAs e (clean (Header r ''X-Dest-Path'')) (Body r) (ru_UseAs rule) w = (x, w1)" by fastforce
    have "w' = w1" "resp = (case x of Inl y \<Rightarrow> WriteErrorE 500 ''write failed: '' y
        | Inr n \<Rightarrow> WriteJSON 200 (SendResult (clean (Header r ''X-Dest-Path'')) n))"
      using assms False ok wr by (auto simp: handleWrite_def Let_def split: sum.splits)
    with atomicWriteAs_cases [OF wr] False ok show ?thesis by auto
  qed
qed

text \<open>
  C24 (what an upload changes). Whatever calls fail and wherever the process dies, a request to \<^verbatim>\<open>/files\<close> either is answered with
  an error, or is a read, and changes no file; or it is an upload that is answered with the path written and the
  body's length, and then exactly that file has changed and holds exactly the body. The path is the
  inbox path of the tool and file name, with the prefix of the inbox directory, or the cleaned destination, if
  a rule that permits writing matches it and it has the prefix of the rule's directory.
\<close>

theorem files_effect:
  assumes "FilesHandler e cfg r w = (resp, w')"
  shows "unchanged_files w w' \<and> (Method r = ''POST'' \<longrightarrow> 400 \<le> status resp) \<or>
    (fc_Enabled cfg \<and> Method r = ''POST'' \<and> (\<exists>dest. resp = WriteJSON 200 (SendResult dest (int (length (Body r)))) \<and>
       stored_at dest (Body r) w w' \<and>
       (if Header r ''X-Dest-Path'' = [] then dest = inbox_dest (Header r ''X-Tool'') (Header r ''X-Filename'') \<and> has_prefix (clean dest) recvBase
        else dest = clean (Header r ''X-Dest-Path'') \<and> (\<exists>rule dir. MatchPathRule e cfg (Header r ''X-Dest-Path'') = Some (rule, dir) \<and>
          rule_Permits e rule ''write'' \<and> within dir (Header r ''X-Dest-Path'')))))"
proof (cases "fc_Enabled cfg \<and> Method r = ''POST''")
  case True
  with assms have "handleWrite e cfg r w = (resp, w')" by (simp add: FilesHandler_def)
  from handleWrite_cases [OF this] True show ?thesis by blast
next
  case False
  with assms have "w' = w \<or> handleRead e cfg r w = (resp, w')" "Method r = ''POST'' \<longrightarrow> 400 \<le> status resp"
    by (auto simp: FilesHandler_def files_disabled_def split: if_splits)
  with handleRead_quiet show ?thesis by (auto simp: unchanged_files_def same_files_get)
qed

definition demo_files_env :: files_env where
  "demo_files_env = \<lparr>MatchPathRule = (\<lambda>cfg p. case filter (\<lambda>r. has_prefix p (ru_Dir r)) (fc_Paths cfg) of [] \<Rightarrow> None | r # _ \<Rightarrow> Some (r, ru_Dir r)),
     rule_Permits = (\<lambda>r op. list_ex (\<lambda>a. a = op) (ru_Allow r)), setgid_ok = (\<lambda>g. True), setuid_ok = (\<lambda>u. True),
     stat_info = (\<lambda>p w. \<lparr>fi_Size = 0, fi_IsDir = False, fi_ModTime = 0, fi_Mode = []\<rparr>), entry_info = (\<lambda>d n w. None),
     file_sha256 = (\<lambda>d. [])\<rparr>"

definition demo_files_config :: files_config where
  "demo_files_config = \<lparr>fc_Enabled = True, fc_Paths = [\<lparr>ru_Dir = ''/data/'', ru_Allow = [''write''], ru_UseAsUser = [],
     ru_UseAs = \<lparr>ri_UID = 0, ri_GID = 0, ri_Set = False\<rparr>, ru_Share = True\<rparr>]\<rparr>"

definition demo_upload :: "(string \<times> string) list \<Rightarrow> request" where
  "demo_upload hs = \<lparr>Method = ''POST'', Path = ''/files'', Header = (\<lambda>k. case map_of hs k of None \<Rightarrow> [] | Some v \<Rightarrow> v),
     Query = (\<lambda>_. []), Body = ''b'', Caller = None\<rparr>"

theorem files_effect_witness:
  "\<exists>resp w'. FilesHandler demo_files_env demo_files_config (demo_upload [(''X-Dest-Path'', ''/data/f'')]) (demo_world [] []) = (resp, w') \<and>
     stored_at ''/data/f'' ''b'' (demo_world [] []) w'"
proof -
  let ?r = "demo_upload [(''X-Dest-Path'', ''/data/f'')]"
  let ?run = "FilesHandler demo_files_env demo_files_config ?r (demo_world [] [])"
  obtain resp w' where run: "?run = (resp, w')" by fastforce
  have "status (fst ?run) = 200" by code_simp
  then have "status resp = 200" using run by simp
  moreover have "Header ?r ''X-Dest-Path'' = ''/data/f''" "Method ?r = ''POST''" "Body ?r = ''b''" by (simp_all add: demo_upload_def)
  moreover have "clean ''/data/f'' = ''/data/f''" by code_simp
  ultimately have "stored_at ''/data/f'' ''b'' (demo_world [] []) w'"
    using files_effect [OF run] by auto
  with run show ?thesis by blast
qed

section \<open>The gates as a contract\<close>

definition rule_allows :: "files_env \<Rightarrow> files_config \<Rightarrow> string \<Rightarrow> string \<Rightarrow> bool" where
  "rule_allows e cfg op path =
     (case MatchPathRule e cfg path of None \<Rightarrow> False | Some (rule, dir) \<Rightarrow> rule_Permits e rule op \<and> within dir path)"

definition files_permitted :: "files_env \<Rightarrow> files_config \<Rightarrow> request \<Rightarrow> bool" where
  "files_permitted e cfg r \<longleftrightarrow> fc_Enabled cfg \<and>
     (Method r = ''POST'' \<and> (Header r ''X-Dest-Path'' = [] \<or> rule_allows e cfg ''write'' (Header r ''X-Dest-Path'')) \<or>
      Method r = ''GET'' \<and> (if Query r ''path'' \<noteq> [] then rule_allows e cfg ''read'' (Query r ''path'')
                               else Query r ''dir'' \<noteq> [] \<and> rule_allows e cfg ''read'' (Query r ''dir'')))"

lemma rule_denied:
  assumes "\<not> rule_allows e cfg op path"
  shows "MatchPathRule e cfg path = None \<or>
    (\<exists>rule dir. MatchPathRule e cfg path = Some (rule, dir) \<and> (\<not> rule_Permits e rule op \<or> \<not> within dir path))"
  using assms by (cases "MatchPathRule e cfg path") (auto simp: rule_allows_def)

lemma denied_handlers:
  "Header r ''X-Dest-Path'' \<noteq> [] \<Longrightarrow> \<not> rule_allows e cfg ''write'' (Header r ''X-Dest-Path'') \<Longrightarrow>
     400 \<le> status (fst (handleWrite e cfg r w)) \<and> snd (handleWrite e cfg r w) = w"
  "\<not> rule_allows e cfg ''read'' p \<Longrightarrow> 400 \<le> status (fst (handleReadFile e cfg r p w)) \<and> snd (handleReadFile e cfg r p w) = w"
  "\<not> rule_allows e cfg ''read'' p \<Longrightarrow> 400 \<le> status (fst (handleListDir e cfg p w)) \<and> snd (handleListDir e cfg p w) = w"
  by (drule rule_denied, elim disjE exE conjE; simp add: handleWrite_def handleReadFile_def handleListDir_def Let_def)+

interpretation files_gate: gated "FilesHandler e cfg" "\<lambda>resp. 400 \<le> status resp" "files_permitted e cfg" for e cfg
proof
  fix r w assume no: "\<not> files_permitted e cfg r"
  have "400 \<le> status (fst (FilesHandler e cfg r w)) \<and> snd (FilesHandler e cfg r w) = w"
  proof (cases "fc_Enabled cfg")
    case False then show ?thesis by (simp add: FilesHandler_def files_disabled_def)
  next
    case True
    with no denied_handlers [where e = e and cfg = cfg] show ?thesis
      by (auto simp: FilesHandler_def files_permitted_def handleRead_def split: if_splits)
  qed
  then show "snd (FilesHandler e cfg r w) = w" "400 \<le> status (fst (FilesHandler e cfg r w))" by simp_all
qed

section \<open>Confinement of the inbox\<close>

definition inbox_dir :: "string \<Rightarrow> string" where
  "inbox_dir tool = recvBase @ slash # tool"

lemma recvBase_path: "is_abs recvBase" "clean recvBase = recvBase" "recvBase \<noteq> ''/''" "canonical recvBase"
  by code_simp+

lemma inbox_dir_path:
  assumes "normal_comp tool"
  shows "join_path [recvBase, tool] = inbox_dir tool" "canonical (inbox_dir tool)" "inbox_dir tool \<noteq> ''/''"
    "clean (inbox_dir tool @ ''/'') = inbox_dir tool" "is_abs (inbox_dir tool @ ''/'')"
proof -
  show join: "join_path [recvBase, tool] = inbox_dir tool"
    using join_path_child [OF recvBase_path(1) assms] recvBase_path(2,3) by (simp add: inbox_dir_def)
  then show can: "canonical (inbox_dir tool)" using join_path_canonical [OF recvBase_path(1)] by metis
  show "inbox_dir tool \<noteq> ''/''" by (simp add: inbox_dir_def recvBase_def)
  show "clean (inbox_dir tool @ ''/'') = inbox_dir tool" using clean_trailing [OF can] .
  show "is_abs (inbox_dir tool @ ''/'')" using canonical_abs [OF can] by (rule is_abs_append)
qed

lemma resolveInbox_Inr:
  assumes "resolveInboxPath (inbox_dir tool @ ''/'') rel = Inr c" "normal_comp tool"
  shows "canonical c \<and> (c = inbox_dir tool \<or> path_under (inbox_dir tool) c)"
proof -
  note dir = inbox_dir_path [OF assms(2)]
  let ?c = "join_path [inbox_dir tool @ ''/'', rel]"
  have can: "canonical ?c" using join_path_canonical [OF dir(5)] .
  have c: "c = ?c" "has_prefix ?c (inbox_dir tool @ ''/'') \<or> ?c = inbox_dir tool"
    using assms(1) can dir(4) by (auto simp: resolveInboxPath_def Let_def split: if_splits)
  with can canonical_under [OF can _ dir(2,3)] show ?thesis by auto
qed

lemma normal_comps_path:
  assumes "list_all normal_comp cs" "cs \<noteq> []"
  shows "\<not> is_abs (join_with slash cs)" "join_with slash cs \<noteq> []"
proof -
  obtain c rest where cs: "cs = c # rest" using assms(2) by (cases cs) auto
  then have "c \<noteq> []" "slash \<notin> set c" using assms(1) by (auto simp: normal_comp_def)
  then obtain x xs where "c = x # xs" "x \<noteq> slash" by (cases c) auto
  then show "\<not> is_abs (join_with slash cs)" "join_with slash cs \<noteq> []"
    using cs by (cases rest; auto simp: is_abs_def has_prefix_def)+
qed

lemma clean_comps_append:
  assumes "list_all normal_comp cs" "cs \<noteq> []"
  shows "clean_comps True (d @ slash # join_with slash cs) = clean_comps True d @ cs"
proof -
  have "split_on slash (join_with slash cs) = cs" using assms by (intro split_join) (auto simp: normal_comp_split)
  then show ?thesis using assms(1) by (simp add: clean_comps_def split_on_append fold_push_normal)
qed

lemma resolveInbox_accepts:
  assumes "normal_comp tool" "list_all normal_comp cs" "cs \<noteq> []"
  shows "resolveInboxPath (inbox_dir tool @ ''/'') (join_with slash cs) = Inr (inbox_dir tool @ slash # join_with slash cs)"
proof -
  note dir = inbox_dir_path [OF assms(1)] and rel = normal_comps_path [OF assms(2,3)]
  let ?d = "inbox_dir tool"
  obtain ds where ds: "list_all normal_comp ds" "?d = slash # join_with slash ds" using dir(2) unfolding canonical_iff by blast
  then have "ds \<noteq> []" using dir(3) by auto
  have "clean_comps True (?d @ ''/'') = clean_comps True ?d"
    using split_on_append [of slash ?d "[]"] by (simp add: clean_comps_def clean_push.simps)
  then have "clean_comps True ((?d @ ''/'') @ slash # join_with slash cs) = ds @ cs"
    using clean_comps_append [OF assms(2,3), of "?d @ ''/''"] clean_comps_canonical [OF ds(1)] ds(2) by simp
  then have "clean ((?d @ ''/'') @ slash # join_with slash cs) = ?d @ slash # join_with slash cs"
    using ds \<open>ds \<noteq> []\<close> assms(3) by (simp add: clean_abs join_with_append)
  moreover have "join_path [?d @ ''/'', join_with slash cs] = clean ((?d @ ''/'') @ slash # join_with slash cs)"
    by (simp add: join_path.simps)
  ultimately have jp: "join_path [?d @ ''/'', join_with slash cs] = ?d @ slash # join_with slash cs" by simp
  then have "clean (?d @ slash # join_with slash cs) = ?d @ slash # join_with slash cs"
    using join_path_canonical [OF dir(5), of "[join_with slash cs]"] by simp
  with jp rel(1) dir(4) show ?thesis by (simp add: resolveInboxPath_def has_prefix_def)
qed

definition inbox_tool :: "request \<Rightarrow> string" where
  "inbox_tool r = fst (cut_at slash (trim_prefix (Path r) ''/inbox/''))"

lemma Remove_outcome:
  "os_Remove p w = (x, w') \<Longrightarrow> get_file w' q \<noteq> get_file w q \<Longrightarrow> x = Inr () \<and> clean q = clean p \<and> get_file w' q = None"
  by (auto simp: os_Remove_def io_call_def Let_def get_file_def split: if_splits fault.splits option.splits)
     (simp_all add: del_file_def split: if_splits)

lemma inbox_delete_cases:
  assumes "handleInboxDelete r (inbox_dir tool @ ''/'') w = (resp, w')" "normal_comp tool" "get_file w' p \<noteq> get_file w p"
  shows "status resp = 204 \<and> get_file w' p = None \<and> (clean p = inbox_dir tool \<or> path_under (inbox_dir tool) (clean p))"
proof -
  from assms(1,3) obtain c where c: "resolveInboxPath (inbox_dir tool @ ''/'') (Query r ''path'') = Inr c"
    by (cases "resolveInboxPath (inbox_dir tool @ ''/'') (Query r ''path'')") (auto simp: handleInboxDelete_def split: if_splits)
  obtain x w1 where rm: "os_Remove c w = (x, w1)" by fastforce
  have w': "w' = w1" "x = Inr () \<longrightarrow> resp = WriteHeader 204"
    using assms(1,3) c rm by (auto simp: handleInboxDelete_def split: if_splits sum.splits)
  with Remove_outcome [OF rm] assms(3) have "x = Inr ()" "clean p = clean c" "get_file w' p = None" by auto
  with w' resolveInbox_Inr [OF c assms(2)] show ?thesis by auto
qed

lemma inbox_read_cases:
  assumes "handleInboxReadFile r (inbox_dir tool @ ''/'') w = (resp, w')" "normal_comp tool"
  shows "same_files w w' \<and> (rs_body resp = Json (FileContent d) \<or> rs_body resp = Raw d \<longrightarrow>
     (\<exists>p f. (p = inbox_dir tool \<or> path_under (inbox_dir tool) p) \<and> get_file w p = Some f \<and> f_data f = d))"
proof (cases "Query r ''path'' = []")
  case True with assms show ?thesis by (auto simp: handleInboxReadFile_def WriteError_def)
next
  case False
  show ?thesis
  proof (cases "resolveInboxPath (inbox_dir tool @ ''/'') (Query r ''path'')")
    case Inl with assms False show ?thesis by (auto simp: handleInboxReadFile_def WriteErrorE_def)
  next
    case (Inr c)
    obtain x w1 where rd: "os_ReadFile c w = (x, w1)" by fastforce
    note res = ReadFile_result [OF rd] and same = quietD [OF quiet_ops(8) rd]
    show ?thesis
    proof (cases x)
      case (Inl er)
      with assms False Inr rd same show ?thesis
        by (auto simp: handleInboxReadFile_def WriteErrorE_def WriteError_def split: if_splits)
    next
      case (Inr data)
      with assms False \<open>resolveInboxPath _ _ = Inr c\<close> rd have "resp = send_content r data" "w' = w1"
        by (simp_all add: handleInboxReadFile_def)
      moreover obtain f where "get_file w c = Some f" "f_data f = data" using res Inr by auto
      ultimately show ?thesis
        using same resolveInbox_Inr [OF \<open>resolveInboxPath _ _ = Inr c\<close> assms(2)]
        by (auto simp: send_content_def WriteRaw_def WriteJSON_def)
    qed
  qed
qed


definition demo_inbox :: world where
  "demo_inbox = demo_world [(''/var/lib/tailkitd/recv/t/a'', text_file ''x'')] [''/var/lib/tailkitd/recv/t'']"

definition demo_delete :: request where
  "demo_delete = \<lparr>Method = ''DELETE'', Path = ''/inbox/t/file'', Header = (\<lambda>_. []), Query = (\<lambda>_. ''a''), Body = [], Caller = None\<rparr>"


text \<open>
  The inbox is not the boundary it looks like: The traversal check of an upload to the inbox compares with the inbox
  directory without a separator: a tool name with a parent component places the body in a sibling directory
  whose name merely begins like the inbox's, in every fault-free state in which that path is free.
\<close>

theorem inbox_prefix_escape:
  assumes "fc_Enabled cfg" "Method r = ''POST''" "Header r ''X-Dest-Path'' = []"
    and "Header r ''X-Tool'' = ''../recv-x''" "Header r ''X-Filename'' = ''f''" "fault_free w"
    and "list_all (\<lambda>p. get_file w p = None) [''/var'', ''/var/lib'', ''/var/lib/tailkitd'', ''/var/lib/tailkitd/recv-x'']"
    and "''/var/lib/tailkitd/recv-x/f'' \<notin> set (w_dirs w)"
  shows "\<exists>w'. FilesHandler e cfg r w = (WriteJSON 200 (SendResult ''/var/lib/tailkitd/recv-x/f'' (int (length (Body r)))), w') \<and>
    get_file w' ''/var/lib/tailkitd/recv-x/f'' = Some \<lparr>f_data = Body r, f_perm = 420\<rparr> \<and>
    \<not> path_under recvBase ''/var/lib/tailkitd/recv-x/f''"
proof -
  let ?d = "''/var/lib/tailkitd/recv-x/f''" and ?dir = "''/var/lib/tailkitd/recv-x''"
  have paths: "inbox_dest ''../recv-x'' ''f'' = ?d" "clean ?d = ?d" "dir_of ?d = ?dir" "clean ?dir = ?dir" "has_prefix ?d recvBase"
    "\<not> path_under recvBase ?d" "path_prefixes ?dir = [''/var'', ''/var/lib'', ''/var/lib/tailkitd'', ?dir]" by code_simp+
  let ?w1 = "w\<lparr>w_clock := Suc (w_clock w), w_dirs := List.union (path_prefixes ?dir) (w_dirs w)\<rparr>"
  have mk: "os_MkdirAll ?dir w = (Inr (), ?w1)"
    using assms(6,7) by (simp add: os_MkdirAll_def io_call_fault_free paths)
  have ff: "fault_free ?w1" using assms(6) by simp
  have "clean ?dir \<in> set (w_dirs ?w1)" "clean ?d \<notin> set (w_dirs ?w1)" using assms(8) by (auto simp: paths)
  then have "fst (replace_file ?dir ?d (Body r) 420 ?w1) = Inr ()" using replace_fault_free [OF ff] by blast
  then obtain w' where rp: "replace_file ?dir ?d (Body r) 420 ?w1 = (Inr (), w')" by (metis prod.collapse)
  have "FilesHandler e cfg r w = (WriteJSON 200 (SendResult ?d (int (length (Body r)))), w')"
    using assms(1-5) mk rp
    by (simp add: FilesHandler_def handleWrite_def write_inbox_def files_atomicWrite_def paths Let_def)
  moreover have "get_file w' ?d = Some \<lparr>f_data = Body r, f_perm = 420\<rparr>"
    using replace_cases [OF rp] by (simp add: wrote_get)
  ultimately show ?thesis using paths by blast
qed

theorem inbox_prefix_escape_witness:
  "\<exists>w'. FilesHandler demo_files_env demo_files_config (demo_upload [(''X-Tool'', ''../recv-x''), (''X-Filename'', ''f'')]) (demo_world [] []) =
      (WriteJSON 200 (SendResult ''/var/lib/tailkitd/recv-x/f'' 1), w') \<and>
    get_file w' ''/var/lib/tailkitd/recv-x/f'' = Some \<lparr>f_data = ''b'', f_perm = 420\<rparr>"
proof -
  let ?r = "demo_upload [(''X-Tool'', ''../recv-x''), (''X-Filename'', ''f'')]"
  have "fc_Enabled demo_files_config" by (simp add: demo_files_config_def)
  moreover have "Method ?r = ''POST''" "Header ?r ''X-Dest-Path'' = []" "Header ?r ''X-Tool'' = ''../recv-x''"
    "Header ?r ''X-Filename'' = ''f''" "Body ?r = ''b''" by (simp_all add: demo_upload_def)
  moreover have "list_all (\<lambda>p. get_file (demo_world [] []) p = None) [''/var'', ''/var/lib'', ''/var/lib/tailkitd'', ''/var/lib/tailkitd/recv-x'']"
    "''/var/lib/tailkitd/recv-x/f'' \<notin> set (w_dirs (demo_world [] []))" by (simp_all add: get_file_def demo_world_def)
  ultimately show ?thesis
    using inbox_prefix_escape [of demo_files_config ?r "demo_world [] []" demo_files_env] by auto
qed

text \<open>
  An upload to a rule without \<open>use_as\<close> still changes its identity, to group and user 0: as an unprivileged
  user the daemon can never serve it, although the loader's comment promises a plain write.
\<close>

lemma write_without_identity:
  assumes "ru_UseAs rule = \<lparr>ri_UID = 0, ri_GID = 0, ri_Set = False\<rparr>" "\<not> setgid_ok e 0"
  shows "atomicWriteAs e dest data (ru_UseAs rule) w = (Inl (SetGid 0), w)"
  using assms by (simp add: atomicWriteAs_def as_identity_def)

text \<open>The configuration endpoint discloses shared rules only.\<close>

lemma config_shares: "handleFilesConfig cfg = WriteJSON 200 (FilesConfigured c) \<Longrightarrow> list_all ru_Share (fc_Paths c)"
  by (auto simp: handleFilesConfig_def WriteJSON_def list_all_iff)

end
