(* ===== verification/GoNet.thy ===== *)
theory GoNet
  imports GoNum
begin

text \<open>
  Parts of Go's \<^verbatim>\<open>encoding/hex\<close>, \<^verbatim>\<open>strings\<close>, \<^verbatim>\<open>bufio\<close> and \<^verbatim>\<open>net\<close> that the port listing and the journal reader use: hexadecimal
  input, white space separated fields, line scanning with its token limit, and IP addresses with their text. The
  two main facts are that decoding undoes encoding and that \<open>ParseIP\<close> undoes \<open>IP.String\<close>.
\<close>

section \<open>Hexadecimal numbers\<close>

definition hex_val :: "char \<Rightarrow> nat option" where
  "hex_val ch =
     (let n = of_char ch :: nat in
      if 48 \<le> n \<and> n \<le> 57 then Some (n - 48)
      else if 97 \<le> n \<and> n \<le> 102 then Some (n - 87)
      else if 65 \<le> n \<and> n \<le> 70 then Some (n - 55)
      else None)"

definition is_hex :: "char \<Rightarrow> bool" where
  "is_hex ch \<longleftrightarrow> hex_val ch \<noteq> None"

fun hex_decode :: "string \<Rightarrow> 8 word list option" where
  "hex_decode [] = Some []"
| "hex_decode [a] = None"
| "hex_decode (a # b # s) =
     (case (hex_val a, hex_val b, hex_decode s) of
        (Some x, Some y, Some bs) \<Rightarrow> Some (word_of_nat (16 * x + y) # bs)
      | _ \<Rightarrow> None)"

definition hex_number :: "string \<Rightarrow> nat" where
  "hex_number s = foldl (\<lambda>n ch. 16 * n + the (hex_val ch)) 0 s"

text \<open>\<open>strconv.ParseUint(s, 16, 16)\<close>\<close>

definition parse_hex16 :: "string \<Rightarrow> 16 word option" where
  "parse_hex16 s =
     (if s \<noteq> [] \<and> list_all is_hex s \<and> int (hex_number s) < 65536 then Some (word_of_nat (hex_number s)) else None)"

text \<open>A hexadecimal digit in either case, as \<^verbatim>\<open>fmt\<close> and the kernel print it.\<close>

definition hex_char :: "bool \<Rightarrow> nat \<Rightarrow> char" where
  "hex_char upper n = (if upper then ''0123456789ABCDEF'' else ''0123456789abcdef'') ! n"

fun to_hex :: "nat \<Rightarrow> string" where
  "to_hex n = (if n < 16 then [hex_char False n] else to_hex (n div 16) @ [hex_char False (n mod 16)])"

declare to_hex.simps [simp del]

lemma less16: "n < 16 \<Longrightarrow> n \<in> {0::nat, 1, 2, 3, 4, 5, 6, 7, 8, 9, 10, 11, 12, 13, 14, 15}"
  unfolding insert_iff empty_iff by presburger

lemma hex_val_char [simp]: "n < 16 \<Longrightarrow> hex_val (hex_char u n) = Some n"
  using less16 [of n] by (auto simp: hex_char_def hex_val_def)

lemma is_hex_char [simp]: "n < 16 \<Longrightarrow> is_hex (hex_char u n)"
  by (simp add: is_hex_def)

lemma hex_number_snoc: "hex_number (s @ [ch]) = 16 * hex_number s + the (hex_val ch)"
  by (simp add: hex_number_def)

lemma to_hex_props: "hex_number (to_hex n) = n \<and> list_all is_hex (to_hex n) \<and> to_hex n \<noteq> []"
proof (induction n rule: to_hex.induct)
  case (1 n)
  then show ?case
    by (cases "n < 16") (simp_all add: to_hex.simps [of n] hex_number_snoc, simp add: hex_number_def)
qed

lemmas to_hex_facts [simp] = to_hex_props [THEN conjunct1] to_hex_props [THEN conjunct2, THEN conjunct1]
  to_hex_props [THEN conjunct2, THEN conjunct2]

lemma to_hex_length: "n < 16 ^ Suc k \<Longrightarrow> length (to_hex n) \<le> Suc k"
proof (induction k arbitrary: n)
  case 0 then show ?case by (simp add: to_hex.simps)
next
  case (Suc k)
  then have "n div 16 < 16 ^ Suc k" by (simp add: less_mult_imp_div_less)
  then show ?case using Suc.IH by (auto simp: to_hex.simps [of n])
qed

definition hex_bytes :: "bool \<Rightarrow> 8 word list \<Rightarrow> string" where
  "hex_bytes upper bs = concat (map (\<lambda>b. [hex_char upper (unat b div 16), hex_char upper (unat b mod 16)]) bs)"

lemma byte_bound: "unat (b :: 8 word) < 256"
proof -
  have "unat b < 2 ^ LENGTH(8)" by (rule unsigned_less)
  then show ?thesis by simp
qed

lemma hex_decode_bytes [simp]: "hex_decode (hex_bytes u bs) = Some bs"
proof (induction bs)
  case Nil then show ?case by (simp add: hex_bytes_def)
next
  case (Cons b bs)
  have "unat b div 16 < 16" using byte_bound [of b] by simp
  then show ?case using Cons by (simp add: hex_bytes_def)
qed

text \<open>\<open>hex.EncodeToString\<close> is the lower case form.\<close>

lemma hex_encode_bytes: "hex_encode bs = hex_bytes False bs"
proof -
  have "unat b div 16 < 16" for b :: "8 word" using byte_bound [of b] by simp
  then show ?thesis by (simp add: hex_encode_def hex_bytes_def hex_digit_def hex_char_def cong: list.map_cong)
qed

section \<open>Fields and lines\<close>

text \<open>\<open>strings.Fields\<close>\<close>

fun words_from :: "string \<Rightarrow> string \<Rightarrow> string list" where
  "words_from acc [] = (if acc = [] then [] else [acc])"
| "words_from acc (ch # s) =
     (if is_space ch then (if acc = [] then words_from [] s else acc # words_from [] s)
      else words_from (acc @ [ch]) s)"

definition go_fields :: "string \<Rightarrow> string list" where
  "go_fields s = words_from [] s"

lemma fields_from_word:
  "list_all (\<lambda>ch. \<not> is_space ch) w \<Longrightarrow> words_from acc (w @ s) = words_from (acc @ w) s"
  by (induction w arbitrary: acc) auto

lemma words_join:
  assumes "list_all (\<lambda>w. w \<noteq> [] \<and> list_all (\<lambda>ch. \<not> is_space ch) w) ws"
  shows "words_from [] (join_with (CHR '' '') ws) = ws"
  using assms
proof (induction "CHR '' ''" ws rule: join_with.induct)
  case 1 then show ?case by simp
next
  case (2 w) then show ?case using fields_from_word [of w "[]" "[]"] by simp
next
  case (3 v w ws)
  then show ?case using fields_from_word [of v "[]"] by (simp add: is_space_def)
qed

text \<open>
  \<open>bufio.Scanner\<close>: lines without their line feed and one carriage return; a line of 64 KiB or more ends the scan with
  \<open>ErrTooLong\<close>, which is the flag.
\<close>

definition drop_cr :: "string \<Rightarrow> string" where
  "drop_cr l = (if l \<noteq> [] \<and> last l = CHR 0x0D then butlast l else l)"

definition scan_fits :: "string \<Rightarrow> bool" where
  "scan_fits l \<longleftrightarrow> int (length l) < 65536"

definition scan_lines :: "string \<Rightarrow> string list \<times> bool" where
  "scan_lines t =
     (let ls = split_on (CHR 0x0A) t;
          ls = (if last ls = [] then butlast ls else ls)
      in (map drop_cr (takeWhile scan_fits ls), \<not> list_all scan_fits ls))"

lemma scan_lines_text:
  assumes "list_all (\<lambda>l. CHR 0x0A \<notin> set l \<and> CHR 0x0D \<notin> set l \<and> scan_fits l) ls"
  shows "scan_lines (concat (map (\<lambda>l. l @ [CHR 0x0A]) ls)) = (ls, False)"
proof -
  have "split_on (CHR 0x0A) (concat (map (\<lambda>l. l @ [CHR 0x0A]) ls)) = ls @ [[]]"
    using assms by (induction ls) (simp_all add: split_on_append split_on_notin)
  moreover have "map drop_cr (takeWhile scan_fits ls) = ls"
  proof -
    have tw: "takeWhile scan_fits ls = ls" using assms by (auto simp: takeWhile_eq_all_conv list_all_iff)
    show ?thesis unfolding tw
    proof (rule map_idI)
      fix l assume "l \<in> set ls"
      with assms have "CHR 0x0D \<notin> set l" by (simp add: list_all_iff)
      then show "drop_cr l = l" by (metis drop_cr_def last_in_set)
    qed
  qed
  ultimately show ?thesis using assms by (simp add: scan_lines_def Let_def list_all_iff)
qed

section \<open>IP addresses\<close>

text \<open>An address is its 4 or 16 bytes. \<open>To4\<close> recognises the 16 byte form of an IPv4 address.\<close>

type_synonym ip_bytes = "8 word list"

definition v4_prefix :: ip_bytes where
  "v4_prefix = replicate 10 0 @ [255, 255]"

definition to4 :: "ip_bytes \<Rightarrow> ip_bytes option" where
  "to4 bs =
     (if length bs = 4 then Some bs
      else if length bs = 16 \<and> take 12 bs = v4_prefix then Some (drop 12 bs)
      else None)"

definition is_loopback :: "ip_bytes \<Rightarrow> bool" where
  "is_loopback bs =
     (case to4 bs of Some b4 \<Rightarrow> b4 ! 0 = 127 | None \<Rightarrow> bs = replicate 15 0 @ [1])"

definition ip4_text :: "ip_bytes \<Rightarrow> string" where
  "ip4_text bs = join_with (CHR ''.'') (map (\<lambda>b. nat_to_dec (unat b)) bs)"

text \<open>The 16-bit groups of an IPv6 address.\<close>

fun groups :: "ip_bytes \<Rightarrow> nat list" where
  "groups (a # b # bs) = (256 * unat a + unat b) # groups bs"
| "groups _ = []"

definition group_bytes :: "nat \<Rightarrow> ip_bytes" where
  "group_bytes g = [word_of_nat (g div 256), word_of_nat g]"

definition zero_run :: "nat list \<Rightarrow> nat \<Rightarrow> nat" where
  "zero_run gs i = length (takeWhile (\<lambda>g. g = 0) (drop i gs))"

text \<open>The first longest run of at least two zero groups, from its start to its end.\<close>

definition longest_run :: "nat list \<Rightarrow> (nat \<times> nat) option" where
  "longest_run gs =
     fold (\<lambda>i best. let l = zero_run gs i in
             if 2 \<le> l \<and> (case best of None \<Rightarrow> True | Some (a, b) \<Rightarrow> b - a < l) then Some (i, i + l) else best)
       [0..<length gs] None"

definition groups_text :: "nat list \<Rightarrow> string" where
  "groups_text gs = join_with (CHR '':'') (map to_hex gs)"

definition ip6_text :: "ip_bytes \<Rightarrow> string" where
  "ip6_text bs =
     (let gs = groups bs in
      case longest_run gs of
        None \<Rightarrow> groups_text gs
      | Some (a, b) \<Rightarrow> groups_text (take a gs) @ ''::'' @ groups_text (drop b gs))"

text \<open>\<open>IP.String\<close> for the lengths 4 and 16.\<close>

definition ip_text :: "ip_bytes \<Rightarrow> string" where
  "ip_text bs = (case to4 bs of Some b4 \<Rightarrow> ip4_text b4 | None \<Rightarrow> ip6_text bs)"

section \<open>Reading addresses\<close>

definition parse_octet :: "string \<Rightarrow> 8 word option" where
  "parse_octet s =
     (if s \<noteq> [] \<and> list_all is_digit s \<and> (length s = 1 \<or> s ! 0 \<noteq> CHR ''0'') \<and> dec_value s \<le> 255
      then Some (word_of_nat (dec_value s)) else None)"

definition parse_ip4 :: "string \<Rightarrow> ip_bytes option" where
  "parse_ip4 s =
     (let fs = split_on (CHR ''.'') s in
      if length fs = 4 \<and> list_all (\<lambda>f. parse_octet f \<noteq> None) fs then Some (map (\<lambda>f. the (parse_octet f)) fs) else None)"

text \<open>
  The loop of \<open>parseIPv6\<close>: so many 16-bit places are left, these bytes are read, the ellipsis stands at this byte; the result has
  the unread rest.
\<close>

fun parse6_loop :: "nat \<Rightarrow> ip_bytes \<Rightarrow> nat option \<Rightarrow> string \<Rightarrow> (ip_bytes \<times> nat option \<times> string) option" where
  "parse6_loop 0 acc ell s = Some (acc, ell, s)"
| "parse6_loop (Suc n) acc ell s =
     (let ds = takeWhile is_hex s; rest = dropWhile is_hex s in
      if ds = [] \<or> 4 < length ds then None
      else if rest \<noteq> [] \<and> hd rest = CHR ''.'' then
        (if ell = None \<and> length acc \<noteq> 12 \<or> 12 < length acc then None
         else map_option (\<lambda>b4. (acc @ b4, ell, [])) (parse_ip4 s))
      else
        (let acc' = acc @ group_bytes (hex_number ds) in
         if rest = [] then Some (acc', ell, [])
         else if hd rest \<noteq> CHR '':'' \<or> tl rest = [] then None
         else if hd (tl rest) = CHR '':'' then
           (if ell \<noteq> None then None
            else if tl (tl rest) = [] then Some (acc', Some (length acc'), [])
            else parse6_loop n acc' (Some (length acc')) (tl (tl rest)))
         else parse6_loop n acc' ell (tl rest)))"

definition parse6_finish :: "ip_bytes \<times> nat option \<times> string \<Rightarrow> ip_bytes option" where
  "parse6_finish r =
     (case r of (acc, ell, s) \<Rightarrow>
        if s \<noteq> [] then None
        else if length acc < 16 then
          map_option (\<lambda>e. take e acc @ replicate (16 - length acc) 0 @ drop e acc) ell
        else if ell \<noteq> None then None else Some acc)"

definition parse_ip6 :: "string \<Rightarrow> ip_bytes option" where
  "parse_ip6 s =
     (if has_prefix s ''::'' then
        (if drop 2 s = [] then Some (replicate 16 0)
         else Option.bind (parse6_loop 8 [] (Some 0) (drop 2 s)) parse6_finish)
      else Option.bind (parse6_loop 8 [] None s) parse6_finish)"

text \<open>\<open>net.ParseIP\<close>: the first dot or colon decides the format; a zone is refused.\<close>

fun parse_ip_kind :: "string \<Rightarrow> string \<Rightarrow> ip_bytes option" where
  "parse_ip_kind s [] = None"
| "parse_ip_kind s (ch # r) =
     (if ch = CHR ''.'' then map_option (\<lambda>b4. v4_prefix @ b4) (parse_ip4 s)
      else if ch = CHR '':'' then parse_ip6 s
      else if ch = CHR ''%'' then None
      else parse_ip_kind s r)"

definition ParseIP :: "string \<Rightarrow> ip_bytes option" where
  "ParseIP s = parse_ip_kind s s"

lemma split_two:
  assumes "length (split_n 2 ch s) = 2" shows "s = split_n 2 ch s ! 0 @ ch # split_n 2 ch s ! 1"
proof -
  have "ch \<in> set s"
  proof (rule ccontr)
    assume "ch \<notin> set s" then show False using assms by (simp add: numeral_2_eq_2)
  qed
  then show ?thesis using takeWhile_dropWhile_at [of ch s] by (simp add: numeral_2_eq_2)
qed

lemma split_two_first: "CHR 0x2F \<notin> set (split_n 2 slash s ! 0)"
  by (simp add: numeral_2_eq_2) (use set_takeWhileD in fastforce)

end
