(* ===== verification/GoIp.thy ===== *)
theory GoIp
  imports GoNet
begin

text \<open>
  \<open>ParseIP\<close> undoes \<open>IP.String\<close>: every address of 4 or 16 bytes reads back from its text as its 16 byte form, also where the text
  abbreviates a run of zero groups.
\<close>

definition to16 :: "ip_bytes \<Rightarrow> ip_bytes" where
  "to16 bs = (case to4 bs of Some b4 \<Rightarrow> v4_prefix @ b4 | None \<Rightarrow> bs)"

section \<open>IPv4\<close>

lemma nat_to_dec_hd: "0 < n \<Longrightarrow> hd (nat_to_dec n) \<noteq> CHR ''0''"
proof (induction n rule: nat_to_dec.induct)
  case (1 n)
  show ?case
  proof (cases "n < 10")
    case True
    then have "(of_char (digit_char n) :: nat) = 48 + n" by (simp add: digit_char_def)
    with 1(2) have "digit_char n \<noteq> CHR ''0''" by auto
    with True show ?thesis by (simp add: nat_to_dec.simps)
  next
    case False
    then show ?thesis using 1(1) nat_to_dec_digits [of "n div 10"] by (simp add: nat_to_dec.simps [of n])
  qed
qed

lemma parse_octet_dec: "parse_octet (nat_to_dec (unat b)) = Some b"
proof -
  have "length (nat_to_dec (unat b)) = 1 \<or> nat_to_dec (unat b) ! 0 \<noteq> CHR ''0''"
  proof (cases "unat b = 0")
    case True then show ?thesis by (simp add: nat_to_dec.simps)
  next
    case False
    then show ?thesis using nat_to_dec_hd [of "unat b"] nat_to_dec_digits [of "unat b"] by (simp add: hd_conv_nth)
  qed
  moreover have "unat b \<le> 255" using byte_bound [of b] by simp
  ultimately show ?thesis using nat_to_dec_digits [of "unat b"] by (simp add: parse_octet_def dec_value_nat_to_dec)
qed

lemma digits_no:
  "is_digit ch \<Longrightarrow> ch \<noteq> CHR ''.''" "is_digit ch \<Longrightarrow> ch \<noteq> CHR '':''" "is_digit ch \<Longrightarrow> ch \<noteq> CHR ''%''"
  by (auto simp: is_digit_def)

lemma parse_ip4_text:
  assumes "length bs = 4" shows "parse_ip4 (ip4_text bs) = Some bs"
proof -
  have "split_on (CHR ''.'') (ip4_text bs) = map (\<lambda>b. nat_to_dec (unat b)) bs"
    unfolding ip4_text_def
  proof (rule split_join)
    show "map (\<lambda>b. nat_to_dec (unat b)) bs \<noteq> []" using assms by auto
    show "\<forall>f \<in> set (map (\<lambda>b. nat_to_dec (unat b)) bs). CHR ''.'' \<notin> set f"
      using nat_to_dec_digits digits_no(1) by (fastforce simp: list_all_iff)
  qed
  then show ?thesis using assms
    by (simp add: parse_ip4_def Let_def parse_octet_dec list_all_iff comp_def cong: map_cong)
qed

lemma kind_skip:
  "list_all (\<lambda>ch. ch \<noteq> CHR ''.'' \<and> ch \<noteq> CHR '':'' \<and> ch \<noteq> CHR ''%'') w \<Longrightarrow>
   parse_ip_kind s (w @ r) = parse_ip_kind s r"
  by (induction w) auto

lemma ParseIP_ip4_text:
  assumes "length bs = 4" shows "ParseIP (ip4_text bs) = Some (v4_prefix @ bs)"
proof -
  obtain a r where bs: "bs = a # r" "r \<noteq> []" using assms by (cases bs; cases "tl bs") auto
  have "ip4_text bs = nat_to_dec (unat a) @ CHR ''.'' # ip4_text r"
    using bs by (simp add: ip4_text_def join_with_Cons)
  moreover have "list_all (\<lambda>ch. ch \<noteq> CHR ''.'' \<and> ch \<noteq> CHR '':'' \<and> ch \<noteq> CHR ''%'') (nat_to_dec (unat a))"
    using nat_to_dec_digits [of "unat a"] digits_no by (auto simp: list_all_iff)
  ultimately show ?thesis using parse_ip4_text [OF assms] by (simp add: ParseIP_def kind_skip)
qed

section \<open>IPv6\<close>

lemma hex_no:
  "is_hex ch \<Longrightarrow> ch \<noteq> CHR ''.''" "is_hex ch \<Longrightarrow> ch \<noteq> CHR '':''" "is_hex ch \<Longrightarrow> ch \<noteq> CHR ''%''"
  "\<not> is_hex (CHR '':'')"
  by (auto simp: is_hex_def hex_val_def)

lemma to_hex_take:
  assumes "s = [] \<or> hd s = CHR '':''"
  shows "takeWhile is_hex (to_hex g @ s) = to_hex g" "dropWhile is_hex (to_hex g @ s) = s"
proof -
  have "\<forall>x \<in> set (to_hex g). is_hex x" using to_hex_facts(2) by (simp add: list_all_iff)
  moreover from assms have "takeWhile is_hex s = []" "dropWhile is_hex s = s"
    by (cases s; use hex_no(4) in auto)+
  ultimately show "takeWhile is_hex (to_hex g @ s) = to_hex g" "dropWhile is_hex (to_hex g @ s) = s"
    by simp_all
qed

declare parse6_loop.simps(2) [simp del]

lemma loop_step:
  assumes "g < 65536" and "s = [] \<or> hd s = CHR '':''"
  shows "parse6_loop (Suc n) acc ell (to_hex g @ s) =
    (let acc' = acc @ group_bytes g in
     if s = [] then Some (acc', ell, [])
     else if tl s = [] then None
     else if hd (tl s) = CHR '':'' then
       (if ell \<noteq> None then None
        else if tl (tl s) = [] then Some (acc', Some (length acc'), [])
        else parse6_loop n acc' (Some (length acc')) (tl (tl s)))
     else parse6_loop n acc' ell (tl s))"
proof -
  have "length (to_hex g) \<le> 4" using to_hex_length [of g 3] assms(1) by simp
  then show ?thesis using to_hex_take [OF assms(2)] assms(2)
    by (simp only: parse6_loop.simps Let_def to_hex_facts) auto
qed

lemma groups_text_Cons:
  "groups_text [g] = to_hex g" "gs \<noteq> [] \<Longrightarrow> groups_text (g # gs) = to_hex g @ CHR '':'' # groups_text gs"
  by (simp_all add: groups_text_def join_with_Cons)

lemma groups_text_hd:
  assumes "gs \<noteq> []" shows "groups_text gs \<noteq> []" "hd (groups_text gs @ t) \<noteq> CHR '':''"
proof -
  obtain g r where gs: "gs = g # r" using assms by (cases gs) auto
  have "is_hex (hd (to_hex g))" using to_hex_facts(2,3) [of g] by (simp add: list_all_iff)
  then show "groups_text gs \<noteq> []" "hd (groups_text gs @ t) \<noteq> CHR '':''"
    using hex_no(2) by (cases "r = []"; simp add: gs groups_text_Cons)+
qed

abbreviation all_bytes :: "nat list \<Rightarrow> ip_bytes" where
  "all_bytes gs \<equiv> concat (map group_bytes gs)"

lemma loop_groups:
  assumes "gs \<noteq> []" "length gs \<le> n" "list_all (\<lambda>g. g < 65536) gs"
  shows "parse6_loop n acc ell (groups_text gs) = Some (acc @ all_bytes gs, ell, [])"
  using assms
proof (induction gs arbitrary: n acc)
  case (Cons g gs)
  then obtain m where n: "n = Suc m" by (cases n) auto
  show ?case
  proof (cases "gs = []")
    case True then show ?thesis using Cons.prems loop_step [of g "[]"] by (simp add: n groups_text_Cons)
  next
    case False
    then show ?thesis
      using Cons loop_step [of g "CHR '':'' # groups_text gs" m acc ell] groups_text_hd [OF False] groups_text_hd(2) [OF False, of "[]"]
      by (simp add: n groups_text_Cons)
  qed
qed simp

lemma loop_ellipsis:
  assumes "gs \<noteq> []" "length gs \<le> n" "list_all (\<lambda>g. g < 65536) gs"
  shows "parse6_loop n acc None (groups_text gs @ ''::'' @ t) =
    (let acc' = acc @ all_bytes gs in
     if t = [] then Some (acc', Some (length acc'), []) else parse6_loop (n - length gs) acc' (Some (length acc')) t)"
  using assms
proof (induction gs arbitrary: n acc)
  case (Cons g gs)
  then obtain m where n: "n = Suc m" by (cases n) auto
  show ?case
  proof (cases "gs = []")
    case True
    then show ?thesis using Cons.prems loop_step [of g "''::'' @ t" m acc None] by (simp add: n groups_text_Cons Let_def)
  next
    case False
    then show ?thesis
      using Cons.prems Cons.IH [of m "acc @ group_bytes g"]
        loop_step [of g "CHR '':'' # groups_text gs @ ''::'' @ t" m acc None] groups_text_hd [OF False]
      by (simp add: n groups_text_Cons Let_def)
  qed
qed simp

lemma groups_bytes: "even (length bs) \<Longrightarrow> all_bytes (groups bs) = bs"
proof (induction bs rule: groups.induct)
  case (1 a b bs)
  have "(256 * unat a + unat b) div 256 = unat a" using byte_bound [of b] by simp
  moreover have "(word_of_nat (256 * unat a + unat b) :: 8 word) = b"
  proof -
    have "(256 :: 8 word) = 0" by simp
    then show ?thesis by (simp only: of_nat_add of_nat_mult of_nat_numeral) simp
  qed
  ultimately show ?case using 1 by (simp add: group_bytes_def)
qed simp_all

lemma groups_bound: "list_all (\<lambda>g. g < 65536) (groups bs)"
proof (induction bs rule: groups.induct)
  case (1 a b bs)
  then show ?case using byte_bound [of a] byte_bound [of b] by simp
qed simp_all

lemma groups_length: "length (groups bs) = length bs div 2"
  by (induction bs rule: groups.induct) simp_all

section \<open>The abbreviated run\<close>

lemma zero_run_drop:
  "drop a gs = replicate (zero_run gs a) 0 @ drop (a + zero_run gs a) gs"
proof -
  let ?z = "takeWhile (\<lambda>g. g = 0) (drop a gs)"
  have "?z = replicate (length ?z) 0" by (rule replicate_length_same [symmetric]) (auto dest: set_takeWhileD)
  moreover have "dropWhile (\<lambda>g. g = 0) (drop a gs) = drop (a + length ?z) gs"
    by (simp add: dropWhile_eq_drop add.commute)
  ultimately show ?thesis unfolding zero_run_def by (metis takeWhile_dropWhile_id)
qed

lemma longest_run_props:
  assumes "longest_run gs = Some (a, b)"
  shows "a < length gs \<and> 2 \<le> zero_run gs a \<and> b = a + zero_run gs a"
proof -
  let ?f = "\<lambda>i best. let l = zero_run gs i in
     if 2 \<le> l \<and> (case best of None \<Rightarrow> True | Some (a, b) \<Rightarrow> b - a < l) then Some (i, i + l) else best"
  let ?P = "\<lambda>r. \<forall>a b. r = Some (a, b) \<longrightarrow> a < length gs \<and> 2 \<le> zero_run gs a \<and> b = a + zero_run gs a"
  have "?P (fold ?f ks None)" if "set ks \<subseteq> {..<length gs}" for ks
    using that by (induction ks rule: rev_induct) (auto simp: Let_def split: if_splits)
  from this [of "[0..<length gs]"] show ?thesis using assms unfolding longest_run_def by (auto simp: atLeast0LessThan)
qed

lemma all_bytes_zeros: "all_bytes (replicate n 0) = replicate (2 * n) 0"
  by (induction n) (simp_all add: group_bytes_def)

lemma all_bytes_length: "length (all_bytes gs) = 2 * length gs"
  by (induction gs) (simp_all add: group_bytes_def)

lemma parse_ip6_run:
  assumes "length pre + n + length post = 8" "2 \<le> n"
    and pre: "list_all (\<lambda>g. g < 65536) pre" and post: "list_all (\<lambda>g. g < 65536) post"
  shows "parse_ip6 (groups_text pre @ ''::'' @ groups_text post) = Some (all_bytes pre @ replicate (2 * n) 0 @ all_bytes post)"
proof -
  have fin: "parse6_finish (all_bytes pre @ all_bytes post, Some (2 * length pre), []) =
      Some (all_bytes pre @ replicate (2 * n) 0 @ all_bytes post)"
  proof -
    have "16 - (2 * length pre + 2 * length post) = 2 * n" using assms(1) by simp
    moreover have "2 * length pre + 2 * length post < 16" using assms(1,2) by simp
    ultimately show ?thesis by (simp add: parse6_finish_def all_bytes_length)
  qed
  show ?thesis
  proof (cases "pre = []")
    case True
    show ?thesis
    proof (cases "post = []")
      case True
      with \<open>pre = []\<close> assms(1) have "2 * n = 16" by simp
      with True \<open>pre = []\<close> show ?thesis by (simp add: parse_ip6_def groups_text_def has_prefix_def)
    next
      case False
      then show ?thesis using True fin loop_groups [OF False, of 8 "[]" "Some 0"] post assms(1) groups_text_hd(1) [OF False]
        by (simp add: parse_ip6_def groups_text_def [of "[]"] has_prefix_def)
    qed
  next
    case False
    let ?t = "groups_text pre @ ''::'' @ groups_text post"
    have np: "\<not> has_prefix ?t ''::''"
      using groups_text_hd(2) [OF False, of "''::'' @ groups_text post"] by (auto simp: has_prefix_def prefix_def)
    have "parse6_loop 8 [] None ?t = Some (all_bytes pre @ all_bytes post, Some (2 * length pre), [])"
    proof (cases "post = []")
      case True
      then show ?thesis using loop_ellipsis [OF False _ pre, of 8 "[]" "[]"] assms(1)
        by (simp add: groups_text_def [of "[]"] all_bytes_length)
    next
      case post': False
      have "length post \<le> 8 - length pre" using assms(1) by simp
      then show ?thesis using loop_ellipsis [OF False _ pre, of 8 "[]" "groups_text post"] assms(1)
          loop_groups [OF post' _ post] groups_text_hd(1) [OF post']
        by (simp add: Let_def all_bytes_length)
    qed
    with np fin show ?thesis by (simp add: parse_ip6_def)
  qed
qed

lemma parse_ip6_text:
  assumes "length bs = 16" shows "parse_ip6 (ip6_text bs) = Some bs"
proof -
  let ?gs = "groups bs"
  have len: "length ?gs = 8" using assms by (simp add: groups_length)
  have bytes: "all_bytes ?gs = bs" using assms by (intro groups_bytes) simp
  have bnd: "list_all (\<lambda>g. g < 65536) ?gs" by (rule groups_bound)
  show ?thesis
  proof (cases "longest_run ?gs")
    case None
    have "?gs \<noteq> []" using len by auto
    then have "\<not> has_prefix (groups_text ?gs) ''::''" using groups_text_hd(2) [of ?gs "[]"]
      by (auto simp: has_prefix_def prefix_def)
    then show ?thesis using None loop_groups [of ?gs 8 "[]" None] \<open>?gs \<noteq> []\<close> len bnd bytes assms
      by (simp add: ip6_text_def parse_ip6_def parse6_finish_def)
  next
    case (Some ab)
    obtain a b where ab: "ab = (a, b)" by (cases ab)
    note run = longest_run_props [OF Some [unfolded ab]]
    have split: "?gs = take a ?gs @ replicate (zero_run ?gs a) 0 @ drop b ?gs"
      using zero_run_drop [of a ?gs] run by (metis append_take_drop_id)
    have lens: "length (take a ?gs) + zero_run ?gs a + length (drop b ?gs) = 8"
      using arg_cong [OF split, of length] len by simp
    have bnds: "list_all (\<lambda>g. g < 65536) (take a ?gs)" "list_all (\<lambda>g. g < 65536) (drop b ?gs)"
      using bnd by (auto simp: list_all_iff dest: in_set_takeD in_set_dropD)
    have "bs = all_bytes (take a ?gs) @ replicate (2 * zero_run ?gs a) 0 @ all_bytes (drop b ?gs)"
      using arg_cong [OF split, of all_bytes] bytes by (simp only: map_append concat_append all_bytes_zeros)
    then show ?thesis using Some ab parse_ip6_run [OF lens _ bnds] run by (simp add: ip6_text_def Let_def)
  qed
qed

lemma kind_colon: "list_all is_hex w \<Longrightarrow> parse_ip_kind s (w @ CHR '':'' # r) = parse_ip6 s"
  using hex_no by (subst kind_skip) (auto simp: list_all_iff)

lemma ip6_text_colon:
  assumes "length bs = 16"
  obtains w r where "ip6_text bs = w @ CHR '':'' # r" "list_all is_hex w"
proof -
  have gen: "\<exists>w r. groups_text gs @ CHR '':'' # t = w @ CHR '':'' # r \<and> list_all is_hex w" for gs t
  proof (cases gs)
    case Nil then show ?thesis by (intro exI [of _ "[]"] exI [of _ t]) (simp add: groups_text_def)
  next
    case (Cons g r)
    then show ?thesis 
      by (intro exI [of _ "to_hex g"] exI [of _ "if r = [] then t else groups_text r @ CHR '':'' # t"])
        (simp add: groups_text_Cons)
  qed
  have "length (groups bs) = 8" using assms by (simp add: groups_length)
  then obtain g h r where gs: "groups bs = g # h # r" by (auto simp: length_Suc_conv numeral_eq_Suc)
  show thesis
  proof (cases "longest_run (groups bs)")
    case None
    then show thesis using gs that [of "to_hex g"] by (simp add: ip6_text_def groups_text_Cons)
  next
    case (Some ab)
    obtain w r where "groups_text (take (fst ab) (groups bs)) @ CHR '':'' # CHR '':'' # groups_text (drop (snd ab) (groups bs)) =
        w @ CHR '':'' # r" "list_all is_hex w" using gen by blast
    with Some show thesis using that [of w r] by (simp add: ip6_text_def case_prod_unfold)
  qed
qed

theorem ParseIP_text:
  assumes "length bs = 4 \<or> length bs = 16"
  shows "ParseIP (ip_text bs) = Some (to16 bs)"
proof (cases "to4 bs")
  case None
  then have len: "length bs = 16" using assms by (auto simp: to4_def)
  obtain w r where "ip6_text bs = w @ CHR '':'' # r" "list_all is_hex w" using ip6_text_colon [OF len] .
  then have "ParseIP (ip6_text bs) = parse_ip6 (ip6_text bs)" by (simp add: ParseIP_def kind_colon)
  with None show ?thesis using parse_ip6_text [OF len] by (simp add: ip_text_def to16_def)
next
  case (Some b4)
  then have "length b4 = 4" by (auto simp: to4_def split: if_splits)
  with Some show ?thesis using ParseIP_ip4_text by (simp add: ip_text_def to16_def)
qed

end
