(* ===== verification/Sse.thy ===== *)
theory Sse
  imports Http
begin

text \<open>
  Server-sent events (\<^verbatim>\<open>internal/sse/writer.go, handler.go\<close>). A writer serialises whole frames under its lock, so a frame
  is a step. The connection is a plan, one entry per attempt to write: it is open, the client is found
  gone before or after the lock is taken, or the write itself fails. What has been written is a list of frames;
  \<open>frame_text\<close> is their text. A failed write is taken to deliver nothing.
\<close>

datatype conn = ConnOpen | GoneEarly | GoneLate | WriteFails

datatype stream_error = ClientGone | Canceled | WriteFailed | MarshalFailed | StreamFailed string

datatype frame = EventFrame int string string | HeartbeatFrame

record sse_writer =
  sse_seq :: int
  sse_frames :: "frame list"
  sse_plan :: "nat \<Rightarrow> conn"
  sse_tries :: nat

definition sse_headers :: "(string \<times> string) list" where
  "sse_headers = [(''Content-Type'', ''text/event-stream''), (''Cache-Control'', ''no-cache''),
     (''X-Accel-Buffering'', ''no''), (''Access-Control-Allow-Origin'', ''*'')]"

definition NewWriter :: "bool \<Rightarrow> (nat \<Rightarrow> conn) \<Rightarrow> sse_writer option" where
  "NewWriter flusher plan =
     (if \<not> flusher then None else Some \<lparr>sse_seq = 0, sse_frames = [], sse_plan = plan, sse_tries = 0\<rparr>)"

definition sse_next :: "sse_writer \<Rightarrow> conn \<times> sse_writer" where
  "sse_next sw = (sse_plan sw (sse_tries sw), sw\<lparr>sse_tries := Suc (sse_tries sw)\<rparr>)"

text \<open>The data is the encoded JSON value, \<open>None\<close> where encoding fails.\<close>

definition sse_write :: "string \<Rightarrow> string option \<Rightarrow> sse_writer \<Rightarrow> stream_error option \<times> sse_writer" where
  "sse_write name data sw =
     (case sse_next sw of (c, sw) \<Rightarrow>
        if c = GoneEarly then (Some ClientGone, sw)
        else (case data of
                None \<Rightarrow> (Some MarshalFailed, sw)
              | Some raw \<Rightarrow>
                  if c = GoneLate then (Some ClientGone, sw)
                  else (let i = wrap64 (sse_seq sw + 1); sw = sw\<lparr>sse_seq := i\<rparr> in
                        if c = WriteFails then (Some WriteFailed, sw)
                        else (None, sw\<lparr>sse_frames := sse_frames sw @ [EventFrame i name raw]\<rparr>))))"

definition Heartbeat :: "sse_writer \<Rightarrow> stream_error option \<times> sse_writer" where
  "Heartbeat sw =
     (case sse_next sw of (c, sw) \<Rightarrow>
        if c = GoneEarly \<or> c = GoneLate then (Some ClientGone, sw)
        else if c = WriteFails then (Some WriteFailed, sw)
        else (None, sw\<lparr>sse_frames := sse_frames sw @ [HeartbeatFrame]\<rparr>))"

definition SetSequence :: "int \<Rightarrow> sse_writer \<Rightarrow> sse_writer" where
  "SetSequence n sw = sw\<lparr>sse_seq := n\<rparr>"

definition ResumeFrom :: "request \<Rightarrow> int" where
  "ResumeFrom r =
     (let v = Header r ''Last-Event-ID'' in
      if v = [] then 0 else (case parse_int v of Inl _ \<Rightarrow> 0 | Inr n \<Rightarrow> n))"

text \<open>The name of the error event and the encoding of its message come from the shared client library.\<close>

definition sse_Error :: "string \<Rightarrow> (stream_error \<Rightarrow> string) \<Rightarrow> stream_error \<Rightarrow> sse_writer \<Rightarrow> sse_writer" where
  "sse_Error errname enc e sw = snd (sse_write errname (Some (enc e)) sw)"

section \<open>The text of the stream\<close>

definition newline :: char where "newline = CHR 0x0A"

definition frame_text :: "frame \<Rightarrow> string" where
  "frame_text f = (case f of
       EventFrame i name raw \<Rightarrow> ''event: '' @ name @ [newline] @ ''id: '' @ int_to_dec i @ [newline] @ ''data: '' @ raw @ [newline, newline]
     | HeartbeatFrame \<Rightarrow> '': heartbeat'' @ [newline, newline])"

text \<open>
  How a client reads it: lines set the fields of the next event, a line that begins with a colon is a comment, an empty line
  dispatches the event if it has data.
\<close>

record sse_fields =
  ef_event :: string
  ef_id :: string
  ef_data :: "string option"

definition no_fields :: sse_fields where
  "no_fields = \<lparr>ef_event = [], ef_id = [], ef_data = None\<rparr>"

fun sse_read :: "sse_fields \<Rightarrow> string list \<Rightarrow> (string \<times> string \<times> string) list" where
  "sse_read st [] = []"
| "sse_read st (l # ls) =
     (if l = [] then (case ef_data st of None \<Rightarrow> sse_read no_fields ls | Some d \<Rightarrow> (ef_id st, ef_event st, d) # sse_read no_fields ls)
      else if has_prefix l ''event: '' then sse_read (st\<lparr>ef_event := drop 7 l\<rparr>) ls
      else if has_prefix l ''id: '' then sse_read (st\<lparr>ef_id := drop 4 l\<rparr>) ls
      else if has_prefix l ''data: '' then sse_read (st\<lparr>ef_data := Some (drop 6 l)\<rparr>) ls
      else sse_read st ls)"

definition sse_parse :: "string \<Rightarrow> (string \<times> string \<times> string) list" where
  "sse_parse t = sse_read no_fields (split_on newline t)"

fun stream_events :: "frame list \<Rightarrow> (int \<times> string \<times> string) list" where
  "stream_events [] = []"
| "stream_events (EventFrame i n d # fs) = (i, n, d) # stream_events fs"
| "stream_events (HeartbeatFrame # fs) = stream_events fs"

lemma stream_events_append [simp]: "stream_events (fs @ gs) = stream_events fs @ stream_events gs"
  by (induction fs rule: stream_events.induct) simp_all

definition one_line :: "frame \<Rightarrow> bool" where
  "one_line f = (case f of EventFrame i n d \<Rightarrow> newline \<notin> set n \<and> newline \<notin> set d | HeartbeatFrame \<Rightarrow> True)"

lemma split_newline: "newline \<notin> set l \<Longrightarrow> split_on newline (l @ newline # t) = l # split_on newline t"
  by (simp add: split_on_append split_on_notin)

lemma dec_no_newline: "newline \<notin> set (int_to_dec i)"
  using int_to_dec_nospace [of newline i] by (auto simp: newline_def is_space_def)

lemma sse_read_frame:
  assumes "one_line f"
  shows "sse_read no_fields (split_on newline (frame_text f @ t)) =
     map (\<lambda>(i, n, d). (int_to_dec i, n, d)) (stream_events [f]) @ sse_read no_fields (split_on newline t)"
proof (cases f)
  case (EventFrame i n d)
  have nl: "newline \<notin> set (''event: '' @ n)" "newline \<notin> set (''id: '' @ int_to_dec i)" "newline \<notin> set (''data: '' @ d)"
    using assms EventFrame dec_no_newline by (auto simp: one_line_def newline_def)
  have "split_on newline (frame_text f @ t) =
      (''event: '' @ n) # (''id: '' @ int_to_dec i) # (''data: '' @ d) # [] # split_on newline t"
    using split_newline [OF nl(1), of "(''id: '' @ int_to_dec i) @ newline # (''data: '' @ d) @ newline # [] @ newline # t"]
      split_newline [OF nl(2), of "(''data: '' @ d) @ newline # [] @ newline # t"]
      split_newline [OF nl(3), of "[] @ newline # t"] split_newline [of "[]" t]
    by (simp add: frame_text_def EventFrame)
  then show ?thesis by (simp add: EventFrame no_fields_def has_prefix_def)
next
  case HeartbeatFrame
  have "newline \<notin> set '': heartbeat''" by (simp add: newline_def)
  from split_newline [OF this, of "[] @ newline # t"] split_newline [of "[]" t]
  have "split_on newline (frame_text f @ t) = '': heartbeat'' # [] # split_on newline t"
    by (simp add: frame_text_def HeartbeatFrame)
  then show ?thesis by (simp add: HeartbeatFrame no_fields_def has_prefix_def)
qed

text \<open>
  C27 (event framing). A client that reads the text of any sequence of frames gets exactly the events, in order, with their
  ids, names and data, and nothing from the heartbeats, as long as names and encoded data have no line
  break (JSON text has none).
\<close>

theorem sse_roundtrip:
  assumes "list_all one_line fs"
  shows "sse_parse (concat (map frame_text fs)) = map (\<lambda>(i, n, d). (int_to_dec i, n, d)) (stream_events fs)"
  unfolding sse_parse_def using assms
proof (induction fs)
  case Nil then show ?case by (simp add: no_fields_def)
next
  case (Cons f fs)
  then show ?case using sse_read_frame [of f "concat (map frame_text fs)"] by (cases f) simp_all
qed

theorem sse_roundtrip_witness:
  "sse_parse (concat (map frame_text [EventFrame 1 ''cpu'' ''5'', HeartbeatFrame, EventFrame 2 ''cpu'' ''6''])) =
     [(''1'', ''cpu'', ''5''), (''2'', ''cpu'', ''6'')]"
proof -
  have "list_all one_line [EventFrame 1 ''cpu'' ''5'', HeartbeatFrame, EventFrame 2 ''cpu'' ''6'']" by code_simp
  moreover have "int_to_dec 1 = ''1''" "int_to_dec 2 = ''2''" by code_simp+
  ultimately show ?thesis using sse_roundtrip by fastforce
qed

section \<open>The stream handler\<close>

text \<open>
  The stream function runs beside the handler's loop. It sends events one after the other (\<open>hs_todo\<close>), stops at the first
  send that fails, and ends with \<open>hs_end\<close> when all are sent. The loop sends heartbeats, and when the
  function has ended reports its error, unless the client is gone or the request cancelled. Every
  interleaving of the two is a sequence of steps.
\<close>

record sse_handler =
  hs_writer :: sse_writer
  hs_todo :: "(string \<times> string) list"
  hs_end :: "stream_error option"
  hs_result :: "stream_error option option"
  hs_over :: bool

definition report_result :: "string \<Rightarrow> (stream_error \<Rightarrow> string) \<Rightarrow> stream_error option \<Rightarrow> sse_writer \<Rightarrow> sse_writer" where
  "report_result errname enc r sw =
     (case r of None \<Rightarrow> sw
      | Some e \<Rightarrow> if e = ClientGone \<or> e = Canceled then sw else sse_Error errname enc e sw)"

inductive sse_step :: "string \<Rightarrow> (stream_error \<Rightarrow> string) \<Rightarrow> sse_handler \<Rightarrow> sse_handler \<Rightarrow> bool" for errname enc where
  send: "hs_result h = None \<Longrightarrow> hs_todo h = (n, d) # rest \<Longrightarrow> sse_write n (Some d) (hs_writer h) = (None, sw) \<Longrightarrow>
    sse_step errname enc h (h\<lparr>hs_writer := sw, hs_todo := rest\<rparr>)"
| send_fails: "hs_result h = None \<Longrightarrow> hs_todo h = (n, d) # rest \<Longrightarrow> sse_write n (Some d) (hs_writer h) = (Some e, sw) \<Longrightarrow>
    sse_step errname enc h (h\<lparr>hs_writer := sw, hs_result := Some (Some e)\<rparr>)"
| finish: "hs_result h = None \<Longrightarrow> hs_todo h = [] \<Longrightarrow> sse_step errname enc h (h\<lparr>hs_result := Some (hs_end h)\<rparr>)"
| tick: "\<not> hs_over h \<Longrightarrow> Heartbeat (hs_writer h) = (x, sw) \<Longrightarrow>
    sse_step errname enc h (h\<lparr>hs_writer := sw, hs_over := (x \<noteq> None)\<rparr>)"
| report: "\<not> hs_over h \<Longrightarrow> hs_result h = Some r \<Longrightarrow>
    sse_step errname enc h (h\<lparr>hs_writer := report_result errname enc r (hs_writer h), hs_over := True\<rparr>)"
| stop: "\<not> hs_over h \<Longrightarrow> sse_step errname enc h (h\<lparr>hs_over := True\<rparr>)"

inductive sse_reach :: "string \<Rightarrow> (stream_error \<Rightarrow> string) \<Rightarrow> sse_handler \<Rightarrow> sse_handler \<Rightarrow> bool" for errname enc where
  start: "sse_reach errname enc h h"
| more: "sse_reach errname enc h g \<Longrightarrow> sse_step errname enc g k \<Longrightarrow> sse_reach errname enc h k"

definition numbered :: "int \<Rightarrow> (string \<times> string) list \<Rightarrow> (int \<times> string \<times> string) list" where
  "numbered s es = map (\<lambda>(k, n, d). (s + 1 + int k, n, d)) (enumerate 0 es)"

lemma numbered_snoc: "numbered s (es @ [(n, d)]) = numbered s es @ [(s + 1 + int (length es), n, d)]"
  by (simp add: numbered_def enumerate_append_eq)

lemma write_ok_frame:
  assumes "sse_write n (Some d) sw = (None, sw')"
  shows "sse_seq sw' = wrap64 (sse_seq sw + 1) \<and> sse_frames sw' = sse_frames sw @ [EventFrame (wrap64 (sse_seq sw + 1)) n d]"
  using assms by (auto simp: sse_write_def sse_next_def Let_def split: if_splits)

lemma write_failed_frames:
  assumes "sse_write n d sw = (Some e, sw')"
  shows "sse_frames sw' = sse_frames sw \<and> (sse_seq sw' = sse_seq sw \<or> sse_seq sw' = wrap64 (sse_seq sw + 1))"
  using assms by (auto simp: sse_write_def sse_next_def Let_def split: if_splits option.splits)

lemma heartbeat_frames:
  "Heartbeat sw = (x, sw') \<Longrightarrow> stream_events (sse_frames sw') = stream_events (sse_frames sw) \<and> sse_seq sw' = sse_seq sw"
  by (auto simp: Heartbeat_def sse_next_def split: if_splits)

lemma wrap64_small: "0 \<le> s \<Longrightarrow> s + 1 + int k < 2 ^ 63 \<Longrightarrow> wrap64 (s + int k + 1) = s + 1 + int k"
  using wrap64_id [of "s + int k + 1"] by (simp add: in_int64_def int64_min_def int64_max_def add.commute add.left_commute)

section \<open>Sending a list of updates\<close>

text \<open>
  What the stream functions of the other components share: updates are encoded to a name and, where that succeeds, data; a list
  of them is sent until a write fails.
\<close>

definition encoded :: "('u \<Rightarrow> string \<times> string option) \<Rightarrow> 'u list \<Rightarrow> (string \<times> string) list" where
  "encoded enc evs = map (\<lambda>ev. (fst (enc ev), the (snd (enc ev)))) evs"

lemma write_open:
  assumes "sse_plan sw = (\<lambda>_. ConnOpen)" "d \<noteq> None"
  shows "\<exists>sw'. sse_write n d sw = (None, sw') \<and> sse_plan sw' = (\<lambda>_. ConnOpen) \<and> sse_seq sw' = wrap64 (sse_seq sw + 1) \<and>
     stream_events (sse_frames sw') = stream_events (sse_frames sw) @ [(wrap64 (sse_seq sw + 1), n, the d)]"
  using assms by (auto simp: sse_write_def sse_next_def Let_def)

lemma numbered_Cons: "numbered s ((n, d) # es) = (s + 1, n, d) # numbered (s + 1) es"
  by (rule nth_equalityI) (auto simp: numbered_def nth_enumerate_eq nth_Cons split: nat.splits)

lemma numbered_drop: "numbered (int m) (drop m es) = drop m (numbered 0 es)"
  by (rule nth_equalityI) (auto simp: numbered_def nth_enumerate_eq case_prod_unfold)

fun send_all :: "('u \<Rightarrow> string \<times> string option) \<Rightarrow> 'u list \<Rightarrow> sse_writer \<Rightarrow> stream_error option \<times> sse_writer" where
  "send_all enc [] sw = (None, sw)"
| "send_all enc (u # us) sw =
     (case sse_write (fst (enc u)) (snd (enc u)) sw of
        (Some e, sw') \<Rightarrow> (Some e, sw')
      | (None, sw') \<Rightarrow> send_all enc us sw')"

definition open_at :: "int \<Rightarrow> sse_writer \<Rightarrow> bool" where
  "open_at n sw \<longleftrightarrow> sse_plan sw = (\<lambda>_. ConnOpen) \<and> sse_seq sw = n"

lemma numbered_append: "numbered s (es @ fs) = numbered s es @ numbered (s + int (length es)) fs"
proof (induction es arbitrary: s)
  case Nil then show ?case by (simp add: numbered_def)
next
  case (Cons e es)
  obtain n d where e: "e = (n, d)" by (cases e)
  show ?case using Cons [of "s + 1"] by (simp add: e numbered_Cons add.assoc)
qed

lemma send_all_open:
  assumes "open_at n sw" "\<And>u. snd (enc u) \<noteq> None" "0 \<le> n" "n + int (length us) < 2 ^ 63 - 1"
  shows "\<exists>sw'. send_all enc us sw = (None, sw') \<and> open_at (n + int (length us)) sw' \<and>
     stream_events (sse_frames sw') = stream_events (sse_frames sw) @ numbered n (encoded enc us)"
  using assms
proof (induction us arbitrary: n sw)
  case Nil then show ?case by (simp add: numbered_def encoded_def)
next
  case (Cons u us)
  have w: "wrap64 (n + 1) = n + 1" using Cons.prems wrap64_small [of n 0] by simp
  obtain sw1 where w1: "sse_write (fst (enc u)) (snd (enc u)) sw = (None, sw1)" "open_at (n + 1) sw1"
    "stream_events (sse_frames sw1) = stream_events (sse_frames sw) @ [(n + 1, fst (enc u), the (snd (enc u)))]"
    using write_open [of sw "snd (enc u)" "fst (enc u)"] Cons.prems(1) Cons.prems(2) [of u] w unfolding open_at_def by metis
  obtain sw' where "send_all enc us sw1 = (None, sw')" "open_at (n + 1 + int (length us)) sw'"
    "stream_events (sse_frames sw') = stream_events (sse_frames sw1) @ numbered (n + 1) (encoded enc us)"
    using Cons.IH [OF w1(2) Cons.prems(2)] Cons.prems(3,4) by auto
  then show ?case using w1 by (intro exI [of _ sw']) (simp add: encoded_def numbered_Cons add.assoc)
qed

definition enc_total :: "('u \<Rightarrow> string \<times> string option) \<Rightarrow> bool" where
  "enc_total enc \<longleftrightarrow> (\<forall>u. snd (enc u) \<noteq> None)"

lemma send_all_openE:
  assumes "open_at n sw" "enc_total enc" "0 \<le> n" "n + int (length us) < 2 ^ 63 - 1"
  obtains sw' where "send_all enc us sw = (None, sw')" "open_at (n + int (length us)) sw'"
    "stream_events (sse_frames sw') = stream_events (sse_frames sw) @ numbered n (encoded enc us)"
proof -
  have "\<And>u. snd (enc u) \<noteq> None" using assms(2) by (simp add: enc_total_def)
  then show thesis using send_all_open [OF assms(1) _ assms(3,4)] that by blast
qed

section \<open>The handler's invariant\<close>

text \<open>
  The invariant: while the function runs, the events on the wire are the ones taken off its list, numbered on; later at most
  one error event follows, with a higher number.
\<close>

definition sse_inv :: "string \<Rightarrow> (stream_error \<Rightarrow> string) \<Rightarrow> int \<Rightarrow> (string \<times> string) list \<Rightarrow> sse_handler \<Rightarrow> bool" where
  "sse_inv errname enc s es h \<longleftrightarrow> (\<exists>sent. es = sent @ hs_todo h \<and>
     (hs_result h = None \<longrightarrow> stream_events (sse_frames (hs_writer h)) = numbered s sent \<and> sse_seq (hs_writer h) = s + int (length sent)) \<and>
     (\<forall>r. hs_result h = Some r \<longrightarrow>
        (stream_events (sse_frames (hs_writer h)) = numbered s sent \<and> (hs_over h \<or> s + int (length sent) \<le> sse_seq (hs_writer h) \<and>
         sse_seq (hs_writer h) \<le> s + int (length sent) + 1)) \<or>
        (hs_over h \<and> (\<exists>e i. i > s + int (length sent) \<and> stream_events (sse_frames (hs_writer h)) = numbered s sent @ [(i, errname, enc e)]))))"

lemma sse_inv_step:
  assumes "sse_step errname enc h g" "sse_inv errname enc s es h" "0 \<le> s" "s + int (length es) + 2 < 2 ^ 63"
  shows "sse_inv errname enc s es g"
  using assms(1)
proof cases
  case (send n d rest sw)
  obtain sent where sent: "es = sent @ (n, d) # rest" "stream_events (sse_frames (hs_writer h)) = numbered s sent"
    "sse_seq (hs_writer h) = s + int (length sent)" using assms(2) send(2,3) by (auto simp: sse_inv_def)
  have w: "wrap64 (s + int (length sent) + 1) = s + 1 + int (length sent)"
    using assms(3,4) sent(1) by (intro wrap64_small) simp_all
  have "stream_events (sse_frames sw) = numbered s (sent @ [(n, d)])" "sse_seq sw = s + int (length (sent @ [(n, d)]))"
    using write_ok_frame [OF send(4)] sent w by (simp_all add: numbered_snoc)
  then show ?thesis using send(1,2) sent(1) unfolding sse_inv_def by (intro exI [of _ "sent @ [(n, d)]"]) simp
next
  case (send_fails n d rest e sw)
  obtain sent where sent: "es = sent @ (n, d) # rest" "stream_events (sse_frames (hs_writer h)) = numbered s sent"
    "sse_seq (hs_writer h) = s + int (length sent)" using assms(2) send_fails(2,3) by (auto simp: sse_inv_def)
  have w: "wrap64 (s + int (length sent) + 1) = s + 1 + int (length sent)"
    using assms(3,4) sent(1) by (intro wrap64_small) simp_all
  show ?thesis
    using write_failed_frames [OF send_fails(4)] sent w send_fails(1,3) unfolding sse_inv_def
    by (intro exI [of _ sent]) auto
next
  case finish
  then show ?thesis using assms(2) by (auto simp: sse_inv_def)
next
  case (tick x sw)
  show ?thesis
    using assms(2) heartbeat_frames [OF tick(3)] tick(1,2) by (auto simp: sse_inv_def)
next
  case (report r)
  obtain sent where sent: "es = sent @ hs_todo h" "stream_events (sse_frames (hs_writer h)) = numbered s sent"
    "s + int (length sent) \<le> sse_seq (hs_writer h)" "sse_seq (hs_writer h) \<le> s + int (length sent) + 1"
    using assms(2) report(2,3) by (auto simp: sse_inv_def)
  show ?thesis
  proof (cases "report_result errname enc r (hs_writer h) = hs_writer h")
    case True then show ?thesis using report sent unfolding sse_inv_def by (intro exI [of _ sent]) simp
  next
    case False
    then obtain e where e: "report_result errname enc r (hs_writer h) = sse_Error errname enc e (hs_writer h)"
      by (auto simp: report_result_def split: option.splits if_splits)
    obtain y sw where wr: "sse_write errname (Some (enc e)) (hs_writer h) = (y, sw)" by fastforce
    have seq: "wrap64 (sse_seq (hs_writer h) + 1) = sse_seq (hs_writer h) + 1"
      using assms(3,4) sent wrap64_small [of s "nat (sse_seq (hs_writer h) - s)"] by simp
    show ?thesis
    proof (cases y)
      case None
      have "stream_events (sse_frames sw) = numbered s sent @ [(sse_seq (hs_writer h) + 1, errname, enc e)]"
        using write_ok_frame [OF wr [unfolded None]] sent seq by simp
      moreover have "sse_seq (hs_writer h) + 1 > s + int (length sent)" using sent by simp
      ultimately show ?thesis using report e wr sent(1) unfolding sse_inv_def
        by (intro exI [of _ sent]) (auto simp: sse_Error_def)
    next
      case (Some z)
      from write_failed_frames [OF wr [unfolded Some]] sent
      have "stream_events (sse_frames sw) = numbered s sent" by auto
      then show ?thesis using report e wr sent(1) unfolding sse_inv_def
        by (intro exI [of _ sent]) (auto simp: sse_Error_def)
    qed
  qed
next
  case stop
  then show ?thesis using assms(2) by (auto simp: sse_inv_def)
qed

definition sse_start :: "sse_handler \<Rightarrow> int \<Rightarrow> (string \<times> string) list \<Rightarrow> bool" where
  "sse_start h s es \<longleftrightarrow> hs_todo h = es \<and> hs_result h = None \<and> \<not> hs_over h \<and> sse_seq (hs_writer h) = s \<and> sse_frames (hs_writer h) = []"

lemma sse_reach_inv:
  assumes "sse_reach errname enc h g" "sse_start h s es" "0 \<le> s" "s + int (length es) + 2 < 2 ^ 63"
  shows "sse_inv errname enc s es g"
  using assms
proof (induction rule: sse_reach.induct)
  case (start h) then show ?case by (auto simp: sse_inv_def sse_start_def numbered_def)
next
  case (more h g k) then show ?case using sse_inv_step by blast
qed

text \<open>
  C26 (order of a stream). However sends and heartbeats interleave, whatever writes fail and whenever the client leaves: at every
  moment the events on the wire are an initial part of what the stream function sends, in its order, with consecutive
  ids from the resume point on, followed by at most one error event with a higher id.
\<close>

theorem sse_stream_order:
  assumes "sse_reach errname enc h g" "sse_start h s es" "0 \<le> s" "s + int (length es) + 2 < 2 ^ 63"
  shows "\<exists>sent rest. es = sent @ rest \<and>
    (stream_events (sse_frames (hs_writer g)) = numbered s sent \<or>
     (\<exists>e i. i > s + int (length sent) \<and> stream_events (sse_frames (hs_writer g)) = numbered s sent @ [(i, errname, enc e)]))"
proof -
  obtain sent where "es = sent @ hs_todo g" "stream_events (sse_frames (hs_writer g)) = numbered s sent \<or>
     (\<exists>e i. i > s + int (length sent) \<and> stream_events (sse_frames (hs_writer g)) = numbered s sent @ [(i, errname, enc e)])"
    using sse_reach_inv [OF assms] unfolding sse_inv_def by (cases "hs_result g") auto
  then show ?thesis by blast
qed

definition demo_stream :: sse_handler where
  "demo_stream = \<lparr>hs_writer = \<lparr>sse_seq = 4, sse_frames = [], sse_plan = (\<lambda>_. ConnOpen), sse_tries = 0\<rparr>,
     hs_todo = [(''cpu'', ''1'')], hs_end = None, hs_result = None, hs_over = False\<rparr>"

theorem sse_stream_order_witness:
  "\<exists>g sent rest. sse_reach ''error'' (\<lambda>_. []) demo_stream g \<and> [(''cpu'', ''1'')] = sent @ rest \<and>
     stream_events (sse_frames (hs_writer g)) = [(5, ''cpu'', ''1'')] \<and>
     (stream_events (sse_frames (hs_writer g)) = numbered 4 sent \<or>
      (\<exists>e i. i > 4 + int (length sent) \<and> stream_events (sse_frames (hs_writer g)) = numbered 4 sent @ [(i, ''error'', [])]))"
proof -
  obtain x sw where hb: "Heartbeat (hs_writer demo_stream) = (x, sw)" by fastforce
  then have sw: "sse_plan sw = (\<lambda>_. ConnOpen)" "sse_seq sw = 4" "stream_events (sse_frames sw) = []"
    by (auto simp: Heartbeat_def sse_next_def demo_stream_def)
  let ?h = "demo_stream\<lparr>hs_writer := sw, hs_over := (x \<noteq> None)\<rparr>"
  have s1: "sse_reach ''error'' (\<lambda>_. []) demo_stream ?h"
    using sse_reach.more [OF sse_reach.start sse_step.tick [OF _ hb]] by (simp add: demo_stream_def)
  obtain y sw2 where wr: "sse_write ''cpu'' (Some ''1'') sw = (y, sw2)" by fastforce
  then have y: "y = None" using sw by (auto simp: sse_write_def sse_next_def Let_def)
  have "wrap64 (4 + 1) = 5" by code_simp
  then have ev: "stream_events (sse_frames sw2) = [(5, ''cpu'', ''1'')]"
    using write_ok_frame [OF wr [unfolded y]] sw by simp
  have "hs_result ?h = None" "hs_todo ?h = (''cpu'', ''1'') # []" "sse_write ''cpu'' (Some ''1'') (hs_writer ?h) = (None, sw2)"
    using wr y by (simp_all add: demo_stream_def)
  from sse_reach.more [OF s1 sse_step.send [OF this]]
  have s2: "sse_reach ''error'' (\<lambda>_. []) demo_stream (?h\<lparr>hs_writer := sw2, hs_todo := []\<rparr>)" .
  have "sse_start demo_stream 4 [(''cpu'', ''1'')]" by (simp add: sse_start_def demo_stream_def)
  from sse_stream_order [OF s2 this] s2 ev show ?thesis by fastforce
qed

end
