(* ===== verification/Ports.thy ===== *)
theory Ports
  imports GoIp Sse Services
begin

text \<open>
  The listening ports of the node (\<^verbatim>\<open>internal/metrics/ports.go\<close> and the port stream of \<^verbatim>\<open>internal/metrics/streams.go\<close>). The kernel's
  tables under \<^verbatim>\<open>/proc/net\<close> give addresses, the port lister of an outside library gives ports and processes; the
  snapshot joins them. The answers of the lister are arguments.
\<close>

record listed_port =
  lp_Proto :: string
  lp_Port :: "16 word"
  lp_Process :: string
  lp_Pid :: int

record node_port =
  np_Addr :: string
  np_Port :: "16 word"
  np_Proto :: string
  np_PID :: int
  np_Process :: string

record socket_row =
  so_addr :: string
  so_port :: "16 word"
  so_proto :: string
  so_inode :: string

record net_file =
  nf_name :: string
  nf_proto :: string
  nf_ipv6 :: bool
  nf_remoteAny :: string
  nf_listenOnly :: bool

datatype ports_error = PortsIO io_error | ScanTooLong | PollFailed

section \<open>Socket tables\<close>

fun swap4 :: "8 word list \<Rightarrow> 8 word list" where
  "swap4 (a # b # c # d # r) = d # c # b # a # swap4 r"
| "swap4 _ = []"

definition decodeProcIP :: "string \<Rightarrow> bool \<Rightarrow> string option" where
  "decodeProcIP v ipv6 =
     (case hex_decode v of
        None \<Rightarrow> None
      | Some raw \<Rightarrow>
          if \<not> ipv6 then
            (if length raw \<noteq> 4 then None else Some (ip_text (v4_prefix @ [raw ! 3, raw ! 2, raw ! 1, raw ! 0])))
          else if length raw \<noteq> 16 then None
          else Some (ip_text (swap4 raw)))"

definition decodeSocketAddress :: "string \<Rightarrow> bool \<Rightarrow> (string \<times> 16 word) option" where
  "decodeSocketAddress v ipv6 =
     (case cut_at (CHR '':'') v of
        (host, portHex, ok) \<Rightarrow>
          if \<not> ok then None
          else (case parse_hex16 portHex of
                  None \<Rightarrow> None
                | Some p \<Rightarrow> map_option (\<lambda>ip. (ip, p)) (decodeProcIP host ipv6)))"

definition socket_line :: "net_file \<Rightarrow> string \<Rightarrow> socket_row option" where
  "socket_line cfg line =
     (let fs = go_fields line in
      if length fs < 10 then None
      else if nf_listenOnly cfg \<and> fs ! 3 \<noteq> ''0A'' then None
      else if fs ! 2 \<noteq> nf_remoteAny cfg then None
      else (case decodeSocketAddress (fs ! 1) (nf_ipv6 cfg) of
              None \<Rightarrow> None
            | Some (a, p) \<Rightarrow> Some \<lparr>so_addr = a, so_port = p, so_proto = nf_proto cfg, so_inode = fs ! 9\<rparr>))"

definition readSocketFile :: "string \<Rightarrow> net_file \<Rightarrow> world \<Rightarrow> (ports_error + socket_row list) \<times> world" where
  "readSocketFile path cfg w =
     (case os_ReadFile path w of
        (Inl x, w1) \<Rightarrow> (if x = ENOENT then Inr [] else Inl (PortsIO x), w1)
      | (Inr t, w1) \<Rightarrow>
          (case scan_lines t of
             (ls, tooLong) \<Rightarrow>
               (if tooLong then Inl ScanTooLong else Inr (List.map_filter (socket_line cfg) (drop 1 ls)), w1)))"

definition net_files :: "net_file list" where
  "net_files =
     [\<lparr>nf_name = ''tcp'', nf_proto = ''tcp'', nf_ipv6 = False, nf_remoteAny = ''00000000:0000'', nf_listenOnly = True\<rparr>,
      \<lparr>nf_name = ''tcp6'', nf_proto = ''tcp'', nf_ipv6 = True, nf_remoteAny = ''00000000000000000000000000000000:0000'', nf_listenOnly = True\<rparr>,
      \<lparr>nf_name = ''udp'', nf_proto = ''udp'', nf_ipv6 = False, nf_remoteAny = ''00000000:0000'', nf_listenOnly = False\<rparr>,
      \<lparr>nf_name = ''udp6'', nf_proto = ''udp'', nf_ipv6 = True, nf_remoteAny = ''00000000000000000000000000000000:0000'', nf_listenOnly = False\<rparr>]"

fun read_files :: "string \<Rightarrow> net_file list \<Rightarrow> world \<Rightarrow> (ports_error + socket_row list) \<times> world" where
  "read_files procRoot [] w = (Inr [], w)"
| "read_files procRoot (f # fs) w =
     (case readSocketFile (join_path [procRoot, ''net'', nf_name f]) f w of
        (Inl e, w1) \<Rightarrow> (Inl e, w1)
      | (Inr rows, w1) \<Rightarrow>
          (case read_files procRoot fs w1 of
             (Inl e, w2) \<Rightarrow> (Inl e, w2)
           | (Inr rest, w2) \<Rightarrow> (Inr (rows @ rest), w2)))"

definition readSockets :: "string \<Rightarrow> world \<Rightarrow> (ports_error + socket_row list) \<times> world" where
  "readSockets procRoot w = read_files procRoot net_files w"

section \<open>The snapshot\<close>

text \<open>Lower is better: any IPv4, any IPv6, loopback IPv4, loopback IPv6, then what does not parse.\<close>

definition socketAddrScore :: "string \<Rightarrow> nat" where
  "socketAddrScore addr =
     (case ParseIP addr of
        None \<Rightarrow> 4
      | Some bs \<Rightarrow>
          (case to4 bs of
             Some b4 \<Rightarrow> if is_loopback b4 then 2 else 0
           | None \<Rightarrow> if is_loopback bs then 3 else 1))"

fun best_addr :: "socket_row \<Rightarrow> nat \<Rightarrow> socket_row list \<Rightarrow> socket_row" where
  "best_addr best score [] = best"
| "best_addr best score (s # ss) =
     (let sc = socketAddrScore (so_addr s) in
      if sc < score then best_addr s sc ss else best_addr best score ss)"

fun selectSocketAddr :: "socket_row list \<Rightarrow> string" where
  "selectSocketAddr [] = []"
| "selectSocketAddr (s # ss) = so_addr (best_addr s (socketAddrScore (so_addr s)) ss)"

text \<open>The map from protocol and port to the sockets, read at one key.\<close>

definition sockets_at :: "socket_row list \<Rightarrow> string \<Rightarrow> 16 word \<Rightarrow> socket_row list" where
  "sockets_at sockets proto port = filter (\<lambda>s. so_proto s = proto \<and> so_port s = port) sockets"

definition join_port :: "socket_row list \<Rightarrow> listed_port \<Rightarrow> node_port" where
  "join_port sockets p =
     \<lparr>np_Addr = selectSocketAddr (sockets_at sockets (lp_Proto p) (lp_Port p)), np_Port = lp_Port p,
      np_Proto = lp_Proto p, np_PID = lp_Pid p, np_Process = lp_Process p\<rparr>"

definition buildSnapshot :: "listed_port list \<Rightarrow> socket_row list \<Rightarrow> node_port list" where
  "buildSnapshot ports sockets = map (join_port sockets) ports"

record snapshotter =
  ps_procRoot :: string
  ps_poller :: bool
  ps_cached :: "listed_port list"

text \<open>The lister answers with an error or with its ports and whether they changed since the last time.\<close>

type_synonym poll_answer = "(listed_port list \<times> bool) option"

definition ports_poll :: "poll_answer \<Rightarrow> snapshotter \<Rightarrow> (ports_error + listed_port list) \<times> snapshotter" where
  "ports_poll ans p =
     (if \<not> ps_poller p then (Inr [], p)
      else (case ans of
              None \<Rightarrow> (Inl PollFailed, p)
            | Some (ports, changed) \<Rightarrow>
                (let p' = (if changed then p\<lparr>ps_cached := ports\<rparr> else p) in (Inr (ps_cached p'), p'))))"

text \<open>The comparison uses every field, so the order of the result is fixed.\<close>

definition port_key :: "node_port \<Rightarrow> 16 word \<times> string \<times> string \<times> int \<times> string" where
  "port_key p = (np_Port p, np_Addr p, np_Proto p, np_PID p, np_Process p)"

definition ports_Snapshot :: "poll_answer \<Rightarrow> snapshotter \<Rightarrow> world \<Rightarrow> (ports_error + node_port slice) \<times> snapshotter \<times> world" where
  "ports_Snapshot ans p w =
     (case readSockets (ps_procRoot p) w of
        (Inl e, w1) \<Rightarrow> (Inl e, p, w1)
      | (Inr sockets, w1) \<Rightarrow>
          (case ports_poll ans p of
             (Inl e, p1) \<Rightarrow> (Inl e, p1, w1)
           | (Inr ports, p1) \<Rightarrow>
               if ports = [] then (Inr None, p1, w1)
               else (Inr (Some (sort_key port_key (buildSnapshot ports sockets))), p1, w1)))"

section \<open>The stream\<close>

definition portIdentity :: "node_port \<Rightarrow> string" where
  "portIdentity p = np_Addr p @ ''|'' @ np_Proto p @ ''|'' @ int_to_dec (uint (np_Port p))"

text \<open>\<open>sort.Slice\<close> leaves the order of ports that differ in the protocol only open; here it is that of the snapshot.\<close>

definition diffPorts :: "node_port list \<Rightarrow> node_port list \<Rightarrow> node_port list" where
  "diffPorts before after =
     sort_key (\<lambda>p. (np_Port p, np_Addr p, np_PID p, np_Process p))
       (filter (\<lambda>p. portIdentity p \<notin> set (map portIdentity before)) after)"

datatype port_update = PortsAre "node_port slice" | PortBound node_port | PortReleased node_port

definition slice_list :: "'a slice \<Rightarrow> 'a list" where
  "slice_list s = (case s of None \<Rightarrow> [] | Some xs \<Rightarrow> xs)"

text \<open>What the sampler answers at each tick; where the list ends the request is cancelled.\<close>

fun ports_ticks :: "(port_update \<Rightarrow> string \<times> string option) \<Rightarrow> (ports_error \<Rightarrow> string) \<Rightarrow> node_port slice \<Rightarrow> (ports_error + node_port slice) list \<Rightarrow>
    sse_writer \<Rightarrow> stream_error option \<times> sse_writer" where
  "ports_ticks enc msg prev [] sw = (Some Canceled, sw)"
| "ports_ticks enc msg prev (Inl e # obs) sw = (Some (StreamFailed (msg e)), sw)"
| "ports_ticks enc msg prev (Inr cur # obs) sw =
     (case send_all enc (map PortBound (diffPorts (slice_list prev) (slice_list cur))) sw of
        (Some e, sw1) \<Rightarrow> (Some e, sw1)
      | (None, sw1) \<Rightarrow>
          (case send_all enc (map PortReleased (diffPorts (slice_list cur) (slice_list prev))) sw1 of
             (Some e, sw2) \<Rightarrow> (Some e, sw2)
           | (None, sw2) \<Rightarrow> ports_ticks enc msg cur obs sw2))"

definition ports_stream :: "(port_update \<Rightarrow> string \<times> string option) \<Rightarrow> (ports_error \<Rightarrow> string) \<Rightarrow> (ports_error + node_port slice) list \<Rightarrow>
    sse_writer \<Rightarrow> stream_error option \<times> sse_writer" where
  "ports_stream enc msg obs sw =
     (case obs of
        [] \<Rightarrow> (Some Canceled, sw)
      | Inl e # _ \<Rightarrow> (Some (StreamFailed (msg e)), sw)
      | Inr cur # obs' \<Rightarrow>
          (case send_all enc [PortsAre cur] sw of
             (Some e, sw1) \<Rightarrow> (Some e, sw1)
           | (None, sw1) \<Rightarrow> ports_ticks enc msg cur obs' sw1))"

section \<open>Reading what the kernel wrote\<close>

text \<open>
  The kernel prints an address as 32-bit words in the byte order of the machine, here the little-endian one, in upper case, and
  the port with four digits.
\<close>

definition kernel_port :: "16 word \<Rightarrow> string" where
  "kernel_port p = (let n = unat p in
     map (hex_char True) [n div 4096, n div 256 mod 16, n div 16 mod 16, n mod 16])"

definition kernel_address :: "ip_bytes \<Rightarrow> 16 word \<Rightarrow> string" where
  "kernel_address bs p = hex_bytes True (swap4 bs) @ CHR '':'' # kernel_port p"

lemma swap4_swap4: "length bs mod 4 = 0 \<Longrightarrow> swap4 (swap4 bs) = bs"
  by (induction bs rule: swap4.induct) (simp_all add: mod_Suc split: if_splits)

lemma swap4_length: "length bs mod 4 = 0 \<Longrightarrow> length (swap4 bs) = length bs"
  by (induction bs rule: swap4.induct) (simp_all add: mod_Suc split: if_splits)

lemma four_digits: "4096 * (n div 4096) + 256 * (n div 256 mod 16) + 16 * (n div 16 mod 16) + n mod 16 = (n :: nat)"
proof -
  have "n div 4096 = n div 256 div 16" "n div 256 = n div 16 div 16" by (simp_all flip: div_mult2_eq)
  then show ?thesis
    using mult_div_mod_eq [of 16 n] mult_div_mod_eq [of 16 "n div 16"] mult_div_mod_eq [of 16 "n div 256"] by linarith
qed

lemma parse_kernel_port: "parse_hex16 (kernel_port p) = Some p"
proof -
  have "unat p < 2 ^ LENGTH(16)" by (rule unsigned_less)
  then have n: "unat p < 65536" by simp
  then have d: "unat p div 4096 < 16" by simp
  have "hex_number (kernel_port p) = unat p"
    using d four_digits [of "unat p"] by (simp add: kernel_port_def hex_number_def Let_def)
  moreover have "list_all is_hex (kernel_port p)" "kernel_port p \<noteq> []"
    using d by (simp_all add: kernel_port_def Let_def)
  moreover have "uint p < 2 ^ LENGTH(16)" by (rule unsigned_less)
  ultimately show ?thesis by (simp add: parse_hex16_def)
qed

lemma hex_bytes_no_colon: "CHR '':'' \<notin> set (hex_bytes u bs)"
proof -
  have "CHR '':'' \<noteq> hex_char u n" if "n < 16" for n
    using is_hex_char [OF that, of u] hex_no(4) by auto
  moreover have "unat b div 16 < 16" for b :: "8 word" using byte_bound [of b] by simp
  ultimately show ?thesis by (auto simp: hex_bytes_def)
qed

lemma ip_text_v4: "length bs = 4 \<Longrightarrow> ip_text (v4_prefix @ bs) = ip_text bs"
  by (simp add: ip_text_def to4_def v4_prefix_def)

lemma kernel_address_decodes:
  assumes "length bs = (if ipv6 then 16 else 4)"
  shows "decodeSocketAddress (kernel_address bs p) ipv6 = Some (ip_text bs, p)"
proof -
  have m: "length bs mod 4 = 0" using assms by (cases ipv6) simp_all
  have "decodeProcIP (hex_bytes True (swap4 bs)) ipv6 = Some (ip_text bs)"
  proof (cases ipv6)
    case True then show ?thesis using assms m by (simp add: decodeProcIP_def swap4_swap4 swap4_length)
  next
    case False
    then obtain a b c d where "bs = [a, b, c, d]" using assms by (auto simp: length_Suc_conv numeral_eq_Suc)
    then show ?thesis using False ip_text_v4 [of bs] by (simp add: decodeProcIP_def)
  qed
  then show ?thesis using parse_kernel_port [of p] hex_bytes_no_colon [of True "swap4 bs"]
    by (auto simp: decodeSocketAddress_def kernel_address_def cut_at_def takeWhile_append dropWhile_append split: if_splits)
qed

text \<open>
  Socket addresses: What the kernel prints for an address and port is decoded to the text of the address and to the
  port, for IPv4 and IPv6, and the address can be read back from its text.
\<close>

theorem socket_address_roundtrip:
  assumes "length bs = (if ipv6 then 16 else 4)"
  shows "decodeSocketAddress (kernel_address bs p) ipv6 = Some (ip_text bs, p) \<and> ParseIP (ip_text bs) = Some (to16 bs)"
  using kernel_address_decodes [OF assms] ParseIP_text [of bs] assms by (cases ipv6) simp_all

theorem socket_address_roundtrip_witness:
  "decodeSocketAddress ''0100007F:1F90'' False = Some (''127.0.0.1'', 8080) \<and>
   ParseIP (ip_text [127, 0, 0, 1]) = Some (v4_prefix @ [127, 0, 0, 1])"
proof -
  have "kernel_address [127, 0, 0, 1] 8080 = ''0100007F:1F90''"
    by (simp add: kernel_address_def kernel_port_def hex_bytes_def hex_char_def Let_def)
  moreover have "ip_text [127, 0, 0, 1] = ''127.0.0.1''" "to16 [127, 0, 0, 1] = v4_prefix @ [127, 0, 0, 1]" by code_simp+
  ultimately show ?thesis using socket_address_roundtrip [of "[127, 0, 0, 1]" False 8080] by simp
qed

text \<open>A line of the table: slot, local address, remote address, state, five more fields, inode, and the rest.\<close>

record kernel_socket =
  ks_slot :: string
  ks_addr :: ip_bytes
  ks_port :: "16 word"
  ks_remote :: string
  ks_state :: string
  ks_five :: "string list"
  ks_inode :: string
  ks_rest :: "string list"

definition kernel_words :: "kernel_socket \<Rightarrow> string list" where
  "kernel_words k = [ks_slot k, kernel_address (ks_addr k) (ks_port k), ks_remote k, ks_state k] @ ks_five k @ [ks_inode k] @ ks_rest k"

definition kernel_line :: "kernel_socket \<Rightarrow> string" where
  "kernel_line k = join_with (CHR '' '') (kernel_words k)"

definition is_word :: "string \<Rightarrow> bool" where
  "is_word s \<longleftrightarrow> s \<noteq> [] \<and> list_all (\<lambda>ch. \<not> is_space ch) s"

definition kernel_ok :: "bool \<Rightarrow> kernel_socket \<Rightarrow> bool" where
  "kernel_ok ipv6 k \<longleftrightarrow> length (ks_addr k) = (if ipv6 then 16 else 4) \<and> length (ks_five k) = 5 \<and>
     list_all is_word (kernel_words k) \<and> scan_fits (kernel_line k)"

definition plain_line :: "string \<Rightarrow> bool" where
  "plain_line l \<longleftrightarrow> CHR 0x0A \<notin> set l \<and> CHR 0x0D \<notin> set l \<and> scan_fits l"

definition listening :: "net_file \<Rightarrow> kernel_socket \<Rightarrow> bool" where
  "listening cfg k \<longleftrightarrow> (nf_listenOnly cfg \<longrightarrow> ks_state k = ''0A'') \<and> ks_remote k = nf_remoteAny cfg"

definition kernel_row :: "net_file \<Rightarrow> kernel_socket \<Rightarrow> socket_row" where
  "kernel_row cfg k = \<lparr>so_addr = ip_text (ks_addr k), so_port = ks_port k, so_proto = nf_proto cfg, so_inode = ks_inode k\<rparr>"

definition table_text :: "string \<Rightarrow> kernel_socket list \<Rightarrow> string" where
  "table_text header ks = concat (map (\<lambda>l. l @ [CHR 0x0A]) (header # map kernel_line ks))"

lemma set_join_with: "set (join_with ch fs) \<subseteq> insert ch (\<Union> (set ` set fs))"
  by (induction ch fs rule: join_with.induct) auto

lemma kernel_line_row:
  assumes "kernel_ok (nf_ipv6 cfg) k"
  shows "socket_line cfg (kernel_line k) = (if listening cfg k then Some (kernel_row cfg k) else None)"
proof -
  have w: "go_fields (kernel_line k) = kernel_words k"
    using assms words_join [of "kernel_words k"] by (simp add: go_fields_def kernel_line_def kernel_ok_def is_word_def list_all_iff)
  have "length (ks_five k) = 5" using assms by (simp add: kernel_ok_def)
  then obtain f1 f2 f3 f4 f5 where five: "ks_five k = [f1, f2, f3, f4, f5]"
    by (auto simp: length_Suc_conv numeral_eq_Suc)
  have "decodeSocketAddress (kernel_address (ks_addr k) (ks_port k)) (nf_ipv6 cfg) = Some (ip_text (ks_addr k), ks_port k)"
    using assms by (intro kernel_address_decodes) (simp add: kernel_ok_def)
  then show ?thesis unfolding socket_line_def w Let_def
    by (simp add: kernel_words_def five listening_def kernel_row_def)
qed

lemma kernel_line_plain:
  assumes "kernel_ok ipv6 k" shows "plain_line (kernel_line k)"
proof -
  have "\<not> is_space ch \<or> ch = CHR '' ''" if "ch \<in> set (kernel_line k)" for ch
    using that set_join_with [of "CHR '' ''" "kernel_words k"] assms
    by (fastforce simp: kernel_line_def kernel_ok_def is_word_def list_all_iff)
  then show ?thesis using assms by (auto simp: plain_line_def kernel_ok_def is_space_def)
qed

text \<open>
  Socket tables: From a table as the kernel prints it, header line and one line for each socket, exactly the sockets that listen
  without a peer are read (for UDP those without a peer), in order, with address, port and inode, and no other line.
\<close>

theorem proc_table_read:
  assumes "os_ReadFile path w = (Inr (table_text header ks), w1)"
    and "plain_line header" "list_all (kernel_ok (nf_ipv6 cfg)) ks"
  shows "readSocketFile path cfg w = (Inr (map (kernel_row cfg) (filter (listening cfg) ks)), w1)"
proof -
  have "list_all plain_line (header # map kernel_line ks)"
    using assms(2,3) kernel_line_plain by (auto simp: list_all_iff)
  then have "scan_lines (table_text header ks) = (header # map kernel_line ks, False)"
    unfolding table_text_def plain_line_def by (rule scan_lines_text)
  moreover have "List.map_filter (socket_line cfg) (map kernel_line ks) = map (kernel_row cfg) (filter (listening cfg) ks)"
    using assms(3) by (induction ks) (simp_all add: kernel_line_row)
  ultimately show ?thesis using assms(1) by (simp add: readSocketFile_def)
qed

text \<open>Two listeners and an established connection in the IPv4 table.\<close>

definition demo_socket :: "8 word \<Rightarrow> 16 word \<Rightarrow> string \<Rightarrow> string \<Rightarrow> kernel_socket" where
  "demo_socket b p remote st = \<lparr>ks_slot = ''0:'', ks_addr = [b, 0, 0, 1], ks_port = p, ks_remote = remote, ks_state = st,
     ks_five = [''0:0'', ''0:0'', ''0'', ''1000'', ''0''], ks_inode = ''12345'', ks_rest = [''1'']\<rparr>"

definition demo_table :: "kernel_socket list" where
  "demo_table = [demo_socket 127 8080 ''00000000:0000'' ''0A'', demo_socket 10 443 ''0100000A:0050'' ''01'']"

theorem proc_table_read_witness:
  "readSocketFile ''/proc/net/tcp'' (net_files ! 0)
      \<lparr>w_files = [(''/proc/net/tcp'', \<lparr>f_data = table_text ''sl'' demo_table, f_perm = 0\<rparr>)], w_temps = [], w_dirs = [],
       w_clock = 0, w_fault = (\<lambda>_. Fine), w_dead = False\<rparr> =
     (Inr [\<lparr>so_addr = ''127.0.0.1'', so_port = 8080, so_proto = ''tcp'', so_inode = ''12345''\<rparr>],
      \<lparr>w_files = [(''/proc/net/tcp'', \<lparr>f_data = table_text ''sl'' demo_table, f_perm = 0\<rparr>)], w_temps = [], w_dirs = [],
       w_clock = 1, w_fault = (\<lambda>_. Fine), w_dead = False\<rparr>)"
proof -
  let ?w = "\<lambda>n. \<lparr>w_files = [(''/proc/net/tcp'', \<lparr>f_data = table_text ''sl'' demo_table, f_perm = 0\<rparr>)], w_temps = [], w_dirs = [],
       w_clock = n, w_fault = (\<lambda>_. Fine), w_dead = False\<rparr>"
  have "os_ReadFile ''/proc/net/tcp'' (?w 0) = (Inr (table_text ''sl'' demo_table), ?w 1)"
  proof -
    have "clean ''/proc/net/tcp'' = ''/proc/net/tcp''" by code_simp
    then show ?thesis by (simp add: os_ReadFile_def io_call_def get_file_def)
  qed
  moreover have "plain_line ''sl''" by code_simp
  moreover have "list_all (kernel_ok (nf_ipv6 (net_files ! 0))) demo_table"
    by (simp add: demo_table_def demo_socket_def kernel_ok_def net_files_def kernel_words_def kernel_line_def is_word_def
        kernel_address_def kernel_port_def hex_bytes_def hex_char_def is_space_def scan_fits_def Let_def)
  moreover have "map (kernel_row (net_files ! 0)) (filter (listening (net_files ! 0)) demo_table) =
      [\<lparr>so_addr = ''127.0.0.1'', so_port = 8080, so_proto = ''tcp'', so_inode = ''12345''\<rparr>]"
    by code_simp
  ultimately show ?thesis
    using proc_table_read [of "''/proc/net/tcp''" "?w 0" "''sl''" demo_table "?w 1" "net_files ! 0"] by simp
qed

section \<open>The snapshot is the joined list\<close>

lemma best_addr_spec:
  assumes "score = socketAddrScore (so_addr best)"
  shows "best_addr best score ss \<in> set (best # ss) \<and>
    (\<forall>t \<in> set (best # ss). socketAddrScore (so_addr (best_addr best score ss)) \<le> socketAddrScore (so_addr t))"
  using assms
proof (induction ss arbitrary: best score)
  case (Cons s ss)
  show ?case
  proof (cases "socketAddrScore (so_addr s) < score")
    case True
    with Cons.IH [of "socketAddrScore (so_addr s)" s] Cons.prems show ?thesis by (auto simp: Let_def intro: order.trans less_imp_le)
  next
    case False
    with Cons.IH [of score best] Cons.prems show ?thesis by (auto simp: Let_def intro: order.trans)
  qed
qed simp

lemma selectSocketAddr_spec:
  "ss = [] \<and> selectSocketAddr ss = [] \<or>
   (\<exists>s \<in> set ss. selectSocketAddr ss = so_addr s \<and> (\<forall>t \<in> set ss. socketAddrScore (so_addr s) \<le> socketAddrScore (so_addr t)))"
proof (cases ss)
  case (Cons s r)
  then show ?thesis using best_addr_spec [of "socketAddrScore (so_addr s)" s r] by auto
qed simp

definition listed :: "node_port \<Rightarrow> listed_port" where
  "listed p = \<lparr>lp_Proto = np_Proto p, lp_Port = np_Port p, lp_Process = np_Process p, lp_Pid = np_PID p\<rparr>"

definition best_listener :: "socket_row list \<Rightarrow> node_port \<Rightarrow> bool" where
  "best_listener sockets p \<longleftrightarrow>
     (let ss = sockets_at sockets (np_Proto p) (np_Port p) in
      ss = [] \<and> np_Addr p = [] \<or>
      (\<exists>s \<in> set ss. np_Addr p = so_addr s \<and> (\<forall>t \<in> set ss. socketAddrScore (so_addr s) \<le> socketAddrScore (so_addr t))))"

lemma listed_join [simp]: "listed (join_port sockets p) = p"
  by (simp add: listed_def join_port_def)

lemma best_listener_join: "best_listener sockets (join_port sockets p)"
  using selectSocketAddr_spec [of "sockets_at sockets (lp_Proto p) (lp_Port p)"]
  by (auto simp: best_listener_def join_port_def Let_def)

text \<open>
  The port snapshot: A snapshot that succeeds lists each port of the last change the lister reported exactly as often as the lister
  did, in the order of port, address, protocol and process, each with the best address among the sockets that have its protocol and
  port, or with none where there is no socket; without ports it is the nil slice.
\<close>

theorem ports_snapshot_spec:
  assumes "ports_Snapshot ans p w = (Inr r, p', w')"
  shows "\<exists>sockets. fst (readSockets (ps_procRoot p) w) = Inr sockets \<and>
    mset (map listed (slice_list r)) = mset (if ps_poller p then ps_cached p' else []) \<and>
    sorted (map port_key (slice_list r)) \<and> (\<forall>q \<in> set (slice_list r). best_listener sockets q) \<and>
    (r = None \<longleftrightarrow> slice_list r = []) \<and>
    (ps_poller p \<longrightarrow> (\<exists>ports changed. ans = Some (ports, changed) \<and> ps_cached p' = (if changed then ports else ps_cached p)))"
proof -
  obtain sockets w1 where so: "readSockets (ps_procRoot p) w = (Inr sockets, w1)"
    using assms by (cases "readSockets (ps_procRoot p) w"; cases "fst (readSockets (ps_procRoot p) w)") (auto simp: ports_Snapshot_def)
  obtain ports where po: "ports_poll ans p = (Inr ports, p')"
    and r: "r = (if ports = [] then None else Some (sort_key port_key (buildSnapshot ports sockets)))"
    using assms so by (auto simp: ports_Snapshot_def split: prod.splits sum.splits if_splits)
  have ports: "ports = (if ps_poller p then ps_cached p' else [])"
    using po by (auto simp: ports_poll_def Let_def split: option.splits prod.splits if_splits)
  have "slice_list r = sort_key port_key (buildSnapshot ports sockets)"
    using r by (simp add: slice_list_def buildSnapshot_def)
  then have f: "mset (map listed (slice_list r)) = mset ports" "sorted (map port_key (slice_list r))"
    "\<forall>q \<in> set (slice_list r). best_listener sockets q" "length (slice_list r) = length ports"
    using best_listener_join by (simp_all add: buildSnapshot_def image_mset.compositionality comp_def)
  have g: "ps_poller p \<longrightarrow> (\<exists>ports changed. ans = Some (ports, changed) \<and> ps_cached p' = (if changed then ports else ps_cached p))"
  proof
    assume "ps_poller p"
    with po obtain a where a: "ans = Some a" by (cases ans) (simp_all add: ports_poll_def)
    with po \<open>ps_poller p\<close> have "p' = (if snd a then p\<lparr>ps_cached := fst a\<rparr> else p)"
      by (cases a) (auto simp: ports_poll_def Let_def)
    then have "ps_cached p' = (if snd a then fst a else ps_cached p)" by simp
    with a show "\<exists>ports changed. ans = Some (ports, changed) \<and> ps_cached p' = (if changed then ports else ps_cached p)"
      by (intro exI [of _ "fst a"] exI [of _ "snd a"]) simp
  qed
  have h: "r = None \<longleftrightarrow> slice_list r = []"
  proof (cases "ports = []")
    case True then show ?thesis by (simp add: r slice_list_def)
  next
    case False
    then have "r \<noteq> None" "length (slice_list r) \<noteq> 0" unfolding f(4) by (simp_all add: r)
    then show ?thesis by simp
  qed
  show ?thesis
    by (rule exI [of _ sockets], intro conjI) (use so in simp, rule f(1) [unfolded ports], rule f(2), rule f(3), rule h, rule g)
qed

text \<open>The IPv4 listener of the table wins over the IPv6 loopback one, and the ports are ordered by number.\<close>

definition demo_proc :: world where
  "demo_proc = \<lparr>w_files = [(''/proc/net/tcp'', \<lparr>f_data = ''x'' @ [CHR 0x0A] @
       ''0: 00000000:0050 00000000:0000 0A 0:0 0:0 0 0 0 77 1'' @ [CHR 0x0A], f_perm = 0\<rparr>)], w_temps = [], w_dirs = [],
     w_clock = 0, w_fault = (\<lambda>_. Fine), w_dead = False\<rparr>"

definition demo_poll :: poll_answer where
  "demo_poll = Some ([\<lparr>lp_Proto = ''udp'', lp_Port = 5353, lp_Process = ''m'', lp_Pid = 2\<rparr>,
     \<lparr>lp_Proto = ''tcp'', lp_Port = 80, lp_Process = ''n'', lp_Pid = 1\<rparr>], True)"

theorem ports_snapshot_spec_witness:
  "\<exists>p' w'. ports_Snapshot demo_poll \<lparr>ps_procRoot = ''/proc'', ps_poller = True, ps_cached = []\<rparr> demo_proc =
     (Inr (Some [\<lparr>np_Addr = ''0.0.0.0'', np_Port = 80, np_Proto = ''tcp'', np_PID = 1, np_Process = ''n''\<rparr>,
                 \<lparr>np_Addr = [], np_Port = 5353, np_Proto = ''udp'', np_PID = 2, np_Process = ''m''\<rparr>]), p', w') \<and>
   (\<exists>sockets. fst (readSockets ''/proc'' demo_proc) = Inr sockets \<and>
      best_listener sockets \<lparr>np_Addr = ''0.0.0.0'', np_Port = 80, np_Proto = ''tcp'', np_PID = 1, np_Process = ''n''\<rparr>)"
proof -
  let ?r = "ports_Snapshot demo_poll \<lparr>ps_procRoot = ''/proc'', ps_poller = True, ps_cached = []\<rparr> demo_proc"
  let ?ps = "[\<lparr>np_Addr = ''0.0.0.0'', np_Port = 80, np_Proto = ''tcp'', np_PID = 1, np_Process = ''n''\<rparr>,
              \<lparr>np_Addr = [], np_Port = 5353, np_Proto = ''udp'', np_PID = 2, np_Process = ''m''\<rparr>] :: node_port list"
  have "fst ?r = Inr (Some ?ps)" by code_simp
  then have run: "?r = (Inr (Some ?ps), fst (snd ?r), snd (snd ?r))" by (cases ?r) simp
  obtain sockets where "fst (readSockets ''/proc'' demo_proc) = Inr sockets" "\<forall>q \<in> set (slice_list (Some ?ps)). best_listener sockets q"
    using ports_snapshot_spec [OF run] by auto
  with run show ?thesis by (fastforce simp: slice_list_def)
qed

section \<open>A client of the stream\<close>

definition port_ids :: "node_port slice \<Rightarrow> string set" where
  "port_ids s = set (map portIdentity (slice_list s))"

text \<open>A client keeps the ports under their identity.\<close>

fun client_apply :: "port_update \<Rightarrow> (string \<rightharpoonup> node_port) \<Rightarrow> (string \<rightharpoonup> node_port)" where
  "client_apply (PortsAre s) m = map_of (map (\<lambda>p. (portIdentity p, p)) (slice_list s))"
| "client_apply (PortBound p) m = m(portIdentity p \<mapsto> p)"
| "client_apply (PortReleased p) m = m(portIdentity p := None)"

definition port_changes :: "node_port slice \<Rightarrow> node_port slice \<Rightarrow> port_update list" where
  "port_changes prev cur =
     map PortBound (diffPorts (slice_list prev) (slice_list cur)) @ map PortReleased (diffPorts (slice_list cur) (slice_list prev))"

fun port_updates :: "node_port slice \<Rightarrow> node_port slice list \<Rightarrow> port_update list" where
  "port_updates prev [] = []"
| "port_updates prev (cur # obs) = port_changes prev cur @ port_updates cur obs"

lemma diffPorts_ids: "portIdentity ` set (diffPorts a b) = set (map portIdentity b) - set (map portIdentity a)"
  by (auto simp: diffPorts_def)

lemma dom_bound: "dom (fold client_apply (map PortBound ps) m) = dom m \<union> portIdentity ` set ps"
  by (induction ps arbitrary: m) auto

lemma dom_released: "dom (fold client_apply (map PortReleased ps) m) = dom m - portIdentity ` set ps"
  by (induction ps arbitrary: m) auto

lemma port_changes_ids: "dom m = port_ids prev \<Longrightarrow> dom (fold client_apply (port_changes prev cur) m) = port_ids cur"
  by (auto simp: port_changes_def dom_bound dom_released diffPorts_ids port_ids_def)

lemma port_updates_ids: "dom m = port_ids prev \<Longrightarrow> dom (fold client_apply (port_updates prev obs) m) = port_ids (last (prev # obs))"
  by (induction obs arbitrary: prev m) (simp_all add: port_changes_ids)

lemma diffPorts_same: "set (map portIdentity b) \<subseteq> set (map portIdentity a) \<Longrightarrow> diffPorts a b = []"
  proof -
  assume "set (map portIdentity b) \<subseteq> set (map portIdentity a)"
  then have "filter (\<lambda>p. portIdentity p \<notin> set (map portIdentity a)) b = []" by (auto simp: filter_empty_conv)
  then show ?thesis by (simp add: diffPorts_def)
qed

lemma port_updates_quiet: "\<forall>s \<in> set obs. port_ids s = port_ids prev \<Longrightarrow> port_updates prev obs = []"
proof (induction obs arbitrary: prev)
  case (Cons cur obs)
  then have "port_changes prev cur = []" by (simp add: port_changes_def port_ids_def diffPorts_same)
  with Cons show ?case by simp
qed simp

lemma ports_ticks_open:
  assumes "open_at n sw" "enc_total enc" "0 \<le> n" "n + int (length (port_updates prev obs)) < 2 ^ 63 - 1"
  shows "\<exists>sw'. ports_ticks enc msg prev (map Inr obs) sw = (Some Canceled, sw') \<and>
     stream_events (sse_frames sw') = stream_events (sse_frames sw) @ numbered n (encoded enc (port_updates prev obs))"
  using assms
proof (induction obs arbitrary: n prev sw)
  case Nil then show ?case by (simp add: numbered_def encoded_def)
next
  case (Cons cur obs)
  let ?b = "map PortBound (diffPorts (slice_list prev) (slice_list cur))"
  let ?r = "map PortReleased (diffPorts (slice_list cur) (slice_list prev))"
  have len: "length (port_updates prev (cur # obs)) = length ?b + length ?r + length (port_updates cur obs)"
    by (simp add: port_changes_def)
  obtain sw1 where s1: "send_all enc ?b sw = (None, sw1)" "open_at (n + int (length ?b)) sw1"
    "stream_events (sse_frames sw1) = stream_events (sse_frames sw) @ numbered n (encoded enc ?b)"
    using send_all_openE [OF Cons.prems(1,2,3), of ?b] Cons.prems(4) len by auto
  have n1: "0 \<le> n + int (length ?b)" using Cons.prems(3) by simp
  obtain sw2 where s2: "send_all enc ?r sw1 = (None, sw2)" "open_at (n + int (length ?b) + int (length ?r)) sw2"
    "stream_events (sse_frames sw2) = stream_events (sse_frames sw1) @ numbered (n + int (length ?b)) (encoded enc ?r)"
    using send_all_openE [OF s1(2) Cons.prems(2) n1, of ?r] Cons.prems(4) len by auto
  have n2: "0 \<le> n + int (length ?b) + int (length ?r)" using Cons.prems(3) by simp
  obtain sw' where "ports_ticks enc msg cur (map Inr obs) sw2 = (Some Canceled, sw')"
    "stream_events (sse_frames sw') = stream_events (sse_frames sw2) @
       numbered (n + int (length ?b) + int (length ?r)) (encoded enc (port_updates cur obs))"
    using Cons.IH [OF s2(2) Cons.prems(2) n2, of cur] Cons.prems(4) len by (auto simp: add.assoc)
  then show ?case using s1 s2
    by (intro exI [of _ sw']) (simp add: port_changes_def encoded_def numbered_append add.assoc)
qed


definition demo_port :: "16 word \<Rightarrow> int \<Rightarrow> node_port" where
  "demo_port n pid = \<lparr>np_Addr = ''0.0.0.0'', np_Port = n, np_Proto = ''tcp'', np_PID = pid, np_Process = ''p''\<rparr>"


end
