(* ===== verification/Metrics.thy ===== *)
theory Metrics
  imports Ports Config
begin

text \<open>
  The metrics endpoints (\<^verbatim>\<open>internal/metrics/handlers.go, streams.go\<close>). What the measuring library answers at a request is a
  record of arguments, with opaque results as strings; percentages are of a type \<open>'f\<close> with the operations
  the code uses of \<^verbatim>\<open>float64\<close>. The samplers that tests plug in are absent.
\<close>

record 'f proc_probe =
  pp_Pid :: int
  pp_Name :: "string option"
  pp_CPU :: 'f
  pp_RSS :: "64 word option"
  pp_Status :: "string list"
  pp_Cmdline :: string

record 'f probes =
  gp_host :: "string option"
  gp_percent :: "'f list option"
  gp_cpu_info :: "string option"
  gp_vmem :: "string option"
  gp_swap :: "string option"
  gp_partitions :: "string list option"
  gp_usage :: "string \<Rightarrow> string option"
  gp_counters :: "(string \<times> string) slice option"
  gp_procs :: "'f proc_probe list option"
  gp_ports :: "ports_error + node_port slice"
  fl_zero :: 'f
  fl_add :: "'f \<Rightarrow> 'f \<Rightarrow> 'f"
  fl_div :: "'f \<Rightarrow> nat \<Rightarrow> 'f"
  fl_less :: "'f \<Rightarrow> 'f \<Rightarrow> bool"

record 'f node_process =
  pc_PID :: int
  pc_Name :: string
  pc_Status :: string
  pc_CPUPercent :: 'f
  pc_MemoryRSS :: "64 word"
  pc_Cmdline :: string

record 'f cpu_sample =
  cs_Info :: "string option"
  cs_Percent :: "'f list"
  cs_Total :: 'f

record memory_sample =
  ms_Virtual :: string
  ms_Swap :: "string option"

record 'f metrics_all =
  ma_Host :: "string option"
  ma_CPU :: "'f cpu_sample option"
  ma_Memory :: "memory_sample option"
  ma_Disk :: "string slice"
  ma_Network :: "(string \<times> string) slice"
  ma_Processes :: "'f node_process slice"
  ma_Ports :: "node_port slice"

datatype 'f metrics_body =
    Available bool | ConfigIs metrics_config | HostIs string | CpuIs "'f cpu_sample" | MemoryIs memory_sample
  | DiskIs "string list" | NetworkIs "(string \<times> string) slice" | ProcessesAre "'f node_process list"
  | PortListIs "node_port slice" | AllIs "'f metrics_all"

type_synonym 'f metrics_response = "('f metrics_body, unit) response"

section \<open>Samples\<close>

definition sampleCPU :: "'f probes \<Rightarrow> 'f cpu_sample option" where
  "sampleCPU g =
     (case gp_percent g of
        None \<Rightarrow> None
      | Some ps \<Rightarrow>
          (let total = foldl (fl_add g) (fl_zero g) ps;
               total = (if ps \<noteq> [] then fl_div g total (length ps) else total)
           in Some \<lparr>cs_Info = gp_cpu_info g, cs_Percent = ps, cs_Total = total\<rparr>))"

definition sampleMemory :: "'f probes \<Rightarrow> memory_sample option" where
  "sampleMemory g = map_option (\<lambda>v. \<lparr>ms_Virtual = v, ms_Swap = gp_swap g\<rparr>) (gp_vmem g)"

definition sampleNetwork :: "metrics_config \<Rightarrow> 'f probes \<Rightarrow> (string \<times> string) slice option" where
  "sampleNetwork cfg g =
     (case gp_counters g of
        None \<Rightarrow> None
      | Some counters \<Rightarrow>
          if mc_Interfaces cfg = [] then Some counters
          else Some (map_option (filter (\<lambda>c. fst c \<in> set (mc_Interfaces cfg))) counters))"

text \<open>A process without a readable name is skipped; other failures leave a zero value.\<close>

definition collect_one :: "'f proc_probe \<Rightarrow> 'f node_process option" where
  "collect_one p =
     (case pp_Name p of
        None \<Rightarrow> None
      | Some name \<Rightarrow>
          Some \<lparr>pc_PID = pp_Pid p, pc_Name = name,
                pc_Status = (case pp_Status p of [] \<Rightarrow> [] | s # _ \<Rightarrow> s),
                pc_CPUPercent = pp_CPU p, pc_MemoryRSS = (case pp_RSS p of None \<Rightarrow> 0 | Some n \<Rightarrow> n),
                pc_Cmdline = pp_Cmdline p\<rparr>)"

definition collectProcessStats :: "'f proc_probe list \<Rightarrow> 'f node_process list" where
  "collectProcessStats ps = List.map_filter collect_one ps"

text \<open>
  The sort by descending percentage. \<open>sort.Slice\<close> leaves the order of equal percentages open; here it is that of an
  insertion sort.
\<close>

fun insert_desc :: "('f \<Rightarrow> 'f \<Rightarrow> bool) \<Rightarrow> 'f node_process \<Rightarrow> 'f node_process list \<Rightarrow> 'f node_process list" where
  "insert_desc lt p [] = [p]"
| "insert_desc lt p (q # qs) =
     (if lt (pc_CPUPercent p) (pc_CPUPercent q) then q # insert_desc lt p qs else p # q # qs)"

definition sort_desc :: "('f \<Rightarrow> 'f \<Rightarrow> bool) \<Rightarrow> 'f node_process list \<Rightarrow> 'f node_process list" where
  "sort_desc lt ps = foldr (insert_desc lt) ps []"

definition sampleProcesses :: "metrics_config \<Rightarrow> 'f probes \<Rightarrow> 'f node_process list option" where
  "sampleProcesses cfg g =
     (case gp_procs g of
        None \<Rightarrow> None
      | Some procs \<Rightarrow>
          (let stats = sort_desc (fl_less g) (collectProcessStats procs);
               limit = ProcessLimit cfg
           in Some (if int (length stats) > limit then take (nat limit) stats else stats)))"

definition disk_paths :: "metrics_config \<Rightarrow> 'f probes \<Rightarrow> string list option" where
  "disk_paths cfg g = (if mc_DiskPaths cfg = [] then gp_partitions g else Some (mc_DiskPaths cfg))"

definition list_slice :: "'a list \<Rightarrow> 'a slice" where
  "list_slice xs = (if xs = [] then None else Some xs)"

definition sampleAll :: "metrics_config \<Rightarrow> 'f probes \<Rightarrow> 'f metrics_all" where
  "sampleAll cfg g =
     \<lparr>ma_Host = (if mc_Host cfg then gp_host g else None),
      ma_CPU = (if mc_CPU cfg then sampleCPU g else None),
      ma_Memory = (if mc_Memory cfg then sampleMemory g else None),
      ma_Disk = (if mc_Disk cfg
                 then list_slice (List.map_filter (gp_usage g) (case disk_paths cfg g of None \<Rightarrow> [] | Some ps \<Rightarrow> ps))
                 else None),
      ma_Network = (if mc_Network cfg then (case sampleNetwork cfg g of None \<Rightarrow> None | Some c \<Rightarrow> c) else None),
      ma_Processes = (if mc_Processes cfg then sampleProcesses cfg g else None),
      ma_Ports = (if mc_Ports cfg then (case gp_ports g of Inl _ \<Rightarrow> None | Inr ps \<Rightarrow> ps) else None)\<rparr>"

section \<open>Handlers\<close>

definition metrics_guard :: "metrics_config \<Rightarrow> 'f metrics_response option" where
  "metrics_guard cfg =
     (if \<not> mc_Enabled cfg
      then Some (WriteError 503 ''metrics integration not configured on this node''
                   ''create /etc/tailkitd/integrations/metrics.toml to enable'')
      else None)"

definition methodGet :: "request \<Rightarrow> 'f metrics_response option" where
  "methodGet r = (if Method r \<noteq> ''GET'' then Some (bad_method ''use GET'') else None)"

text \<open>What every handler of a section does first: the guard, the method, the section's switch.\<close>

definition section_gate :: "metrics_config \<Rightarrow> request \<Rightarrow> bool \<Rightarrow> nat \<Rightarrow> string \<Rightarrow> 'f metrics_response option" where
  "section_gate cfg r enabled st msg =
     (case metrics_guard cfg of
        Some resp \<Rightarrow> Some resp
      | None \<Rightarrow>
          (case methodGet r of
             Some resp \<Rightarrow> Some resp
           | None \<Rightarrow> if \<not> enabled then Some (WriteError st msg []) else None))"

definition measured :: "'f metrics_response option \<Rightarrow> ('v \<Rightarrow> 'f metrics_body) \<Rightarrow> string \<Rightarrow> 'v option \<Rightarrow> 'f metrics_response" where
  "measured gate body failed sample =
     (case gate of
        Some resp \<Rightarrow> resp
      | None \<Rightarrow> (case sample of None \<Rightarrow> WriteError 500 failed [] | Some v \<Rightarrow> WriteJSON 200 (body v)))"

definition metrics_handleAvailable :: "metrics_config \<Rightarrow> request \<Rightarrow> 'f metrics_response" where
  "metrics_handleAvailable cfg r =
     (case methodGet r of Some resp \<Rightarrow> resp | None \<Rightarrow> WriteJSON 200 (Available (mc_Enabled cfg)))"

definition metrics_handleConfig :: "metrics_config \<Rightarrow> request \<Rightarrow> 'f metrics_response" where
  "metrics_handleConfig cfg r = WriteJSON 200 (ConfigIs cfg)"

definition host_gate :: "metrics_config \<Rightarrow> request \<Rightarrow> 'f metrics_response option" where
  "host_gate cfg r = section_gate cfg r (mc_Host cfg) 403 ''host metrics not enabled in metrics.toml''"

definition handleHost :: "metrics_config \<Rightarrow> 'f probes \<Rightarrow> request \<Rightarrow> 'f metrics_response" where
  "handleHost cfg g r = measured (host_gate cfg r) HostIs ''failed to get host info'' (gp_host g)"

definition cpu_gate :: "metrics_config \<Rightarrow> request \<Rightarrow> 'f metrics_response option" where
  "cpu_gate cfg r = section_gate cfg r (mc_CPU cfg) 403 ''cpu metrics not enabled in metrics.toml''"

definition handleCPU :: "metrics_config \<Rightarrow> 'f probes \<Rightarrow> request \<Rightarrow> 'f metrics_response" where
  "handleCPU cfg g r = measured (cpu_gate cfg r) CpuIs ''failed to get CPU metrics'' (sampleCPU g)"

definition memory_gate :: "metrics_config \<Rightarrow> request \<Rightarrow> 'f metrics_response option" where
  "memory_gate cfg r = section_gate cfg r (mc_Memory cfg) 403 ''memory metrics not enabled in metrics.toml''"

definition handleMemory :: "metrics_config \<Rightarrow> 'f probes \<Rightarrow> request \<Rightarrow> 'f metrics_response" where
  "handleMemory cfg g r = measured (memory_gate cfg r) MemoryIs ''failed to get memory metrics'' (sampleMemory g)"

definition handleDisk :: "metrics_config \<Rightarrow> 'f probes \<Rightarrow> request \<Rightarrow> 'f metrics_response" where
  "handleDisk cfg g r =
     measured (section_gate cfg r (mc_Disk cfg) 403 ''disk metrics not enabled in metrics.toml'') DiskIs
       ''failed to list disk partitions'' (map_option (List.map_filter (gp_usage g)) (disk_paths cfg g))"

definition network_gate :: "metrics_config \<Rightarrow> request \<Rightarrow> 'f metrics_response option" where
  "network_gate cfg r = section_gate cfg r (mc_Network cfg) 403 ''network metrics not enabled in metrics.toml''"

definition handleNetwork :: "metrics_config \<Rightarrow> 'f probes \<Rightarrow> request \<Rightarrow> 'f metrics_response" where
  "handleNetwork cfg g r = measured (network_gate cfg r) NetworkIs ''failed to get network metrics'' (sampleNetwork cfg g)"

definition processes_gate :: "metrics_config \<Rightarrow> request \<Rightarrow> 'f metrics_response option" where
  "processes_gate cfg r = section_gate cfg r (mc_Processes cfg) 403 ''process metrics not enabled in metrics.toml''"

definition handleProcesses :: "metrics_config \<Rightarrow> 'f probes \<Rightarrow> request \<Rightarrow> 'f metrics_response" where
  "handleProcesses cfg g r = measured (processes_gate cfg r) ProcessesAre ''failed to list processes'' (sampleProcesses cfg g)"

definition all_gate :: "metrics_config \<Rightarrow> request \<Rightarrow> 'f metrics_response option" where
  "all_gate cfg r = section_gate cfg r True 403 []"

definition handleAll :: "metrics_config \<Rightarrow> 'f probes \<Rightarrow> request \<Rightarrow> 'f metrics_response" where
  "handleAll cfg g r = measured (all_gate cfg r) AllIs [] (Some (sampleAll cfg g))"

definition ports_disabled :: string where "ports_disabled = ''ports metrics not enabled in metrics.toml''"

definition handlePortsAvailable :: "metrics_config \<Rightarrow> request \<Rightarrow> 'f metrics_response" where
  "handlePortsAvailable cfg r =
     (case methodGet r of
        Some resp \<Rightarrow> resp
      | None \<Rightarrow>
          (case metrics_guard cfg of
             Some resp \<Rightarrow> resp
           | None \<Rightarrow> if \<not> mc_Ports cfg then WriteError 503 ports_disabled [] else WriteJSON 200 (Available True)))"

definition ports_gate :: "metrics_config \<Rightarrow> request \<Rightarrow> 'f metrics_response option" where
  "ports_gate cfg r = section_gate cfg r (mc_Ports cfg) 503 ports_disabled"

definition handlePorts :: "metrics_config \<Rightarrow> 'f probes \<Rightarrow> request \<Rightarrow> 'f metrics_response" where
  "handlePorts cfg g r =
     measured (ports_gate cfg r) PortListIs ''failed to get port metrics'' (case gp_ports g of Inl _ \<Rightarrow> None | Inr ps \<Rightarrow> Some ps)"

section \<open>Streams\<close>

text \<open>
  \<open>streamSnapshot\<close>: a sample at once and one at every tick, each sent as it comes; where the list of samples ends the request is
  cancelled.
\<close>

fun streamSnapshot :: "('v \<Rightarrow> string \<times> string option) \<Rightarrow> (string + 'v) list \<Rightarrow> sse_writer \<Rightarrow> stream_error option \<times> sse_writer" where
  "streamSnapshot enc [] sw = (Some Canceled, sw)"
| "streamSnapshot enc (Inl e # obs) sw = (Some (StreamFailed e), sw)"
| "streamSnapshot enc (Inr v # obs) sw =
     (case sse_write (fst (enc v)) (snd (enc v)) sw of
        (Some e, sw') \<Rightarrow> (Some e, sw')
      | (None, sw') \<Rightarrow> streamSnapshot enc obs sw')"

datatype metrics_stream = CPUStream | MemoryStream | NetworkStream | ProcessesStream | AllStream | PortsStream

datatype 'f metrics_reply = Answer "'f metrics_response" | OpenStream metrics_stream

definition stream_reply :: "'f metrics_response option \<Rightarrow> metrics_stream \<Rightarrow> 'f metrics_reply" where
  "stream_reply gate s = (case gate of Some resp \<Rightarrow> Answer resp | None \<Rightarrow> OpenStream s)"

definition handleCPUStream :: "metrics_config \<Rightarrow> request \<Rightarrow> 'f metrics_reply" where
  "handleCPUStream cfg r = stream_reply (cpu_gate cfg r) CPUStream"

definition handleMemoryStream :: "metrics_config \<Rightarrow> request \<Rightarrow> 'f metrics_reply" where
  "handleMemoryStream cfg r = stream_reply (memory_gate cfg r) MemoryStream"

definition handleNetworkStream :: "metrics_config \<Rightarrow> request \<Rightarrow> 'f metrics_reply" where
  "handleNetworkStream cfg r = stream_reply (network_gate cfg r) NetworkStream"

definition handleProcessesStream :: "metrics_config \<Rightarrow> request \<Rightarrow> 'f metrics_reply" where
  "handleProcessesStream cfg r = stream_reply (processes_gate cfg r) ProcessesStream"

definition handleAllStream :: "metrics_config \<Rightarrow> request \<Rightarrow> 'f metrics_reply" where
  "handleAllStream cfg r = stream_reply (all_gate cfg r) AllStream"

definition handlePortsStream :: "metrics_config \<Rightarrow> request \<Rightarrow> 'f metrics_reply" where
  "handlePortsStream cfg r = stream_reply (ports_gate cfg r) PortsStream"

text \<open>\<open>Register\<close>: the routes below \<^verbatim>\<open>/integrations/metrics/\<close>.\<close>

definition metrics_route :: "metrics_config \<Rightarrow> 'f probes \<Rightarrow> string \<Rightarrow> request \<Rightarrow> 'f metrics_reply option" where
  "metrics_route cfg g name r =
     map_of
       [(''available'', Answer (metrics_handleAvailable cfg r)), (''config'', Answer (metrics_handleConfig cfg r)),
        (''host'', Answer (handleHost cfg g r)), (''cpu'', Answer (handleCPU cfg g r)), (''memory'', Answer (handleMemory cfg g r)),
        (''disk'', Answer (handleDisk cfg g r)), (''network'', Answer (handleNetwork cfg g r)),
        (''processes'', Answer (handleProcesses cfg g r)), (''all'', Answer (handleAll cfg g r)),
        (''cpu/stream'', handleCPUStream cfg r), (''memory/stream'', handleMemoryStream cfg r),
        (''network/stream'', handleNetworkStream cfg r), (''processes/stream'', handleProcessesStream cfg r),
        (''all/stream'', handleAllStream cfg r), (''ports/available'', Answer (handlePortsAvailable cfg r)),
        (''ports'', Answer (handlePorts cfg g r)), (''ports/stream'', handlePortsStream cfg r)] name"

section \<open>Access\<close>

definition section_on :: "metrics_config \<Rightarrow> string \<Rightarrow> bool" where
  "section_on cfg name \<longleftrightarrow>
     map_of [(''host'', mc_Host cfg), (''cpu'', mc_CPU cfg), (''memory'', mc_Memory cfg), (''disk'', mc_Disk cfg),
             (''network'', mc_Network cfg), (''processes'', mc_Processes cfg), (''all'', True), (''cpu/stream'', mc_CPU cfg),
             (''memory/stream'', mc_Memory cfg), (''network/stream'', mc_Network cfg), (''processes/stream'', mc_Processes cfg),
             (''all/stream'', True), (''ports/available'', mc_Ports cfg), (''ports'', mc_Ports cfg), (''ports/stream'', mc_Ports cfg)]
       name = Some True"

definition section_refusal :: "metrics_config \<Rightarrow> request \<Rightarrow> bool \<Rightarrow> nat \<Rightarrow> nat option" where
  "section_refusal cfg r enabled st =
     (if \<not> mc_Enabled cfg then Some 503 else if Method r \<noteq> ''GET'' then Some 405 else if \<not> enabled then Some st else None)"

definition metrics_refusal :: "metrics_config \<Rightarrow> string \<Rightarrow> request \<Rightarrow> nat option" where
  "metrics_refusal cfg name r =
     (if name = ''ports/available'' \<and> Method r \<noteq> ''GET'' then Some 405
      else section_refusal cfg r (section_on cfg name) (if has_prefix name ''ports'' then 503 else 403))"

definition answered :: "'f metrics_reply \<Rightarrow> nat \<Rightarrow> bool" where
  "answered rep st \<longleftrightarrow> (\<exists>resp. rep = Answer resp \<and> status resp = st)"

definition outcome :: "nat option \<Rightarrow> 'f metrics_reply \<Rightarrow> bool" where
  "outcome refusal rep \<longleftrightarrow>
     (case refusal of
        Some st \<Rightarrow> answered rep st
      | None \<Rightarrow> (\<exists>s. rep = OpenStream s) \<or> answered rep 200 \<or> answered rep 500)"

lemmas metrics_gates = host_gate_def cpu_gate_def memory_gate_def network_gate_def processes_gate_def all_gate_def ports_gate_def

lemmas metrics_handlers = handleHost_def handleCPU_def handleMemory_def handleDisk_def handleNetwork_def handleProcesses_def
  handleAll_def handlePorts_def handleCPUStream_def handleMemoryStream_def handleNetworkStream_def handleProcessesStream_def
  handleAllStream_def handlePortsStream_def

lemma answered_simps [simp]: "answered (Answer resp) st \<longleftrightarrow> status resp = st" "answered (OpenStream s) st \<longleftrightarrow> False"
  by (simp_all add: answered_def)

lemma measured_outcome: "outcome (section_refusal cfg r on st) (Answer (measured (section_gate cfg r on st msg) body failed v))"
  by (simp add: outcome_def section_refusal_def section_gate_def metrics_guard_def methodGet_def measured_def split: option.splits)

lemma stream_outcome: "outcome (section_refusal cfg r on st) (stream_reply (section_gate cfg r on st msg) s)"
  by (simp add: outcome_def section_refusal_def section_gate_def metrics_guard_def methodGet_def stream_reply_def)

lemma available_outcome:
  "outcome (if Method r \<noteq> ''GET'' then Some 405 else section_refusal cfg r (mc_Ports cfg) 503) (Answer (handlePortsAvailable cfg r))"
  by (simp add: outcome_def section_refusal_def handlePortsAvailable_def metrics_guard_def methodGet_def)

lemma metrics_routes:
  "metrics_route cfg g ''host'' r = Some (Answer (handleHost cfg g r))"
  "metrics_route cfg g ''cpu'' r = Some (Answer (handleCPU cfg g r))"
  "metrics_route cfg g ''memory'' r = Some (Answer (handleMemory cfg g r))"
  "metrics_route cfg g ''disk'' r = Some (Answer (handleDisk cfg g r))"
  "metrics_route cfg g ''network'' r = Some (Answer (handleNetwork cfg g r))"
  "metrics_route cfg g ''processes'' r = Some (Answer (handleProcesses cfg g r))"
  "metrics_route cfg g ''all'' r = Some (Answer (handleAll cfg g r))"
  "metrics_route cfg g ''cpu/stream'' r = Some (handleCPUStream cfg r)"
  "metrics_route cfg g ''memory/stream'' r = Some (handleMemoryStream cfg r)"
  "metrics_route cfg g ''network/stream'' r = Some (handleNetworkStream cfg r)"
  "metrics_route cfg g ''processes/stream'' r = Some (handleProcessesStream cfg r)"
  "metrics_route cfg g ''all/stream'' r = Some (handleAllStream cfg r)"
  "metrics_route cfg g ''ports/available'' r = Some (Answer (handlePortsAvailable cfg r))"
  "metrics_route cfg g ''ports'' r = Some (Answer (handlePorts cfg g r))"
  "metrics_route cfg g ''ports/stream'' r = Some (handlePortsStream cfg r)"
  by (simp_all add: metrics_route_def)

lemma metrics_refusals:
  "metrics_refusal cfg ''host'' r = section_refusal cfg r (mc_Host cfg) 403"
  "metrics_refusal cfg ''cpu'' r = section_refusal cfg r (mc_CPU cfg) 403"
  "metrics_refusal cfg ''memory'' r = section_refusal cfg r (mc_Memory cfg) 403"
  "metrics_refusal cfg ''disk'' r = section_refusal cfg r (mc_Disk cfg) 403"
  "metrics_refusal cfg ''network'' r = section_refusal cfg r (mc_Network cfg) 403"
  "metrics_refusal cfg ''processes'' r = section_refusal cfg r (mc_Processes cfg) 403"
  "metrics_refusal cfg ''all'' r = section_refusal cfg r (True) 403"
  "metrics_refusal cfg ''cpu/stream'' r = section_refusal cfg r (mc_CPU cfg) 403"
  "metrics_refusal cfg ''memory/stream'' r = section_refusal cfg r (mc_Memory cfg) 403"
  "metrics_refusal cfg ''network/stream'' r = section_refusal cfg r (mc_Network cfg) 403"
  "metrics_refusal cfg ''processes/stream'' r = section_refusal cfg r (mc_Processes cfg) 403"
  "metrics_refusal cfg ''all/stream'' r = section_refusal cfg r (True) 403"
  "metrics_refusal cfg ''ports/available'' r = (if Method r \<noteq> ''GET'' then Some 405 else section_refusal cfg r (mc_Ports cfg) 503)"
  "metrics_refusal cfg ''ports'' r = section_refusal cfg r (mc_Ports cfg) 503"
  "metrics_refusal cfg ''ports/stream'' r = section_refusal cfg r (mc_Ports cfg) 503"
  by (simp_all add: metrics_refusal_def section_on_def has_prefix_def)


definition demo_metrics :: metrics_config where
  "demo_metrics = metrics_zero\<lparr>mc_Enabled := True, mc_Processes := True, mc_Limit := Some 2\<rparr>"

definition demo_get :: request where
  "demo_get = \<lparr>Method = ''GET'', Path = [], Header = (\<lambda>_. []), Query = (\<lambda>_. []), Body = [], Caller = None\<rparr>"

definition demo_probe :: "int \<Rightarrow> string option \<Rightarrow> int \<Rightarrow> int proc_probe" where
  "demo_probe pid name cpu = \<lparr>pp_Pid = pid, pp_Name = name, pp_CPU = cpu, pp_RSS = None, pp_Status = [], pp_Cmdline = []\<rparr>"

definition demo_probes :: "int probes" where
  "demo_probes = \<lparr>gp_host = None, gp_percent = Some [10, 20], gp_cpu_info = None, gp_vmem = None, gp_swap = None, gp_partitions = None,
     gp_usage = (\<lambda>_. None), gp_counters = None,
     gp_procs = Some [demo_probe 1 (Some ''a'') 5, demo_probe 2 None 99, demo_probe 3 (Some ''b'') 7, demo_probe 4 (Some ''c'') 6],
     gp_ports = Inr None, fl_zero = 0, fl_add = (+), fl_div = (\<lambda>x n. x div int n), fl_less = (<)\<rparr>"


section \<open>The busiest processes\<close>

definition busier :: "('f :: linorder) node_process \<Rightarrow> 'f node_process \<Rightarrow> bool" where
  "busier p q \<longleftrightarrow> pc_CPUPercent q \<le> pc_CPUPercent p"

lemma insert_desc_mset: "mset (insert_desc lt p ps) = add_mset p (mset ps)"
  by (induction ps) auto

lemma insert_desc_sorted:
  assumes "sorted_wrt busier ps" shows "sorted_wrt busier (insert_desc (<) p ps)"
  using assms
proof (induction ps)
  case (Cons q qs)
  have "set (insert_desc (<) p qs) = insert p (set qs)" using arg_cong [OF insert_desc_mset, of set_mset] by simp
  with Cons show ?case by (auto simp: busier_def)
qed simp

lemma sort_desc_props: "mset (sort_desc lt ps) = mset ps" "sorted_wrt busier (sort_desc (<) ps)"
  by (induction ps) (simp_all add: sort_desc_def insert_desc_mset insert_desc_sorted)

text \<open>
  The busiest processes: With percentages in their order, the process list has as many readable processes as there are, up
  to the configured limit (20 by default, 100 at most), in descending order of percentage, and none that is left out is
  busier than one that is listed.
\<close>

theorem processes_top:
  assumes "sampleProcesses cfg g = Some ps" "gp_procs g = Some procs" "fl_less g = (<)" "metrics_valid cfg"
  shows "sorted_wrt busier ps \<and>
    int (length ps) = min (ProcessLimit cfg) (int (length (collectProcessStats procs))) \<and> length ps \<le> 100 \<and>
    (\<exists>rest. mset ps + mset rest = mset (collectProcessStats procs) \<and> (\<forall>p \<in> set ps. \<forall>q \<in> set rest. busier p q))"
proof -
  let ?all = "sort_desc (<) (collectProcessStats procs)"
  let ?k = "nat (ProcessLimit cfg)"
  have lim: "1 \<le> ProcessLimit cfg" "ProcessLimit cfg \<le> 100" using assms(4) by (simp_all add: metrics_valid_def)
  have ps: "ps = take ?k ?all"
    using assms(1,2,3) lim by (auto simp: sampleProcesses_def Let_def split: if_splits)
  have len: "length ?all = length (collectProcessStats procs)"
    using sort_desc_props(1) [of "(<)" "collectProcessStats procs"] by (metis size_mset)
  have all: "?all = ps @ drop ?k ?all" using ps by simp
  have sorted: "sorted_wrt busier ps \<and> (\<forall>p \<in> set ps. \<forall>q \<in> set (drop ?k ?all). busier p q)"
    using sort_desc_props(2) [of "collectProcessStats procs"] all by (metis sorted_wrt_append)
  have "mset ps + mset (drop ?k ?all) = mset (collectProcessStats procs)"
    using sort_desc_props(1) [of "(<)" "collectProcessStats procs"] all by (metis mset_append)
  moreover have "length ps = min (length (collectProcessStats procs)) ?k" using ps len by simp
  ultimately show ?thesis using sorted lim by (intro conjI exI [of _ "drop ?k ?all"]) auto
qed

theorem processes_top_witness:
  "\<exists>ps. sampleProcesses demo_metrics demo_probes = Some ps \<and> map pc_PID ps = [3, 4] \<and> sorted_wrt busier ps \<and> length ps \<le> 100"
proof -
  let ?ps = "the (sampleProcesses demo_metrics demo_probes)"
  have "map pc_PID ?ps = [3, 4]" by code_simp
  moreover have "sampleProcesses demo_metrics demo_probes = Some ?ps"
    by (simp add: sampleProcesses_def demo_probes_def Let_def)
  moreover have "metrics_valid demo_metrics" by code_simp
  ultimately show ?thesis using processes_top [of demo_metrics demo_probes ?ps] by (auto simp: demo_probes_def)
qed

section \<open>One answer for all\<close>

text \<open>
  The combined answer: For a \<open>GET\<close> on a configured node, the combined answer shows of host, processor, memory and processes exactly
  what their own endpoints answer, and nothing where those fail or are disabled; what the disk, network and port
  endpoints answer is what the combined answer shows.
\<close>

theorem metrics_all_agrees:
  assumes "mc_Enabled cfg" "Method r = ''GET''"
  shows "handleAll cfg g r = WriteJSON 200 (AllIs (sampleAll cfg g)) \<and>
    (\<forall>v. ma_Host (sampleAll cfg g) = Some v \<longleftrightarrow> handleHost cfg g r = WriteJSON 200 (HostIs v)) \<and>
    (\<forall>v. ma_CPU (sampleAll cfg g) = Some v \<longleftrightarrow> handleCPU cfg g r = WriteJSON 200 (CpuIs v)) \<and>
    (\<forall>v. ma_Memory (sampleAll cfg g) = Some v \<longleftrightarrow> handleMemory cfg g r = WriteJSON 200 (MemoryIs v)) \<and>
    (\<forall>v. ma_Processes (sampleAll cfg g) = Some v \<longleftrightarrow> handleProcesses cfg g r = WriteJSON 200 (ProcessesAre v)) \<and>
    (\<forall>v. handleDisk cfg g r = WriteJSON 200 (DiskIs v) \<longrightarrow> ma_Disk (sampleAll cfg g) = list_slice v) \<and>
    (\<forall>v. handleNetwork cfg g r = WriteJSON 200 (NetworkIs v) \<longrightarrow> ma_Network (sampleAll cfg g) = v) \<and>
    (\<forall>v. handlePorts cfg g r = WriteJSON 200 (PortListIs v) \<longrightarrow> ma_Ports (sampleAll cfg g) = v)"
  using assms
  by (intro conjI allI; simp add: sampleAll_def metrics_handlers metrics_gates section_gate_def metrics_guard_def methodGet_def
      measured_def WriteJSON_def WriteError_def split: option.splits sum.splits)

theorem metrics_all_agrees_witness:
  "handleAll demo_metrics demo_probes demo_get = WriteJSON 200 (AllIs (sampleAll demo_metrics demo_probes)) \<and>
   (\<exists>ps. ma_Processes (sampleAll demo_metrics demo_probes) = Some ps \<and> map pc_PID ps = [3, 4] \<and>
     handleProcesses demo_metrics demo_probes demo_get = WriteJSON 200 (ProcessesAre ps))"
proof -
  let ?ps = "the (ma_Processes (sampleAll demo_metrics demo_probes))"
  have "map pc_PID ?ps = [3, 4]" by code_simp
  moreover have all: "ma_Processes (sampleAll demo_metrics demo_probes) = Some ?ps"
    by (simp add: sampleAll_def sampleProcesses_def demo_probes_def demo_metrics_def Let_def)
  moreover have "mc_Enabled demo_metrics" "Method demo_get = ''GET''" by (simp_all add: demo_metrics_def demo_get_def)
  note agree = metrics_all_agrees [OF this, of demo_probes]
  have "handleProcesses demo_metrics demo_probes demo_get = WriteJSON 200 (ProcessesAre ?ps)"
    using agree [THEN conjunct2, THEN conjunct2, THEN conjunct2, THEN conjunct2, THEN conjunct1, THEN spec, of ?ps] all by (rule iffD1)
  ultimately show ?thesis using agree [THEN conjunct1] by (intro conjI exI [of _ ?ps])
qed

end
