(* ===== verification/Jobs.thy ===== *)
theory Jobs
  imports Sse
begin

text \<open>
  Jobs: the in-memory store of results (\<^verbatim>\<open>internal/exec/jobs.go\<close>) and the endpoint that polls or streams a job
  (\<^verbatim>\<open>internal/exec/handlers.go\<close>). Times are nanoseconds, every operation holds the store's lock, ids come from a UUID
  generator and are arguments. The encoding of an event for the wire is a parameter: names
  and JSON come from the shared client library.
\<close>

section \<open>The store\<close>

datatype job_status = JobAccepted | JobCompleted | JobFailed | JobCancelled | JobOther string

record job_result =
  jr_JobID :: string
  jr_Status :: job_status
  jr_Stdout :: string
  jr_Stderr :: string
  jr_ExitCode :: int
  jr_Error :: string

record job_record =
  jb_result :: job_result
  jb_storedAt :: int

type_synonym job_store = "(string \<times> job_record) list"

definition jobTTL :: int where "jobTTL = 300000000000"

definition accepted_result :: "string \<Rightarrow> job_result" where
  "accepted_result i = \<lparr>jr_JobID = i, jr_Status = JobAccepted, jr_Stdout = [], jr_Stderr = [], jr_ExitCode = 0, jr_Error = []\<rparr>"

definition NewJob :: "string \<Rightarrow> int \<Rightarrow> job_store \<Rightarrow> job_store" where
  "NewJob i now s = AList.update i \<lparr>jb_result = accepted_result i, jb_storedAt = now\<rparr> s"

definition StoreResult :: "string \<Rightarrow> job_result \<Rightarrow> int \<Rightarrow> job_store \<Rightarrow> job_store" where
  "StoreResult i r now s = AList.update i \<lparr>jb_result = r\<lparr>jr_JobID := i\<rparr>, jb_storedAt = now\<rparr> s"

definition GetResult :: "string \<Rightarrow> job_store \<Rightarrow> job_result option" where
  "GetResult i s = map_option jb_result (map_of s i)"

definition evict :: "int \<Rightarrow> job_store \<Rightarrow> job_store" where
  "evict now s = filter (\<lambda>(i, rec). \<not> jb_storedAt rec < now - jobTTL) s"

datatype job_event = NewEv string int | StoreEv string job_result int | EvictEv int

fun job_apply :: "job_event \<Rightarrow> job_store \<Rightarrow> job_store" where
  "job_apply (NewEv i now) s = NewJob i now s"
| "job_apply (StoreEv i r now) s = StoreResult i r now s"
| "job_apply (EvictEv now) s = evict now s"

fun touches :: "string \<Rightarrow> job_event \<Rightarrow> bool" where
  "touches i (NewEv j now) = (j = i)"
| "touches i (StoreEv j r now) = (j = i)"
| "touches i (EvictEv now) = False"

fun expires :: "int \<Rightarrow> job_event \<Rightarrow> bool" where
  "expires t (EvictEv now) = (t < now - jobTTL)"
| "expires t _ = False"

lemma distinct_keys_update: "distinct (map fst s) \<Longrightarrow> distinct (map fst (AList.update k v s))"
  by (rule distinct_update)

lemma distinct_job_apply: "distinct (map fst s) \<Longrightarrow> distinct (map fst (job_apply ev s))"
proof (cases ev)
  case (EvictEv now)
  assume "distinct (map fst s)"
  then show ?thesis unfolding EvictEv by (simp add: evict_def distinct_map_filter)
qed (simp_all add: NewJob_def StoreResult_def distinct_update)

lemma map_of_evict:
  "distinct (map fst s) \<Longrightarrow> map_of (evict now s) i =
     (case map_of s i of None \<Rightarrow> None | Some rec \<Rightarrow> if jb_storedAt rec < now - jobTTL then None else Some rec)"
  by (induction s) (auto simp: evict_def map_of_eq_None_iff image_iff split: option.splits)

lemma job_apply_other:
  "distinct (map fst s) \<Longrightarrow> \<not> touches i ev \<Longrightarrow>
   map_of (job_apply ev s) i = (case map_of s i of None \<Rightarrow> None | Some rec \<Rightarrow> if expires (jb_storedAt rec) ev then None else Some rec)"
  by (cases ev) (auto simp: NewJob_def StoreResult_def map_of_evict split: option.splits)

lemma job_fold_other:
  "distinct (map fst s) \<Longrightarrow> list_all (\<lambda>ev. \<not> touches i ev) evs \<Longrightarrow>
   map_of (fold job_apply evs s) i =
     (case map_of s i of None \<Rightarrow> None | Some rec \<Rightarrow> if list_ex (expires (jb_storedAt rec)) evs then None else Some rec)"
proof (induction evs arbitrary: s)
  case Nil then show ?case by (auto split: option.splits)
next
  case (Cons ev evs)
  note IH = Cons.IH [OF distinct_job_apply [OF Cons.prems(1)], of ev]
  show ?case using IH Cons.prems job_apply_other [OF Cons.prems(1), of i ev] by (auto split: option.splits)
qed

text \<open>The results background tasks store, and that a stored result is found until it expires.\<close>

definition failed_result :: "string \<Rightarrow> string \<Rightarrow> job_result" where
  "failed_result i e = (accepted_result i)\<lparr>jr_Status := JobFailed, jr_Error := e\<rparr>"

definition completed_result :: "string \<Rightarrow> job_result" where
  "completed_result i = (accepted_result i)\<lparr>jr_Status := JobCompleted\<rparr>"

lemma distinct_job_fold: "distinct (map fst s) \<Longrightarrow> distinct (map fst (fold job_apply evs s))"
  by (induction evs arbitrary: s) (simp_all add: distinct_job_apply)

lemma job_finished:
  assumes "distinct (map fst s)" "list_all (\<lambda>ev. \<not> touches i ev) after" "\<not> list_ex (expires t) after"
  shows "GetResult i (fold job_apply after (StoreResult i res t (fold job_apply before (NewJob i now s)))) = Some (res\<lparr>jr_JobID := i\<rparr>)"
proof -
  have "distinct (map fst (fold job_apply before (NewJob i now s)))"
    using assms(1) by (intro distinct_job_fold) (simp add: NewJob_def distinct_update)
  then have "distinct (map fst (StoreResult i res t (fold job_apply before (NewJob i now s))))"
    by (simp add: StoreResult_def distinct_update)
  from job_fold_other [OF this assms(2)] assms(3) show ?thesis by (simp add: StoreResult_def GetResult_def)
qed

text \<open>
  C28 (retention of results). Whatever other jobs do and whenever eviction runs: a result stored at a time is what a poll returns,
  under its job's id, until an eviction runs more than five minutes after that time, and is gone from then on. The same
  holds of an accepted job: one that runs longer than that is reported as unknown until it completes.
\<close>

theorem job_retention:
  assumes "distinct (map fst s)" "list_all (\<lambda>ev. \<not> touches i ev) evs"
  shows "GetResult i (fold job_apply evs (StoreResult i r now s)) =
      (if list_ex (expires now) evs then None else Some (r\<lparr>jr_JobID := i\<rparr>)) \<and>
    GetResult i (fold job_apply evs (NewJob i now s)) =
      (if list_ex (expires now) evs then None else Some (accepted_result i))"
  using job_fold_other [OF distinct_update [OF assms(1)] assms(2)]
  by (simp add: GetResult_def StoreResult_def NewJob_def)

theorem job_retention_witness:
  "GetResult ''a'' (fold job_apply [EvictEv 300000000007, NewEv ''b'' 9] (NewJob ''a'' 7 [])) = Some (accepted_result ''a'') \<and>
   GetResult ''a'' (fold job_apply [EvictEv 300000000008] (NewJob ''a'' 7 [])) = None"
proof -
  have "list_ex (expires 7) [EvictEv 300000000007, NewEv ''b'' 9] = False" "list_ex (expires 7) [EvictEv 300000000008] = True"
    by (simp_all add: jobTTL_def)
  then show ?thesis
    using job_retention [of "[]" "''a''" "[EvictEv 300000000007, NewEv ''b'' 9]" undefined 7]
      job_retention [of "[]" "''a''" "[EvictEv 300000000008]" undefined 7] by simp
qed

section \<open>The events of a job\<close>

datatype job_update = StatusUpdate job_status | StdoutLine string | StderrLine string | Finished job_status int string

text \<open>\<open>splitLines\<close>: carriage return and line feed become a line feed, one trailing line feed is dropped.\<close>

fun crlf :: "string \<Rightarrow> string" where
  "crlf [] = []"
| "crlf [ch] = [ch]"
| "crlf (a # b # s) = (if a = CHR 0x0D \<and> b = newline then newline # crlf s else a # crlf (b # s))"

definition splitLines :: "string \<Rightarrow> string list" where
  "splitLines text =
     (let t = trim_suffix (crlf text) [newline] in if t = [] then [] else split_on newline t)"

definition isTerminalJobStatus :: "job_status \<Rightarrow> bool" where
  "isTerminalJobStatus st \<longleftrightarrow> st = JobCompleted \<or> st = JobFailed \<or> st = JobCancelled"

definition buildJobEvents :: "job_result \<Rightarrow> job_update list" where
  "buildJobEvents r =
     [StatusUpdate JobAccepted]
     @ (if jr_Status r \<noteq> JobAccepted then [StatusUpdate (jr_Status r)] else [])
     @ map StdoutLine (splitLines (jr_Stdout r))
     @ map StderrLine (splitLines (jr_Stderr r))
     @ (if isTerminalJobStatus (jr_Status r) then [Finished (jr_Status r) (jr_ExitCode r) (jr_Error r)] else [])"

section \<open>Polling and streaming\<close>

text \<open>The id is the routed path value, else the rest of the path, else the query parameter.\<close>

definition jobIDFromRequest :: "string \<Rightarrow> request \<Rightarrow> string" where
  "jobIDFromRequest pathValue r =
     (if pathValue \<noteq> [] then pathValue
      else (let i = trim_prefix (Path r) ''/exec/jobs/'' in
            if i \<noteq> [] \<and> i \<noteq> Path r then i else Query r ''id''))"

text \<open>A poll is answered at once, or hands the request over to the event stream of the named job.\<close>

datatype job_reply = JobReply "(job_result, stream_error) response" | JobStream string

definition handleJobPoll :: "job_store \<Rightarrow> string \<Rightarrow> request \<Rightarrow> job_reply" where
  "handleJobPoll s pathValue r =
     (let jobID = jobIDFromRequest pathValue r in
      if jobID = [] then JobReply (WriteError 400 ''job_id is required'' [])
      else if Query r ''stream'' = ''true'' then JobStream jobID
      else (case GetResult jobID s of
              None \<Rightarrow> JobReply (WriteError 404 ''job not found: may have expired (TTL: 5 minutes)'' [])
            | Some res \<Rightarrow> JobReply (WriteJSON 200 res)))"

fun send_events :: "(job_update \<Rightarrow> string \<times> string option) \<Rightarrow> int \<Rightarrow> nat \<Rightarrow> job_update list \<Rightarrow> sse_writer \<Rightarrow>
    stream_error option \<times> int \<times> sse_writer" where
  "send_events enc lastSent i [] sw = (None, lastSent, sw)"
| "send_events enc lastSent i (ev # evs) sw =
     (let sq = int (i + 1) in
      if sq \<le> lastSent then send_events enc lastSent (Suc i) evs sw
      else (case sse_write (fst (enc ev)) (snd (enc ev)) sw of
              (Some e, sw') \<Rightarrow> (Some e, lastSent, sw')
            | (None, sw') \<Rightarrow> send_events enc sq (Suc i) evs sw'))"

text \<open>
  The polling loop. The list holds what the store answers at each poll; where it ends the request is cancelled during the
  wait for the next tick.
\<close>

fun streamJob :: "(job_update \<Rightarrow> string \<times> string option) \<Rightarrow> int \<Rightarrow> job_result option list \<Rightarrow> sse_writer \<Rightarrow> stream_error option \<times> sse_writer" where
  "streamJob enc lastSent [] sw = (Some Canceled, sw)"
| "streamJob enc lastSent (None # obs) sw = (Some (StreamFailed ''job not found''), sw)"
| "streamJob enc lastSent (Some r # obs) sw =
     (case send_events enc lastSent 0 (buildJobEvents r) sw of
        (Some e, _, sw') \<Rightarrow> (Some e, sw')
      | (None, last', sw') \<Rightarrow> if isTerminalJobStatus (jr_Status r) then (None, sw') else streamJob enc last' obs sw')"

definition handleJobStream :: "(job_update \<Rightarrow> string \<times> string option) \<Rightarrow> request \<Rightarrow> job_result option list \<Rightarrow> sse_writer \<Rightarrow> stream_error option \<times> sse_writer" where
  "handleJobStream enc r obs sw = (let resume = ResumeFrom r in streamJob enc resume obs (SetSequence resume sw))"

lemma send_events_open:
  assumes "sse_plan sw = (\<lambda>_. ConnOpen)" "\<And>ev. snd (enc ev) \<noteq> None" "i \<le> m" "sse_seq sw = int m"
    and "int m + int (length evs) < 2 ^ 63 - 1"
  shows "\<exists>sw'. send_events enc (int m) i evs sw = (None, int (max m (i + length evs)), sw') \<and> sse_plan sw' = (\<lambda>_. ConnOpen) \<and>
     sse_seq sw' = int (max m (i + length evs)) \<and>
     stream_events (sse_frames sw') = stream_events (sse_frames sw) @ numbered (int m) (encoded enc (drop (m - i) evs))"
  using assms
proof (induction evs arbitrary: i m sw)
  case Nil then show ?case by (simp add: numbered_def encoded_def max_absorb1)
next
  case (Cons ev evs)
  show ?case
  proof (cases "i < m")
    case True
    then obtain sw' where "send_events enc (int m) (Suc i) evs sw = (None, int (max m (Suc i + length evs)), sw')"
      "sse_plan sw' = (\<lambda>_. ConnOpen)" "sse_seq sw' = int (max m (Suc i + length evs))"
      "stream_events (sse_frames sw') = stream_events (sse_frames sw) @ numbered (int m) (encoded enc (drop (m - Suc i) evs))"
      using Cons.IH [of sw "Suc i" m] Cons.prems by auto
    then show ?thesis using True by (simp add: Let_def drop_Cons' Suc_diff_Suc flip: Suc_diff_Suc)
  next
    case False
    with Cons.prems have i: "i = m" by simp
    have w: "wrap64 (int m + 1) = int (Suc m)" using Cons.prems wrap64_small [of "int m" 0] by simp
    obtain sw1 where w1: "sse_write (fst (enc ev)) (snd (enc ev)) sw = (None, sw1)" "sse_plan sw1 = (\<lambda>_. ConnOpen)"
      "sse_seq sw1 = int (Suc m)"
      "stream_events (sse_frames sw1) = stream_events (sse_frames sw) @ [(int (Suc m), fst (enc ev), the (snd (enc ev)))]"
      using write_open [OF Cons.prems(1,2)] Cons.prems(4) w by metis
    obtain sw' where "send_events enc (int (Suc m)) (Suc i) evs sw1 = (None, int (max (Suc m) (Suc i + length evs)), sw')"
      "sse_plan sw' = (\<lambda>_. ConnOpen)" "sse_seq sw' = int (max (Suc m) (Suc i + length evs))"
      "stream_events (sse_frames sw') = stream_events (sse_frames sw1) @ numbered (int (Suc m)) (encoded enc (drop (Suc m - Suc i) evs))"
      using Cons.IH [OF w1(2) Cons.prems(2) _ w1(3), of "Suc i"] Cons.prems(5) i by auto
    then show ?thesis using i w1 by (simp add: Let_def encoded_def numbered_Cons add.commute)
  qed
qed

lemma accepted_events: "buildJobEvents (accepted_result i) = [StatusUpdate JobAccepted]"
  by (simp add: buildJobEvents_def accepted_result_def splitLines_def trim_suffix_def has_suffix_def isTerminalJobStatus_def)

lemma events_start: "\<exists>rest. buildJobEvents r = StatusUpdate JobAccepted # rest"
  by (simp add: buildJobEvents_def)

lemma streamJob_open:
  assumes "sse_plan sw = (\<lambda>_. ConnOpen)" "\<And>ev. snd (enc ev) \<noteq> None" "sse_seq sw = int m" "isTerminalJobStatus (jr_Status r)"
    and "int (max m 1) + int (length (buildJobEvents r)) < 2 ^ 63 - 1"
  shows "\<exists>sw'. streamJob enc (int m) (replicate n (Some (accepted_result i)) @ Some r # rest) sw = (None, sw') \<and>
     stream_events (sse_frames sw') = stream_events (sse_frames sw) @ numbered (int m) (encoded enc (drop m (buildJobEvents r)))"
  using assms
proof (induction n arbitrary: m sw)
  case 0
  then have "int m + int (length (buildJobEvents r)) < 2 ^ 63 - 1" by linarith
  with 0 obtain sw' where "send_events enc (int m) 0 (buildJobEvents r) sw = (None, int (max m (length (buildJobEvents r))), sw')"
    "stream_events (sse_frames sw') = stream_events (sse_frames sw) @ numbered (int m) (encoded enc (drop m (buildJobEvents r)))"
    using send_events_open [of sw enc 0 m "buildJobEvents r"] by (metis add_0 diff_zero le0)
  with 0(4) show ?case by (intro exI [of _ sw']) simp
next
  case (Suc n)
  obtain es where es: "buildJobEvents r = StatusUpdate JobAccepted # es" using events_start by blast
  have nt: "\<not> isTerminalJobStatus (jr_Status (accepted_result i))" by (simp add: accepted_result_def isTerminalJobStatus_def)
  obtain sw1 where s1: "send_events enc (int m) 0 [StatusUpdate JobAccepted] sw = (None, int (max m 1), sw1)"
    "sse_plan sw1 = (\<lambda>_. ConnOpen)" "sse_seq sw1 = int (max m 1)"
    "stream_events (sse_frames sw1) = stream_events (sse_frames sw) @ numbered (int m) (encoded enc (drop m [StatusUpdate JobAccepted]))"
  proof -
    have "int m + int (length [StatusUpdate JobAccepted]) < 2 ^ 63 - 1" using Suc.prems(5) es by simp
    from send_events_open [where enc = enc, OF Suc.prems(1) Suc.prems(2) le0 Suc.prems(3) this] show thesis
      unfolding add_0 diff_zero One_nat_def [symmetric] length_Cons list.size(3) by (elim exE conjE) (assumption | rule that)+
  qed
  obtain sw2 where "streamJob enc (int (max m 1)) (replicate n (Some (accepted_result i)) @ Some r # rest) sw1 = (None, sw2)"
    "stream_events (sse_frames sw2) = stream_events (sse_frames sw1) @ numbered (int (max m 1)) (encoded enc (drop (max m 1) (buildJobEvents r)))"
    using Suc.IH [OF s1(2) Suc.prems(2) s1(3) Suc.prems(4)] Suc.prems(5) by auto
  with s1 nt show ?case
    using es by (cases m) (simp_all add: accepted_events encoded_def numbered_Cons, simp_all add: numbered_def)
qed

text \<open>
  A stream can be resumed: Over an open connection, a request that names a last event id gets exactly the events of the
  completed job after that one, with consecutive ids, however often the job was polled before it completed; so
  what a client received before it was cut off, followed by what it gets on its return, is every
  event exactly once.
\<close>

theorem job_stream_resume:
  assumes "sse_plan sw = (\<lambda>_. ConnOpen)" "sse_frames sw = []" "\<And>ev. snd (enc ev) \<noteq> None" "ResumeFrom rq = int m"
    and "isTerminalJobStatus (jr_Status r)" "int (max m 1) + int (length (buildJobEvents r)) < 2 ^ 63 - 1"
  shows "\<exists>sw'. handleJobStream enc rq (replicate n (Some (accepted_result i)) @ Some r # rest) sw = (None, sw') \<and>
    stream_events (sse_frames sw') = drop m (numbered 0 (encoded enc (buildJobEvents r)))"
proof -
  obtain sw' where "streamJob enc (int m) (replicate n (Some (accepted_result i)) @ Some r # rest) (SetSequence (int m) sw) = (None, sw')"
    "stream_events (sse_frames sw') = stream_events (sse_frames (SetSequence (int m) sw)) @ numbered (int m) (encoded enc (drop m (buildJobEvents r)))"
    using streamJob_open [of "SetSequence (int m) sw" enc m r n i rest] assms by (auto simp: SetSequence_def)
  then show ?thesis
    using assms(2,4) numbered_drop [of m "encoded enc (buildJobEvents r)"]
    by (auto simp: handleJobStream_def SetSequence_def encoded_def drop_map)
qed

definition demo_enc :: "job_update \<Rightarrow> string \<times> string option" where
  "demo_enc ev = (case ev of StatusUpdate st \<Rightarrow> (''status'', Some (if st = JobAccepted then ''a'' else ''s''))
     | StdoutLine l \<Rightarrow> (''stdout'', Some l) | StderrLine l \<Rightarrow> (''stderr'', Some l) | Finished st c e \<Rightarrow> (''end'', Some []))"

theorem job_stream_resume_witness:
  "\<exists>sw'. handleJobStream demo_enc \<lparr>Method = ''GET'', Path = [], Header = (\<lambda>_. ''2''), Query = (\<lambda>_. []), Body = [], Caller = None\<rparr>
      [Some (accepted_result ''j''), Some ((accepted_result ''j'')\<lparr>jr_Status := JobCompleted, jr_Stdout := ''x''\<rparr>)]
      \<lparr>sse_seq = 0, sse_frames = [], sse_plan = (\<lambda>_. ConnOpen), sse_tries = 0\<rparr> = (None, sw') \<and>
    stream_events (sse_frames sw') = [(3, ''stdout'', ''x''), (4, ''end'', [])]"
proof -
  let ?rq = "\<lparr>Method = ''GET'', Path = [], Header = (\<lambda>_. ''2''), Query = (\<lambda>_. []), Body = [], Caller = None\<rparr> :: request"
  let ?r = "(accepted_result ''j'')\<lparr>jr_Status := JobCompleted, jr_Stdout := ''x''\<rparr>"
  let ?sw = "\<lparr>sse_seq = 0, sse_frames = [], sse_plan = (\<lambda>_. ConnOpen), sse_tries = 0\<rparr> :: sse_writer"
  have "snd (demo_enc ev) \<noteq> None" for ev by (cases ev) (simp_all add: demo_enc_def)
  moreover have "ResumeFrom ?rq = int 2" "isTerminalJobStatus (jr_Status ?r)" by code_simp+
  moreover have ev: "buildJobEvents ?r = [StatusUpdate JobAccepted, StatusUpdate JobCompleted, StdoutLine ''x'', Finished JobCompleted 0 []]"
    by code_simp
  ultimately obtain sw' where
    "handleJobStream demo_enc ?rq (replicate 1 (Some (accepted_result ''j'')) @ Some ?r # []) ?sw = (None, sw')"
    "stream_events (sse_frames sw') = drop 2 (numbered 0 (encoded demo_enc (buildJobEvents ?r)))"
    using job_stream_resume [of ?sw demo_enc ?rq 2 ?r 1 "''j''" "[]"] by auto
  moreover have "drop 2 (numbered 0 (encoded demo_enc (buildJobEvents ?r))) = [(3, ''stdout'', ''x''), (4, ''end'', [])]"
    unfolding ev by (simp add: numbered_def encoded_def demo_enc_def enumerate_eq_zip)
  ultimately show ?thesis by simp
qed

end
