(* ===== verification/Systemd.thy ===== *)
theory Systemd
  imports GoNet Jobs Config Services
begin

text \<open>
  The systemd integration (\<^verbatim>\<open>internal/systemd/client.go, systemd.go, journal_stream.go\<close>): the guards, unit inspection, the
  control jobs and the journal. What the D-Bus library and \<^verbatim>\<open>journalctl\<close> answer are arguments; a control request leaves a
  task that runs after the response, and finishing it is an operation of its own. The decoders of a journal line are
  parameters.
\<close>

record sd_client =
  cl_conn :: bool
  cl_cfg :: systemd_config

definition sd_NewClient :: "bool \<Rightarrow> systemd_config \<Rightarrow> sd_client" where
  "sd_NewClient connects cfg = \<lparr>cl_conn = (sd_Enabled cfg \<and> connects), cl_cfg = cfg\<rparr>"

definition sd_Available :: "sd_client \<Rightarrow> bool" where
  "sd_Available cl \<longleftrightarrow> sd_Enabled (cl_cfg cl) \<and> cl_conn cl"

definition dbusConn :: "sd_client \<Rightarrow> string option" where
  "dbusConn cl = (if \<not> cl_conn cl then Some ''systemd D-Bus connection unavailable'' else None)"

datatype bus_value = BusString string | BusOther string

record sd_bus =
  bus_units :: "string option"
  bus_props :: "string \<Rightarrow> (string \<times> bus_value) list option"

record journal_entry =
  je_Timestamp :: "64 word"
  je_Message :: string
  je_Unit :: string
  je_Priority :: string
  je_Fields :: "(string \<times> string) list"

datatype sd_body =
    SdAvailable bool | SdConfigIs systemd_config | UnitsAre string | PropsAre "(string \<times> bus_value) list"
  | UnitFile string string string | JobTaken string | EntriesAre "journal_entry slice"

type_synonym sd_response = "(sd_body, unit) response"

datatype sd_reply = SdReply sd_response | SdFollow string int string

datatype sd_task = ControlTask string string string | EnableTask string bool string

section \<open>Guards and plain handlers\<close>

definition sd_guard :: "sd_client \<Rightarrow> sd_response option" where
  "sd_guard cl =
     (if \<not> sd_Enabled (cl_cfg cl)
      then Some (WriteError 503 ''systemd integration not configured on this node''
                   ''create /etc/tailkitd/integrations/systemd.toml to enable'')
      else if \<not> sd_Available cl
      then Some (WriteError 503 ''systemd D-Bus connection unavailable'' ''check that tailkitd has D-Bus access'')
      else None)"

definition sd_handleConfig :: "sd_client \<Rightarrow> sd_response" where
  "sd_handleConfig cl = WriteJSON 200 (SdConfigIs (cl_cfg cl))"

definition sd_handleAvailable :: "sd_client \<Rightarrow> request \<Rightarrow> sd_response" where
  "sd_handleAvailable cl r =
     (if Method r \<noteq> ''GET'' then bad_method ''use GET'' else WriteJSON 200 (SdAvailable (sd_Available cl)))"

definition handleUnits :: "sd_bus \<Rightarrow> sd_client \<Rightarrow> request \<Rightarrow> sd_response" where
  "handleUnits bus cl r =
     (case sd_guard cl of
        Some resp \<Rightarrow> resp
      | None \<Rightarrow>
          if Method r \<noteq> ''GET'' then bad_method ''use GET''
          else if \<not> uc_Enabled (sd_Units (cl_cfg cl)) then WriteError 403 ''units.list not enabled in systemd.toml'' []
          else (case dbusConn cl of
                  Some e \<Rightarrow> WriteError 503 e []
                | None \<Rightarrow>
                    (case bus_units bus of
                       None \<Rightarrow> WriteError 500 ''failed to list units'' []
                     | Some us \<Rightarrow> WriteJSON 200 (UnitsAre us))))"

definition handleUnitInspect :: "sd_bus \<Rightarrow> sd_client \<Rightarrow> request \<Rightarrow> string \<Rightarrow> sd_response" where
  "handleUnitInspect bus cl r unit =
     (if Method r \<noteq> ''GET'' then bad_method ''use GET''
      else if \<not> uc_Enabled (sd_Units (cl_cfg cl)) then WriteError 403 ''units.inspect not enabled in systemd.toml'' []
      else (case bus_props bus unit of
              None \<Rightarrow> WriteError 500 ''failed to get unit properties'' []
            | Some ps \<Rightarrow> WriteJSON 200 (PropsAre ps)))"

definition handleUnitFile :: "sd_bus \<Rightarrow> sd_client \<Rightarrow> request \<Rightarrow> string \<Rightarrow> world \<Rightarrow> sd_response \<times> world" where
  "handleUnitFile bus cl r unit w =
     (if Method r \<noteq> ''GET'' then (bad_method ''use GET'', w)
      else if \<not> uc_Enabled (sd_Units (cl_cfg cl)) then (WriteError 403 ''units.unit_file not enabled in systemd.toml'' [], w)
      else (case bus_props bus unit of
              None \<Rightarrow> (WriteError 500 ''failed to get unit properties'' [], w)
            | Some ps \<Rightarrow>
                (case map_of ps ''FragmentPath'' of
                   None \<Rightarrow> (WriteError 404 ''unit has no FragmentPath: may not be a file-backed unit'' [], w)
                 | Some (BusOther v) \<Rightarrow> (WriteError 404 ''unit file path is empty'' [], w)
                 | Some (BusString path) \<Rightarrow>
                     if path = [] then (WriteError 404 ''unit file path is empty'' [], w)
                     else (case os_ReadFile path w of
                             (Inl x, w1) \<Rightarrow>
                               (if x = ENOENT then WriteError 404 ''unit file not found on disk'' []
                                else WriteError 500 ''failed to read unit file'' [], w1)
                           | (Inr data, w1) \<Rightarrow> (WriteJSON 200 (UnitFile unit path data), w1)))))"

section \<open>Control\<close>

definition control_actions :: "string list" where
  "control_actions = [''start'', ''stop'', ''restart'', ''reload'']"

text \<open>The new job's id and the time are arguments.\<close>

definition handleUnitControl :: "sd_client \<Rightarrow> request \<Rightarrow> string \<Rightarrow> string \<Rightarrow> string \<Rightarrow> int \<Rightarrow> job_store \<Rightarrow>
    sd_response \<times> job_store \<times> sd_task option" where
  "handleUnitControl cl r unit action jobID now s =
     (if Method r \<noteq> ''POST'' then (bad_method ''use POST'', s, None)
      else
        (let permitted = (action \<in> set control_actions \<and> uc_Enabled (sd_Units (cl_cfg cl))) in
         if \<not> permitted then (WriteError 403 (''units.'' @ action @ '' not enabled in systemd.toml'') [], s, None)
         else (WriteJSON 202 (JobTaken jobID), NewJob jobID now s, Some (ControlTask unit action jobID))))"

definition handleUnitEnable :: "sd_client \<Rightarrow> request \<Rightarrow> string \<Rightarrow> bool \<Rightarrow> string \<Rightarrow> int \<Rightarrow> job_store \<Rightarrow>
    sd_response \<times> job_store \<times> sd_task option" where
  "handleUnitEnable cl r unit enable jobID now s =
     (if Method r \<noteq> ''POST'' then (bad_method ''use POST'', s, None)
      else if \<not> uc_Enabled (sd_Units (cl_cfg cl)) then (WriteError 403 ''units integration not available in systemd.toml'' [], s, None)
      else if enable \<and> ''enable'' \<notin> set (uc_Allow (sd_Units (cl_cfg cl)))
      then (WriteError 403 ''units.enable not allowed in systemd.toml'' [], s, None)
      else if \<not> enable \<and> ''disable'' \<notin> set (uc_Allow (sd_Units (cl_cfg cl)))
      then (WriteError 403 ''units.disable not allowed in systemd.toml'' [], s, None)
      else (WriteJSON 202 (JobTaken jobID), NewJob jobID now s, Some (EnableTask unit enable jobID)))"

text \<open>
  The tasks. A call over the bus fails at once, or reports the result of its job, or reports nothing within the time limit.
\<close>

datatype bus_outcome = CallFails string | Reports string | NoReport

datatype bus_call = UnitJob string string | EnableUnitFiles string | DisableUnitFiles string | DaemonReload

definition control_result :: "string \<Rightarrow> bus_outcome \<Rightarrow> job_result" where
  "control_result jobID out =
     (case out of
        CallFails e \<Rightarrow> failed_result jobID e
      | _ \<Rightarrow>
          (let result = (case out of Reports res \<Rightarrow> res | _ \<Rightarrow> ''timeout'') in
           if result \<noteq> ''done'' \<and> result \<noteq> ''skipped'' then failed_result jobID (''systemd job result: '' @ result)
           else completed_result jobID))"

definition enable_result :: "string \<Rightarrow> bus_outcome \<Rightarrow> job_result" where
  "enable_result jobID out = (case out of CallFails e \<Rightarrow> failed_result jobID e | _ \<Rightarrow> completed_result jobID)"

fun sd_finish :: "sd_task \<Rightarrow> bus_outcome \<Rightarrow> int \<Rightarrow> job_store \<Rightarrow> bus_call list \<times> job_store" where
  "sd_finish (ControlTask unit action jobID) out now s =
     ([UnitJob action unit], StoreResult jobID (control_result jobID out) now s)"
| "sd_finish (EnableTask unit enable jobID) out now s =
     ([if enable then EnableUnitFiles unit else DisableUnitFiles unit]
        @ (case out of CallFails e \<Rightarrow> [] | _ \<Rightarrow> [DaemonReload]),
      StoreResult jobID (enable_result jobID out) now s)"

section \<open>The journal\<close>

record raw_entry =
  rj_Timestamp :: string
  rj_Message :: string
  rj_Unit :: string
  rj_Priority :: string

text \<open>Decoding a line to the four fields, which may fail, and to all of them, of which what could be decoded is used.\<close>

record journal_codec =
  raw_decode :: "string \<Rightarrow> raw_entry option"
  fields_decode :: "string \<Rightarrow> (string \<times> string) list"

text \<open>\<open>strconv.ParseUint(s, 10, 64)\<close> with the error dropped: 0 where it is no number, the greatest value where it is too big.\<close>

definition parse_uint64_value :: "string \<Rightarrow> 64 word" where
  "parse_uint64_value s =
     (if s = [] \<or> \<not> list_all is_digit s then 0
      else if int (dec_value s) < 2 ^ 64 then word_of_nat (dec_value s) else - 1)"

definition priorityIntToName :: "string \<Rightarrow> string" where
  "priorityIntToName s =
     (case map_of [(''0'', ''emerg''), (''1'', ''alert''), (''2'', ''crit''), (''3'', ''err''), (''4'', ''warning''),
                   (''5'', ''notice''), (''6'', ''info''), (''7'', ''debug'')] s of
        Some n \<Rightarrow> n
      | None \<Rightarrow> s)"

definition priorityMap :: "(string \<times> int) list" where
  "priorityMap = [(''emerg'', 0), (''alert'', 1), (''crit'', 2), (''err'', 3), (''warning'', 4), (''notice'', 5), (''info'', 6), (''debug'', 7)]"

definition priorityToInt :: "string \<Rightarrow> int" where
  "priorityToInt name = (case map_of priorityMap (to_lower name) of Some v \<Rightarrow> v | None \<Rightarrow> 6)"

definition journal_line :: "journal_codec \<Rightarrow> string \<Rightarrow> journal_entry option" where
  "journal_line c line =
     (if line = [] then None
      else (case raw_decode c line of
              None \<Rightarrow> None
            | Some raw \<Rightarrow>
                Some \<lparr>je_Timestamp = (if rj_Timestamp raw \<noteq> [] then parse_uint64_value (rj_Timestamp raw) else 0),
                      je_Message = rj_Message raw, je_Unit = rj_Unit raw, je_Priority = priorityIntToName (rj_Priority raw),
                      je_Fields = filter (\<lambda>kv. \<not> has_prefix (fst kv) ''__'') (fields_decode c line)\<rparr>))"

definition parseJournalOutput :: "journal_codec \<Rightarrow> string \<Rightarrow> journal_entry list" where
  "parseJournalOutput c data = List.map_filter (journal_line c) (fst (scan_lines data))"

definition parseLines :: "request \<Rightarrow> int \<Rightarrow> int" where
  "parseLines r defaultLines =
     (let s = Query r ''lines'' in
      if s = [] then defaultLines
      else (case parse_int s of Inl _ \<Rightarrow> defaultLines | Inr v \<Rightarrow> if v \<le> 0 then defaultLines else v))"

definition journal_args :: "bool \<Rightarrow> string \<Rightarrow> int \<Rightarrow> string \<Rightarrow> string list" where
  "journal_args follow unit lines prio =
     [''--output=json'', ''--no-pager'', ''--quiet''] @ (if follow then [''--follow''] else [])
     @ [''--lines'', int_to_dec lines, ''--priority'', prio] @ (if unit \<noteq> [] then [''--unit'', unit] else [])"

text \<open>How a command ends: with output and status 0, with another status, or it could not run.\<close>

datatype cmd_outcome = CmdOk string | CmdExit int | CmdBroken

definition isNoEntriesExit :: "cmd_outcome \<Rightarrow> bool" where
  "isNoEntriesExit out \<longleftrightarrow> out = CmdExit 1"

definition nil_if_empty :: "'a list \<Rightarrow> 'a slice" where
  "nil_if_empty xs = (if xs = [] then None else Some xs)"

definition readJournal :: "journal_codec \<Rightarrow> (string list \<Rightarrow> cmd_outcome) \<Rightarrow> string \<Rightarrow> int \<Rightarrow> string \<Rightarrow> journal_entry slice option" where
  "readJournal c journalctl unit lines prio =
     (let out = journalctl (journal_args False unit lines prio) in
      case out of
        CmdOk stdout \<Rightarrow> Some (nil_if_empty (parseJournalOutput c stdout))
      | _ \<Rightarrow> if isNoEntriesExit out then Some (Some []) else None)"

definition journal_answer :: "journal_codec \<Rightarrow> (string list \<Rightarrow> cmd_outcome) \<Rightarrow> sd_client \<Rightarrow> request \<Rightarrow> string \<Rightarrow> string \<Rightarrow> sd_reply" where
  "journal_answer c journalctl cl r unit failed =
     (let j = sd_Journal (cl_cfg cl); lines = parseLines r (jc_Lines j) in
      if Query r ''follow'' = ''true'' then SdFollow unit lines (jc_Priority j)
      else (case readJournal c journalctl unit lines (jc_Priority j) of
              None \<Rightarrow> SdReply (WriteError 500 failed [])
            | Some es \<Rightarrow> SdReply (WriteJSON 200 (EntriesAre es))))"

definition handleUnitJournal :: "journal_codec \<Rightarrow> (string list \<Rightarrow> cmd_outcome) \<Rightarrow> sd_client \<Rightarrow> request \<Rightarrow> string \<Rightarrow> sd_reply" where
  "handleUnitJournal c journalctl cl r unit =
     (if Method r \<noteq> ''GET'' then SdReply (bad_method ''use GET'')
      else if \<not> jc_Enabled (sd_Journal (cl_cfg cl))
      then SdReply (WriteError 403 ''journal integration not available in systemd.toml'' [])
      else journal_answer c journalctl cl r unit ''failed to read journal'')"

definition handleSystemJournal :: "journal_codec \<Rightarrow> (string list \<Rightarrow> cmd_outcome) \<Rightarrow> sd_client \<Rightarrow> request \<Rightarrow> sd_reply" where
  "handleSystemJournal c journalctl cl r =
     (case sd_guard cl of
        Some resp \<Rightarrow> SdReply resp
      | None \<Rightarrow>
          if Method r \<noteq> ''GET'' then SdReply (bad_method ''use GET'')
          else if \<not> jc_SystemJournal (sd_Journal (cl_cfg cl))
          then SdReply (WriteError 403 ''journal.system_journal not enabled in systemd.toml'' [])
          else journal_answer c journalctl cl r [] ''failed to read system journal'')"

text \<open>
  Following the journal: the lines \<^verbatim>\<open>journalctl\<close> writes until it ends or the request is cancelled, each decoded and sent as it comes.
\<close>

fun follow_lines :: "journal_codec \<Rightarrow> (journal_entry \<Rightarrow> string \<times> string option) \<Rightarrow> string list \<Rightarrow> sse_writer \<Rightarrow> stream_error option \<times> sse_writer" where
  "follow_lines c enc [] sw = (None, sw)"
| "follow_lines c enc (l # ls) sw =
     (case raw_decode c l of
        None \<Rightarrow> follow_lines c enc ls sw
      | Some _ \<Rightarrow>
          (case send_all enc (parseJournalOutput c l) sw of
             (Some e, sw') \<Rightarrow> (Some e, sw')
           | (None, sw') \<Rightarrow> follow_lines c enc ls sw'))"

record follow_run =
  fr_starts :: bool
  fr_output :: string
  fr_wait :: cmd_outcome
  fr_cancelled :: bool

definition defaultFollowJournal :: "journal_codec \<Rightarrow> (journal_entry \<Rightarrow> string \<times> string option) \<Rightarrow> (string list \<Rightarrow> follow_run) \<Rightarrow>
    string \<Rightarrow> int \<Rightarrow> string \<Rightarrow> sse_writer \<Rightarrow> stream_error option \<times> sse_writer" where
  "defaultFollowJournal c enc journalctl unit lines prio sw =
     (let run = journalctl (journal_args True unit lines prio) in
      if \<not> fr_starts run then (Some (StreamFailed ''journalctl start''), sw)
      else (case scan_lines (fr_output run) of
              (ls, tooLong) \<Rightarrow>
                (case follow_lines c enc ls sw of
                   (Some e, sw') \<Rightarrow> (Some e, sw')
                 | (None, sw') \<Rightarrow>
                     if tooLong then (Some (StreamFailed ''journalctl scan''), sw')
                     else if (\<forall>t. fr_wait run \<noteq> CmdOk t) \<and> \<not> isNoEntriesExit (fr_wait run) \<and> \<not> fr_cancelled run
                     then (Some (StreamFailed ''journalctl''), sw')
                     else (if fr_cancelled run then Some Canceled else None, sw'))))"

section \<open>The unit routes\<close>

definition routeUnit :: "sd_bus \<Rightarrow> journal_codec \<Rightarrow> (string list \<Rightarrow> cmd_outcome) \<Rightarrow> sd_client \<Rightarrow> request \<Rightarrow> string \<Rightarrow> int \<Rightarrow>
    job_store \<Rightarrow> world \<Rightarrow> sd_reply \<times> job_store \<times> sd_task option \<times> world" where
  "routeUnit bus c journalctl cl r jobID now s w =
     (case sd_guard cl of
        Some resp \<Rightarrow> (SdReply resp, s, None, w)
      | None \<Rightarrow>
          (let rest = trim_prefix (Path r) ''/integrations/systemd/units/'';
               parts = split_n 2 slash rest;
               unit = parts ! 0;
               action = (if length parts = 2 then parts ! 1 else []);
               reply = (\<lambda>resp. (SdReply resp, s, None, w));
               control = (\<lambda>(resp, s', t). (SdReply resp, s', t, w))
           in
           if unit = [] then reply (WriteError 400 ''unit name is required'' [])
           else if action = [] then reply (handleUnitInspect bus cl r unit)
           else if action = ''file'' then (case handleUnitFile bus cl r unit w of (resp, w') \<Rightarrow> (SdReply resp, s, None, w'))
           else if action \<in> set control_actions then control (handleUnitControl cl r unit action jobID now s)
           else if action = ''enable'' then control (handleUnitEnable cl r unit True jobID now s)
           else if action = ''disable'' then control (handleUnitEnable cl r unit False jobID now s)
           else if action = ''journal'' then (handleUnitJournal c journalctl cl r unit, s, None, w)
           else reply (WriteError 404 (''unknown unit action: '' @ action)
                  ''valid actions: file, start, stop, restart, reload, enable, disable, journal'')))"

section \<open>Who may control a unit\<close>

definition task_permitted :: "sd_client \<Rightarrow> request \<Rightarrow> string \<Rightarrow> sd_task \<Rightarrow> bool" where
  "task_permitted cl r jobID t \<longleftrightarrow>
     sd_Enabled (cl_cfg cl) \<and> cl_conn cl \<and> Method r = ''POST'' \<and> uc_Enabled (sd_Units (cl_cfg cl)) \<and>
     (case t of
        ControlTask unit action i \<Rightarrow> i = jobID \<and> Path r = ''/integrations/systemd/units/'' @ unit @ ''/'' @ action \<and> action \<in> set control_actions
      | EnableTask unit en i \<Rightarrow> i = jobID \<and>
          Path r = ''/integrations/systemd/units/'' @ unit @ (if en then ''/enable'' else ''/disable'') \<and>
          (if en then ''enable'' else ''disable'') \<in> set (uc_Allow (sd_Units (cl_cfg cl))))"

lemma sd_guard_None: "sd_guard cl = None \<longleftrightarrow> sd_Enabled (cl_cfg cl) \<and> cl_conn cl"
  by (simp add: sd_guard_def sd_Available_def)

lemma handleUnitControl_task:
  assumes "handleUnitControl cl r unit action jobID now s = (resp, s', t)"
  shows "t = None \<and> s' = s \<and> 400 \<le> status resp \<or>
    t = Some (ControlTask unit action jobID) \<and> s' = NewJob jobID now s \<and> resp = WriteJSON 202 (JobTaken jobID) \<and>
    Method r = ''POST'' \<and> uc_Enabled (sd_Units (cl_cfg cl)) \<and> action \<in> set control_actions"
  using assms by (auto simp: handleUnitControl_def Let_def split: if_splits)

lemma handleUnitEnable_task:
  assumes "handleUnitEnable cl r unit en jobID now s = (resp, s', t)"
  shows "t = None \<and> s' = s \<and> 400 \<le> status resp \<or>
    t = Some (EnableTask unit en jobID) \<and> s' = NewJob jobID now s \<and> resp = WriteJSON 202 (JobTaken jobID) \<and>
    Method r = ''POST'' \<and> uc_Enabled (sd_Units (cl_cfg cl)) \<and>
    (if en then ''enable'' else ''disable'') \<in> set (uc_Allow (sd_Units (cl_cfg cl)))"
  using assms by (auto simp: handleUnitEnable_def Let_def split: if_splits)


lemma control_ignores_allow:
  "Method r = ''POST'' \<Longrightarrow> uc_Enabled (sd_Units (cl_cfg cl)) \<Longrightarrow> action \<in> set control_actions \<Longrightarrow>
   snd (snd (handleUnitControl cl r unit action jobID now s)) = Some (ControlTask unit action jobID)"
  by (simp add: handleUnitControl_def)

definition demo_systemd :: sd_client where
  "demo_systemd = sd_NewClient True (systemd_zero\<lparr>sd_Enabled := True, sd_Units := \<lparr>uc_Enabled = True, uc_Allow = [''enable'']\<rparr>,
     sd_Journal := \<lparr>jc_Enabled = True, jc_Priority = ''info'', jc_Lines = 100, jc_SystemJournal = False\<rparr>\<rparr>)"

definition demo_enable :: request where
  "demo_enable = \<lparr>Method = ''POST'', Path = ''/integrations/systemd/units/x/enable'', Header = (\<lambda>_. []), Query = (\<lambda>_. []),
     Body = [], Caller = None\<rparr>"

definition demo_bus :: sd_bus where "demo_bus = \<lparr>bus_units = None, bus_props = (\<lambda>_. None)\<rparr>"

definition demo_journal :: journal_codec where
  "demo_journal = \<lparr>raw_decode = (\<lambda>l. if l = ''{'' \<or> l = [] then None else Some \<lparr>rj_Timestamp = ''7'', rj_Message = l, rj_Unit = [], rj_Priority = ''6''\<rparr>),
     fields_decode = (\<lambda>l. [(''__CURSOR'', ''c''), (''MESSAGE'', l)])\<rparr>"

definition empty_world :: world where
  "empty_world = \<lparr>w_files = [], w_temps = [], w_dirs = [], w_clock = 0, w_fault = (\<lambda>_. Fine), w_dead = False\<rparr>"


section \<open>The job of a task\<close>

definition task_job :: "sd_task \<Rightarrow> string" where
  "task_job t = (case t of ControlTask u a i \<Rightarrow> i | EnableTask u e i \<Rightarrow> i)"

definition task_succeeds :: "sd_task \<Rightarrow> bus_outcome \<Rightarrow> bool" where
  "task_succeeds t out \<longleftrightarrow>
     (case t of
        ControlTask u a i \<Rightarrow> out = Reports ''done'' \<or> out = Reports ''skipped''
      | EnableTask u e i \<Rightarrow> (\<forall>e. out \<noteq> CallFails e))"

lemma sd_finish_store:
  "\<exists>res. snd (sd_finish t out now s) = StoreResult (task_job t) res now s \<and> jr_JobID res = task_job t \<and>
     jr_Status res = (if task_succeeds t out then JobCompleted else JobFailed) \<and>
     (jr_Error res = [] \<or> \<not> task_succeeds t out)"
  by (cases t; cases out)
     (auto simp: task_job_def task_succeeds_def control_result_def enable_result_def failed_result_def completed_result_def accepted_result_def Let_def)

text \<open>
  A unit job ends: When the task of an accepted job is finished, whatever other jobs did meanwhile and do after, a poll finds the
  job, until its result expires, completed exactly if systemd reported success (done or skipped for a control job, no failing
  call for enable and disable) and failed otherwise, in particular after a timeout; so its stream ends. A control job made exactly
  one call, enable and disable reload the daemon exactly after a call that did not fail.
\<close>

theorem systemd_job_outcome:
  assumes "distinct (map fst s)" "list_all (\<lambda>ev. \<not> touches (task_job t) ev) before"
    and "list_all (\<lambda>ev. \<not> touches (task_job t) ev) after" "\<not> list_ex (expires later) after"
    and "sd_finish t out later (fold job_apply before (NewJob (task_job t) now s)) = (calls, s')"
  shows "\<exists>res. GetResult (task_job t) (fold job_apply after s') = Some res \<and>
      jr_Status res = (if task_succeeds t out then JobCompleted else JobFailed) \<and> isTerminalJobStatus (jr_Status res) \<and>
    calls = (case t of ControlTask u a i \<Rightarrow> [UnitJob a u]
             | EnableTask u en i \<Rightarrow> (if en then EnableUnitFiles u else DisableUnitFiles u) # (if task_succeeds t out then [DaemonReload] else []))"
proof -
  obtain res where res: "s' = StoreResult (task_job t) res later (fold job_apply before (NewJob (task_job t) now s))"
    "jr_Status res = (if task_succeeds t out then JobCompleted else JobFailed)"
    using sd_finish_store [of t out later "fold job_apply before (NewJob (task_job t) now s)"] assms(5) by auto
  have "GetResult (task_job t) (fold job_apply after s') = Some (res\<lparr>jr_JobID := task_job t\<rparr>)"
    unfolding res(1) using assms(1,3,4) by (rule job_finished)
  moreover have "calls = (case t of ControlTask u a i \<Rightarrow> [UnitJob a u]
      | EnableTask u en i \<Rightarrow> (if en then EnableUnitFiles u else DisableUnitFiles u) # (if task_succeeds t out then [DaemonReload] else []))"
    using assms(5) by (cases t; cases out) (auto simp: task_succeeds_def)
  ultimately show ?thesis using res(2) by (auto simp: isTerminalJobStatus_def)
qed

theorem systemd_job_outcome_witness:
  "\<exists>calls s' res. sd_finish (ControlTask ''x'' ''stop'' ''j'') NoReport 9 (fold job_apply [NewEv ''k'' 7] (NewJob ''j'' 5 [])) = (calls, s') \<and>
     calls = [UnitJob ''stop'' ''x''] \<and> GetResult ''j'' (fold job_apply [EvictEv 10] s') = Some res \<and> jr_Status res = JobFailed"
proof -
  let ?t = "ControlTask ''x'' ''stop'' ''j''"
  let ?run = "sd_finish ?t NoReport 9 (fold job_apply [NewEv ''k'' 7] (NewJob (task_job ?t) 5 []))"
  have "task_job ?t = ''j''" by (simp add: task_job_def)
  moreover have "\<not> list_ex (expires 9) [EvictEv 10]" by (simp add: jobTTL_def)
  ultimately show ?thesis
    using systemd_job_outcome [of "[]" ?t "[NewEv ''k'' 7]" "[EvictEv 10]" 9 NoReport 5 "fst ?run" "snd ?run"]
    by (auto simp: task_succeeds_def)
qed

section \<open>Snapshot and stream of the journal\<close>

definition journal_text :: "string list \<Rightarrow> string" where
  "journal_text ls = concat (map (\<lambda>l. l @ [CHR 0x0A]) ls)"

definition bare_line :: "string \<Rightarrow> bool" where
  "bare_line l \<longleftrightarrow> CHR 0x0A \<notin> set l \<and> CHR 0x0D \<notin> set l"

lemma drop_cr_bare: "bare_line l \<Longrightarrow> drop_cr l = l"
  unfolding bare_line_def by (metis drop_cr_def last_in_set)

lemma scan_journal:
  assumes "list_all bare_line ls"
  shows "scan_lines (journal_text ls) = (takeWhile scan_fits ls, \<not> list_all scan_fits ls)"
proof -
  have "split_on (CHR 0x0A) (journal_text ls) = ls @ [[]]"
    using assms by (induction ls) (simp_all add: journal_text_def split_on_append split_on_notin bare_line_def)
  moreover have "map drop_cr (takeWhile scan_fits ls) = takeWhile scan_fits ls"
    using assms by (intro map_idI drop_cr_bare) (auto simp: list_all_iff dest: set_takeWhileD)
  ultimately show ?thesis by (simp add: scan_lines_def Let_def)
qed

lemma scan_one:
  assumes "bare_line l" "scan_fits l"
  shows "parseJournalOutput c l = (case journal_line c l of None \<Rightarrow> [] | Some e \<Rightarrow> [e])"
proof (cases "l = []")
  case True then show ?thesis by (simp add: parseJournalOutput_def scan_lines_def journal_line_def)
next
  case False
  have "split_on (CHR 0x0A) l = [l]" using assms(1) by (simp add: bare_line_def split_on_notin)
  then have "fst (scan_lines l) = [l]" using False assms drop_cr_bare by (simp add: scan_lines_def Let_def)
  then show ?thesis by (simp add: parseJournalOutput_def map_filter_simps split: option.splits)
qed

lemma follow_lines_open:
  assumes "open_at n sw" "enc_total enc" "0 \<le> n" "n + int (length ls) < 2 ^ 63 - 1"
    and "list_all bare_line ls" "list_all scan_fits ls" "raw_decode c [] = None"
  shows "\<exists>sw'. follow_lines c enc ls sw = (None, sw') \<and>
     stream_events (sse_frames sw') = stream_events (sse_frames sw) @ numbered n (encoded enc (List.map_filter (journal_line c) ls))"
  using assms(1,3,4,5,6)
proof (induction ls arbitrary: n sw)
  case Nil then show ?case by (simp add: numbered_def encoded_def)
next
  case (Cons l ls)
  show ?case
  proof (cases "journal_line c l")
    case None
    then have "raw_decode c l = None" using assms(7) by (auto simp: journal_line_def split: if_splits option.splits)
    then show ?thesis using Cons.IH [of n sw] Cons.prems None by simp
  next
    case (Some e)
    then obtain raw where raw: "raw_decode c l = Some raw" by (auto simp: journal_line_def split: if_splits option.splits)
    have one: "parseJournalOutput c l = [e]" using scan_one [of l c] Cons.prems(4,5) Some by simp
    have lt: "n + int (length [e]) < 2 ^ 63 - 1" using Cons.prems(3) by simp
    obtain sw1 where s1: "send_all enc [e] sw = (None, sw1)" "open_at (n + int (length [e])) sw1"
      "stream_events (sse_frames sw1) = stream_events (sse_frames sw) @ numbered n (encoded enc [e])"
      using send_all_openE [OF Cons.prems(1) assms(2) Cons.prems(2) lt] .
    have n1: "0 \<le> n + int (length [e])" using Cons.prems(2) by simp
    have n2: "n + int (length [e]) + int (length ls) < 2 ^ 63 - 1" using Cons.prems(3) by simp
    obtain sw' where "follow_lines c enc ls sw1 = (None, sw')"
      "stream_events (sse_frames sw') = stream_events (sse_frames sw1) @
         numbered (n + int (length [e])) (encoded enc (List.map_filter (journal_line c) ls))"
      using Cons.IH [OF s1(2) n1 n2] Cons.prems(4,5) by auto
    moreover have "encoded enc (List.map_filter (journal_line c) (l # ls)) =
        encoded enc [e] @ encoded enc (List.map_filter (journal_line c) ls)" using Some by (simp add: encoded_def)
    moreover have "length (encoded enc [e]) = length [e]" by (simp add: encoded_def)
    ultimately show ?thesis unfolding follow_lines.simps raw one s1(1) option.case prod.case
      using s1(3) numbered_append [of n "encoded enc [e]" "encoded enc (List.map_filter (journal_line c) ls)"]
      by (intro exI [of _ sw']) simp
  qed
qed

text \<open>
  C33 (snapshot and stream of the journal agree). From the lines \<^verbatim>\<open>journalctl\<close> writes, the snapshot takes exactly the entries of the
  lines that decode, in order, up to the first line of 64 KiB or more, which silently ends it; where all lines are shorter, following
  the journal over an open connection sends exactly these entries, one event each, with consecutive ids.
\<close>

theorem journal_follow_snapshot:
  assumes "list_all bare_line ls" "raw_decode c [] = None" "open_at n sw" "sse_frames sw = []" "enc_total enc" "0 \<le> n"
    and "n + int (length ls) < 2 ^ 63 - 1"
    and "jctl (journal_args True unit k prio) = \<lparr>fr_starts = True, fr_output = journal_text ls, fr_wait = CmdBroken, fr_cancelled = True\<rparr>"
  shows "parseJournalOutput c (journal_text ls) = List.map_filter (journal_line c) (takeWhile scan_fits ls) \<and>
    (list_all scan_fits ls \<longrightarrow>
      (\<exists>sw'. defaultFollowJournal c enc jctl unit k prio sw = (Some Canceled, sw') \<and>
         stream_events (sse_frames sw') = numbered n (encoded enc (parseJournalOutput c (journal_text ls)))))"
proof -
  have snap: "parseJournalOutput c (journal_text ls) = List.map_filter (journal_line c) (takeWhile scan_fits ls)"
    by (simp add: parseJournalOutput_def scan_journal [OF assms(1)])
  moreover have "\<exists>sw'. defaultFollowJournal c enc jctl unit k prio sw = (Some Canceled, sw') \<and>
       stream_events (sse_frames sw') = numbered n (encoded enc (parseJournalOutput c (journal_text ls)))"
    if fit: "list_all scan_fits ls"
  proof -
    have tw: "takeWhile scan_fits ls = ls" using fit by (auto simp: takeWhile_eq_all_conv list_all_iff)
    obtain sw' where f: "follow_lines c enc ls sw = (None, sw')"
      "stream_events (sse_frames sw') = stream_events (sse_frames sw) @ numbered n (encoded enc (List.map_filter (journal_line c) ls))"
      using follow_lines_open [OF assms(3,5,6,7,1) fit assms(2)] by blast
    have "defaultFollowJournal c enc jctl unit k prio sw = (Some Canceled, sw')"
      using fit by (simp add: defaultFollowJournal_def assms(8) scan_journal [OF assms(1)] tw [unfolded list_all_iff] f(1))
    then show ?thesis using f(2) assms(4) by (simp add: snap tw)
  qed
  ultimately show ?thesis by blast
qed

theorem journal_follow_snapshot_witness:
  "\<exists>sw'. defaultFollowJournal demo_journal (\<lambda>e. (''entry'', Some (je_Message e)))
       (\<lambda>_. \<lparr>fr_starts = True, fr_output = journal_text [''a'', ''{'', ''b''], fr_wait = CmdBroken, fr_cancelled = True\<rparr>)
       ''x.service'' 10 ''info'' \<lparr>sse_seq = 0, sse_frames = [], sse_plan = (\<lambda>_. ConnOpen), sse_tries = 0\<rparr> = (Some Canceled, sw') \<and>
     stream_events (sse_frames sw') = [(1, ''entry'', ''a''), (2, ''entry'', ''b'')]"
proof -
  let ?sw = "\<lparr>sse_seq = 0, sse_frames = [], sse_plan = (\<lambda>_. ConnOpen), sse_tries = 0\<rparr> :: sse_writer"
  let ?ls = "[''a'', ''{'', ''b'']"
  let ?enc = "\<lambda>e :: journal_entry. (''entry'', Some (je_Message e))"
  let ?run = "\<lambda>_ :: string list. \<lparr>fr_starts = True, fr_output = journal_text ?ls, fr_wait = CmdBroken, fr_cancelled = True\<rparr>"
  have bare: "list_all bare_line ?ls" and fit: "list_all scan_fits ?ls" by (simp_all add: bare_line_def scan_fits_def)
  have raw: "raw_decode demo_journal [] = None" by (simp add: demo_journal_def)
  have sw: "open_at 0 ?sw" "enc_total ?enc" by (simp_all add: open_at_def enc_total_def)
  have ev: "numbered 0 (encoded ?enc (parseJournalOutput demo_journal (journal_text ?ls))) = [(1, ''entry'', ''a''), (2, ''entry'', ''b'')]"
    by code_simp
  have side: "sse_frames ?sw = []" "(0 :: int) \<le> 0" "0 + int (length ?ls) < 2 ^ 63 - 1"
    "?run (journal_args True ''x.service'' 10 ''info'') =
      \<lparr>fr_starts = True, fr_output = journal_text ?ls, fr_wait = CmdBroken, fr_cancelled = True\<rparr>" by simp_all
  from journal_follow_snapshot [OF bare raw sw(1) side(1) sw(2) side(2,3,4), THEN conjunct2, THEN mp, OF fit]
  show ?thesis unfolding ev .
qed

lemma parseLines_positive: "1 \<le> d \<Longrightarrow> 1 \<le> parseLines r d"
  by (simp add: parseLines_def Let_def split: sum.splits)

end
