(* ===== verification/Docker.thy ===== *)
theory Docker
  imports GoNet Jobs Config Services
begin

text \<open>
  The Docker integration (\<^verbatim>\<open>internal/docker\<close>): the routes of containers, images, compose projects and the swarm, the background
  tasks they start, and the log stream. What the Docker library and command answer is a record of arguments, opaque
  values being strings; a task runs after the response, and finishing it is an operation of its own.
\<close>

record compose_project =
  cp_Name :: string
  cp_Status :: string
  cp_ConfigFiles :: string

text \<open>A command gives its combined output and, if it failed, the error.\<close>

type_synonym cmd_result = "string \<times> string option"

record docker_env =
  sdk_ping :: "string option"
  sdk_containers :: "string option"
  sdk_container :: "string \<Rightarrow> string option"
  sdk_images :: "string option"
  sdk_image :: "string \<Rightarrow> string option"
  sdk_image_remove :: "string \<Rightarrow> bool"
  sdk_nodes :: "string option"
  sdk_services :: "string option"
  run_docker :: "string list \<Rightarrow> cmd_result"
  projects_decode :: "string \<Rightarrow> compose_project slice option"

datatype dk_body =
    DockerUp bool | DockerConfigIs docker_config | SdkIs string | ProjectIs compose_project | ProjectsAre "compose_project slice"
  | JobIs string | LogsAre string | RemovedIs string

type_synonym dk_response = "(dk_body, unit) response"

datatype dk_stream = LogStream string string bool | StatsStream string | EventStream "string option"

datatype dk_reply = DkReply dk_response | DkStream dk_stream

text \<open>A task with its job's id: a \<^verbatim>\<open>docker\<close> command, or an operation on a container.\<close>

datatype dk_task = CliTask string "string list" | ContainerTask string string string

type_synonym dk_answer = "dk_reply \<times> job_store \<times> dk_task option"

text \<open>A request with the id and time a job it starts would get.\<close>

record dk_call =
  dc_request :: request
  dc_jobID :: string
  dc_now :: int

definition dk_done :: "dk_response \<Rightarrow> job_store \<Rightarrow> dk_answer" where
  "dk_done resp s = (DkReply resp, s, None)"

definition dk_spawn :: "dk_call \<Rightarrow> (string \<Rightarrow> dk_task) \<Rightarrow> job_store \<Rightarrow> dk_answer" where
  "dk_spawn q task s =
     (DkReply (WriteJSON 202 (JobIs (dc_jobID q))), NewJob (dc_jobID q) (dc_now q) s, Some (task (dc_jobID q)))"

definition docker_off :: dk_response where
  "docker_off = WriteError 503 ''docker not configured on this node'' ''create /etc/tailkitd/integrations/docker.toml to enable''"

definition sdk_answer :: "string option \<Rightarrow> string \<Rightarrow> dk_response" where
  "sdk_answer v failed = (case v of None \<Rightarrow> WriteError 500 failed [] | Some x \<Rightarrow> WriteJSON 200 (SdkIs x))"

definition dk_handleAvailable :: "docker_env \<Rightarrow> docker_config \<Rightarrow> request \<Rightarrow> dk_response" where
  "dk_handleAvailable e cfg r =
     (if Method r \<noteq> ''GET'' then bad_method ''use GET''
      else if \<not> dk_Enabled cfg then docker_off
      else (case sdk_ping e of
              Some err \<Rightarrow> WriteError 503 ''docker daemon unreachable'' err
            | None \<Rightarrow> WriteJSON 200 (DockerUp True)))"

definition dk_handleConfig :: "docker_config \<Rightarrow> dk_response" where
  "dk_handleConfig cfg = WriteJSON 200 (DockerConfigIs cfg)"

section \<open>Containers\<close>

definition handleContainers :: "docker_env \<Rightarrow> docker_config \<Rightarrow> request \<Rightarrow> dk_response" where
  "handleContainers e cfg r =
     (if Method r \<noteq> ''GET'' then bad_method ''use GET''
      else if \<not> dk_Enabled cfg then docker_off
      else if \<not> ds_Enabled (dk_Containers cfg) then WriteError 403 ''containers integration not enabled in docker.toml'' []
      else sdk_answer (sdk_containers e) ''failed to list containers'')"

definition handleContainerInspect :: "docker_env \<Rightarrow> request \<Rightarrow> string \<Rightarrow> dk_response" where
  "handleContainerInspect e r i =
     (if Method r \<noteq> ''GET'' then bad_method ''use GET'' else sdk_answer (sdk_container e i) ''failed to inspect container'')"

definition handleContainerStart :: "docker_config \<Rightarrow> dk_call \<Rightarrow> string \<Rightarrow> job_store \<Rightarrow> dk_answer" where
  "handleContainerStart cfg q i s =
     (if Method (dc_request q) \<noteq> ''POST'' then dk_done (bad_method ''use POST'') s
      else if \<not> Permits (dk_Containers cfg) ''start'' then dk_done (WriteError 403 ''containers.write not enabled in docker.toml'' []) s
      else dk_spawn q (\<lambda>j. ContainerTask j ''start'' i) s)"

definition handleContainerStop :: "docker_config \<Rightarrow> dk_call \<Rightarrow> string \<Rightarrow> job_store \<Rightarrow> dk_answer" where
  "handleContainerStop cfg q i s =
     (if Method (dc_request q) \<noteq> ''POST'' then dk_done (bad_method ''use POST'') s
      else if \<not> Permits (dk_Containers cfg) ''stop'' then dk_done (WriteError 403 ''containers.write not enabled in docker.toml'' []) s
      else dk_spawn q (\<lambda>j. ContainerTask j ''stop'' i) s)"

definition handleContainerRestart :: "docker_config \<Rightarrow> dk_call \<Rightarrow> string \<Rightarrow> job_store \<Rightarrow> dk_answer" where
  "handleContainerRestart cfg q i s =
     (if Method (dc_request q) \<noteq> ''POST'' then dk_done (bad_method ''use POST'') s
      else if \<not> Permits (dk_Containers cfg) ''restart'' then dk_done (WriteError 403 ''containers.write not enabled in docker.toml'' []) s
      else dk_spawn q (\<lambda>j. ContainerTask j ''restart'' i) s)"

definition logs_args :: "string \<Rightarrow> bool \<Rightarrow> string \<Rightarrow> string list" where
  "logs_args tail showTimestamps i =
     [''logs'', ''--tail'', tail] @ (if showTimestamps then [''--timestamps''] else []) @ [i]"

definition handleContainerLogs :: "docker_env \<Rightarrow> docker_config \<Rightarrow> request \<Rightarrow> string \<Rightarrow> dk_reply" where
  "handleContainerLogs e cfg r i =
     (if Method r \<noteq> ''GET'' then DkReply (bad_method ''use GET'')
      else if \<not> Permits (dk_Containers cfg) ''logs'' then DkReply (WriteError 403 ''containers.logs not enabled in docker.toml'' [])
      else
        (let tail = (if Query r ''tail'' = [] then ''100'' else Query r ''tail'');
             showTimestamps = (Query r ''timestamps'' = ''true'')
         in if Query r ''follow'' = ''true'' then DkStream (LogStream i tail showTimestamps)
            else (case run_docker e (logs_args tail showTimestamps i) of
                    (out, Some err) \<Rightarrow> DkReply (WriteError 500 ''failed to fetch container logs'' [])
                  | (out, None) \<Rightarrow> DkReply (WriteJSON 200 (LogsAre out)))))"

definition handleContainerStats :: "docker_config \<Rightarrow> request \<Rightarrow> string \<Rightarrow> dk_reply" where
  "handleContainerStats cfg r i =
     (if Method r \<noteq> ''GET'' then DkReply (bad_method ''use GET'')
      else if \<not> Permits (dk_Containers cfg) ''stats'' then DkReply (WriteError 403 ''containers.stats not enabled in docker.toml'' [])
      else DkStream (StatsStream i))"

text \<open>What the routers share: the path's first component and what follows it.\<close>

definition route_parts :: "string \<Rightarrow> string \<Rightarrow> string \<times> string" where
  "route_parts path base =
     (let parts = split_n 2 slash (trim_prefix path base) in
      (parts ! 0, if length parts = 2 then parts ! 1 else []))"

definition containers_path :: string where "containers_path = ''/integrations/docker/containers/''"

definition routeContainer :: "docker_env \<Rightarrow> docker_config \<Rightarrow> dk_call \<Rightarrow> job_store \<Rightarrow> dk_answer" where
  "routeContainer e cfg q s =
     (let r = dc_request q in
      if \<not> dk_Enabled cfg then dk_done docker_off s
      else if \<not> ds_Enabled (dk_Containers cfg)
      then dk_done (WriteError 403 ''containers integration not enabled in docker.toml'' []) s
      else
        (case route_parts (Path r) containers_path of
           (i, action) \<Rightarrow>
             if i = [] then dk_done (WriteError 400 ''container id is required'' []) s
             else if action = [] then dk_done (handleContainerInspect e r i) s
             else if action = ''start'' then handleContainerStart cfg q i s
             else if action = ''stop'' then handleContainerStop cfg q i s
             else if action = ''restart'' then handleContainerRestart cfg q i s
             else if action = ''logs'' then (handleContainerLogs e cfg r i, s, None)
             else if action = ''stats'' then (handleContainerStats cfg r i, s, None)
             else dk_done (WriteError 404 (''unknown container action: '' @ action) ''valid actions: start, stop, restart, logs, stats'') s))"

definition handleContainerStream :: "docker_config \<Rightarrow> dk_reply" where
  "handleContainerStream cfg =
     (if \<not> ds_Enabled (dk_Containers cfg) then DkReply (WriteError 403 ''containers.read not enabled in docker.toml'' [])
      else DkStream (EventStream (Some ''container'')))"

definition handleSwarmStream :: "docker_config \<Rightarrow> dk_reply" where
  "handleSwarmStream cfg =
     (if \<not> ds_Enabled (dk_Swarm cfg) then DkReply (WriteError 403 ''containers.read not enabled in docker.toml'' [])
      else DkStream (EventStream (Some ''swarm'')))"

definition handleAllDockerEventsStream :: "docker_config \<Rightarrow> dk_reply" where
  "handleAllDockerEventsStream cfg = DkStream (EventStream None)"

section \<open>Images\<close>

definition handleImages :: "docker_env \<Rightarrow> docker_config \<Rightarrow> request \<Rightarrow> dk_response" where
  "handleImages e cfg r =
     (if Method r \<noteq> ''GET'' then bad_method ''use GET''
      else if \<not> dk_Enabled cfg then docker_off
      else if \<not> ds_Enabled (dk_Images cfg) then WriteError 403 ''images integration not enabled in docker.toml'' []
      else sdk_answer (sdk_images e) ''failed to list images'')"

definition handleImageInspect :: "docker_env \<Rightarrow> request \<Rightarrow> string \<Rightarrow> dk_response" where
  "handleImageInspect e r i =
     (if Method r \<noteq> ''GET'' then bad_method ''use GET'' else sdk_answer (sdk_image e i) ''failed to inspect image'')"

definition handleImagePull :: "docker_config \<Rightarrow> dk_call \<Rightarrow> string \<Rightarrow> job_store \<Rightarrow> dk_answer" where
  "handleImagePull cfg q ref s =
     (if Method (dc_request q) \<noteq> ''POST'' then dk_done (bad_method ''use POST'') s
      else if \<not> Permits (dk_Images cfg) ''pull'' then dk_done (WriteError 403 ''images.pull not enabled in docker.toml'' []) s
      else dk_spawn q (\<lambda>j. CliTask j [''pull'', ref]) s)"

definition handleImageRemove :: "docker_env \<Rightarrow> docker_config \<Rightarrow> request \<Rightarrow> string \<Rightarrow> dk_response" where
  "handleImageRemove e cfg r i =
     (if Method r \<noteq> ''DELETE'' then bad_method ''use DELETE''
      else if \<not> Permits (dk_Images cfg) ''remove'' then WriteError 403 ''images.remove not enabled in docker.toml'' []
      else if \<not> sdk_image_remove e i then WriteError 500 ''failed to remove image'' []
      else WriteJSON 200 (RemovedIs i))"

definition images_path :: string where "images_path = ''/integrations/docker/images/''"

definition routeImage :: "docker_env \<Rightarrow> docker_config \<Rightarrow> dk_call \<Rightarrow> job_store \<Rightarrow> dk_answer" where
  "routeImage e cfg q s =
     (let r = dc_request q in
      if \<not> dk_Enabled cfg then dk_done docker_off s
      else if \<not> ds_Enabled (dk_Images cfg) then dk_done (WriteError 403 ''images integration not enabled in docker.toml'' []) s
      else
        (case route_parts (Path r) images_path of
           (i, action) \<Rightarrow>
             if i = [] then dk_done (WriteError 400 ''image id or reference is required'' []) s
             else if action = [] then dk_done (handleImageInspect e r i) s
             else if action = ''pull'' then handleImagePull cfg q i s
             else if action = ''remove'' then dk_done (handleImageRemove e cfg r i) s
             else dk_done (WriteError 404 (''unknown image action: '' @ action) ''valid actions: pull, remove'') s))"

section \<open>Compose\<close>

text \<open>Output that is no JSON counts as no projects.\<close>

definition listComposeProjects :: "docker_env \<Rightarrow> compose_project slice option" where
  "listComposeProjects e =
     (case run_docker e [''compose'', ''ls'', ''--format'', ''json''] of
        (out, Some err) \<Rightarrow> None
      | (out, None) \<Rightarrow> (case projects_decode e out of None \<Rightarrow> Some (Some []) | Some ps \<Rightarrow> Some ps))"

definition compose_off :: dk_response where
  "compose_off = WriteError 403 ''compose integration not available in docker.toml'' []"

definition compose_list_off :: dk_response where
  "compose_list_off = WriteError 403 ''compose.list not enabled in docker.toml'' []"

definition handleComposeProjects :: "docker_env \<Rightarrow> docker_config \<Rightarrow> request \<Rightarrow> dk_response" where
  "handleComposeProjects e cfg r =
     (if Method r \<noteq> ''GET'' then bad_method ''use GET''
      else if \<not> ds_Enabled (dk_Compose cfg) then compose_off
      else if ''list'' \<notin> set (ds_Allow (dk_Compose cfg)) then compose_list_off
      else (case listComposeProjects e of
              None \<Rightarrow> WriteError 500 ''failed to list compose projects'' []
            | Some ps \<Rightarrow> WriteJSON 200 (ProjectsAre ps)))"

definition handleComposeProject :: "docker_env \<Rightarrow> request \<Rightarrow> string \<Rightarrow> dk_response" where
  "handleComposeProject e r project =
     (if Method r \<noteq> ''GET'' then bad_method ''use GET''
      else (case listComposeProjects e of
              None \<Rightarrow> WriteError 500 ''failed to list compose projects'' []
            | Some ps \<Rightarrow>
                (case List.find (\<lambda>p. cp_Name p = project) (case ps of None \<Rightarrow> [] | Some l \<Rightarrow> l) of
                   Some p \<Rightarrow> WriteJSON 200 (ProjectIs p)
                 | None \<Rightarrow> WriteError 404 (''compose project not found: '' @ project) [])))"

definition up_args :: "string \<Rightarrow> string \<Rightarrow> string list" where
  "up_args composefile project =
     [''compose''] @ (if composefile \<noteq> [] then [''-f'', composefile] else []) @ [''-p'', project, ''up'', ''-d'', ''--remove-orphans'']"

definition handleComposeUp :: "docker_config \<Rightarrow> dk_call \<Rightarrow> string \<Rightarrow> job_store \<Rightarrow> dk_answer" where
  "handleComposeUp cfg q project s =
     (if Method (dc_request q) \<noteq> ''POST'' then dk_done (bad_method ''use POST'') s
      else if \<not> ds_Enabled (dk_Compose cfg) then dk_done (WriteError 403 ''compose.up not enabled in docker.toml'' []) s
      else dk_spawn q (\<lambda>j. CliTask j (up_args (Query (dc_request q) ''file'') project)) s)"

text \<open>The four other actions differ in the operation that has to be allowed and is run.\<close>

definition compose_action :: "docker_config \<Rightarrow> dk_call \<Rightarrow> string \<Rightarrow> string \<Rightarrow> job_store \<Rightarrow> dk_answer" where
  "compose_action cfg q op project s =
     (if Method (dc_request q) \<noteq> ''POST'' then dk_done (bad_method ''use POST'') s
      else if \<not> ds_Enabled (dk_Compose cfg) then dk_done compose_off s
      else if op \<notin> set (ds_Allow (dk_Compose cfg))
      then dk_done (WriteError 403 (''compose.'' @ op @ '' not enabled in docker.toml'') []) s
      else dk_spawn q (\<lambda>j. CliTask j [''compose'', ''-p'', project, op]) s)"

definition handleComposeDown :: "docker_config \<Rightarrow> dk_call \<Rightarrow> string \<Rightarrow> job_store \<Rightarrow> dk_answer" where
  "handleComposeDown cfg q = compose_action cfg q ''down''"

definition handleComposePull :: "docker_config \<Rightarrow> dk_call \<Rightarrow> string \<Rightarrow> job_store \<Rightarrow> dk_answer" where
  "handleComposePull cfg q = compose_action cfg q ''pull''"

definition handleComposeRestart :: "docker_config \<Rightarrow> dk_call \<Rightarrow> string \<Rightarrow> job_store \<Rightarrow> dk_answer" where
  "handleComposeRestart cfg q = compose_action cfg q ''restart''"

definition handleComposeBuild :: "docker_config \<Rightarrow> dk_call \<Rightarrow> string \<Rightarrow> job_store \<Rightarrow> dk_answer" where
  "handleComposeBuild cfg q = compose_action cfg q ''build''"

definition compose_path :: string where "compose_path = ''/integrations/docker/compose/''"

definition routeCompose :: "docker_env \<Rightarrow> docker_config \<Rightarrow> dk_call \<Rightarrow> job_store \<Rightarrow> dk_answer" where
  "routeCompose e cfg q s =
     (let r = dc_request q in
      if \<not> ds_Enabled (dk_Compose cfg) then dk_done compose_off s
      else if ''list'' \<notin> set (ds_Allow (dk_Compose cfg)) then dk_done compose_list_off s
      else
        (case route_parts (Path r) compose_path of
           (project, action) \<Rightarrow>
             if project = [] then dk_done (WriteError 400 ''project name is required'' []) s
             else if action = [] then dk_done (handleComposeProject e r project) s
             else if action = ''up'' then handleComposeUp cfg q project s
             else if action = ''down'' then handleComposeDown cfg q project s
             else if action = ''pull'' then handleComposePull cfg q project s
             else if action = ''restart'' then handleComposeRestart cfg q project s
             else if action = ''build'' then handleComposeBuild cfg q project s
             else dk_done (WriteError 404 (''unknown compose action: '' @ action) ''valid actions: up, down, pull, restart, build'') s))"

section \<open>Swarm\<close>

definition handleSwarmNodes :: "docker_env \<Rightarrow> docker_config \<Rightarrow> request \<Rightarrow> dk_response" where
  "handleSwarmNodes e cfg r =
     (if Method r \<noteq> ''GET'' then bad_method ''use GET''
      else if \<not> ds_Enabled (dk_Swarm cfg) then WriteError 403 ''swarm.read not enabled in docker.toml'' []
      else sdk_answer (sdk_nodes e) ''failed to list swarm nodes'')"

definition handleSwarmServices :: "docker_env \<Rightarrow> docker_config \<Rightarrow> request \<Rightarrow> dk_response" where
  "handleSwarmServices e cfg r =
     (if Method r \<noteq> ''GET'' then bad_method ''use GET''
      else if \<not> ds_Enabled (dk_Swarm cfg) then WriteError 403 ''swarm.read not enabled in docker.toml'' []
      else sdk_answer (sdk_services e) ''failed to list swarm services'')"

text \<open>\<open>Register\<close>: an exact route wins over the routers of the subtrees.\<close>

definition docker_route :: "docker_env \<Rightarrow> docker_config \<Rightarrow> dk_call \<Rightarrow> job_store \<Rightarrow> dk_answer option" where
  "docker_route e cfg q s =
     (let r = dc_request q; p = Path r; answer = (\<lambda>rep. Some (rep, s, None)) in
      if p = ''/integrations/docker/available'' then answer (DkReply (dk_handleAvailable e cfg r))
      else if p = ''/integrations/docker/config'' then answer (DkReply (dk_handleConfig cfg))
      else if p = ''/integrations/docker/containers'' then answer (DkReply (handleContainers e cfg r))
      else if p = ''/integrations/docker/containers/stream'' then answer (handleContainerStream cfg)
      else if has_prefix p containers_path then Some (routeContainer e cfg q s)
      else if p = ''/integrations/docker/images'' then answer (DkReply (handleImages e cfg r))
      else if has_prefix p images_path then Some (routeImage e cfg q s)
      else if p = ''/integrations/docker/compose/projects'' then answer (DkReply (handleComposeProjects e cfg r))
      else if has_prefix p compose_path then Some (routeCompose e cfg q s)
      else if p = ''/integrations/docker/swarm/stream'' then answer (handleSwarmStream cfg)
      else if p = ''/integrations/docker/swarm/nodes'' then answer (DkReply (handleSwarmNodes e cfg r))
      else if p = ''/integrations/docker/swarm/services'' then answer (DkReply (handleSwarmServices e cfg r))
      else if p = ''/integrations/docker/stream'' then answer (handleAllDockerEventsStream cfg)
      else None)"

section \<open>Tasks\<close>

definition cli_result :: "string \<Rightarrow> cmd_result \<Rightarrow> job_result" where
  "cli_result jobID out =
     (case out of
        (text, Some err) \<Rightarrow> (failed_result jobID err)\<lparr>jr_Stderr := text\<rparr>
      | (text, None) \<Rightarrow> (completed_result jobID)\<lparr>jr_Stdout := text\<rparr>)"

definition container_result :: "string \<Rightarrow> string option \<Rightarrow> job_result" where
  "container_result jobID err = (case err of Some x \<Rightarrow> failed_result jobID x | None \<Rightarrow> completed_result jobID)"

text \<open>A task gives one result; the outcome of a container operation is that of the library call.\<close>

fun dk_finish :: "dk_task \<Rightarrow> cmd_result \<Rightarrow> int \<Rightarrow> job_store \<Rightarrow> job_store" where
  "dk_finish (CliTask jobID args) out now s = StoreResult jobID (cli_result jobID out) now s"
| "dk_finish (ContainerTask jobID verb i) out now s = StoreResult jobID (container_result jobID (snd out)) now s"

section \<open>Streams\<close>

text \<open>
  The library's event channel and decoder: what they deliver in turn. Where the list ends the request is cancelled, which the event
  stream reports as an error of its own.
\<close>

fun streamDockerEvents :: "('m \<Rightarrow> string \<times> string option) \<Rightarrow> (string + 'm) list \<Rightarrow> sse_writer \<Rightarrow> stream_error option \<times> sse_writer" where
  "streamDockerEvents enc [] sw = (Some (StreamFailed ''stream docker events: context done''), sw)"
| "streamDockerEvents enc (Inl e # msgs) sw = (Some (StreamFailed e), sw)"
| "streamDockerEvents enc (Inr m # msgs) sw =
     (case sse_write (fst (enc m)) (snd (enc m)) sw of
        (Some e, sw') \<Rightarrow> (Some e, sw')
      | (None, sw') \<Rightarrow> streamDockerEvents enc msgs sw')"

datatype 'm decoded = Snapshot 'm | DecodeEOF | DecodeFails string

text \<open>The flag says whether the request was cancelled when decoding ended.\<close>

fun defaultStreamContainerStats :: "('m \<Rightarrow> string \<times> string option) \<Rightarrow> bool \<Rightarrow> 'm decoded list \<Rightarrow> sse_writer \<Rightarrow> stream_error option \<times> sse_writer" where
  "defaultStreamContainerStats enc cancelled [] sw = (if cancelled then Some Canceled else None, sw)"
| "defaultStreamContainerStats enc cancelled (DecodeEOF # ds) sw = (if cancelled then Some Canceled else None, sw)"
| "defaultStreamContainerStats enc cancelled (DecodeFails e # ds) sw = (if cancelled then Some Canceled else Some (StreamFailed e), sw)"
| "defaultStreamContainerStats enc cancelled (Snapshot m # ds) sw =
     (case sse_write (fst (enc m)) (snd (enc m)) sw of
        (Some e, sw') \<Rightarrow> (Some e, sw')
      | (None, sw') \<Rightarrow> defaultStreamContainerStats enc cancelled ds sw')"

record log_line =
  ll_ContainerID :: string
  ll_Stream :: string
  ll_TS :: "int option"
  ll_Line :: string

text \<open>The time parser is a parameter; no time is the zero time.\<close>

definition parseTimestampedLine :: "(string \<Rightarrow> int option) \<Rightarrow> string \<Rightarrow> bool \<Rightarrow> int option \<times> string" where
  "parseTimestampedLine rfc3339 line timestamps =
     (if \<not> timestamps then (None, line)
      else (case cut_at (CHR '' '') line of
              (before, after, found) \<Rightarrow>
                if \<not> found \<or> before = [] then (None, line)
                else (case rfc3339 before of
                        None \<Rightarrow> (None, line)
                      | Some ts \<Rightarrow> (Some ts, trim_prefix after '' ''))))"

record log_emitter =
  le_containerID :: string
  le_stream :: string
  le_timestamps :: bool
  le_buf :: string

definition log_entry :: "(string \<Rightarrow> int option) \<Rightarrow> log_emitter \<Rightarrow> string \<Rightarrow> log_line" where
  "log_entry rfc3339 le line =
     (case parseTimestampedLine rfc3339 line (le_timestamps le) of
        (ts, msg) \<Rightarrow> \<lparr>ll_ContainerID = le_containerID le, ll_Stream = le_stream le, ll_TS = ts, ll_Line = msg\<rparr>)"

definition emitLine :: "(string \<Rightarrow> int option) \<Rightarrow> (log_line \<Rightarrow> string \<times> string option) \<Rightarrow> log_emitter \<Rightarrow> string \<Rightarrow> sse_writer \<Rightarrow>
    stream_error option \<times> sse_writer" where
  "emitLine rfc3339 enc le line sw =
     (let l = log_entry rfc3339 le line in sse_write (fst (enc l)) (snd (enc l)) sw)"

lemma rest_shorter: "ch \<in> set s \<Longrightarrow> length (tl (dropWhile (\<lambda>x. x \<noteq> ch) s)) < length s"
  by (induction s) auto

text \<open>The loop of \<open>Write\<close>: complete lines are taken off the buffer and sent.\<close>

function emit_complete :: "(string \<Rightarrow> int option) \<Rightarrow> (log_line \<Rightarrow> string \<times> string option) \<Rightarrow> log_emitter \<Rightarrow> sse_writer \<Rightarrow>
    stream_error option \<times> log_emitter \<times> sse_writer" where
  "emit_complete rfc3339 enc le sw =
     (if CHR 0x0A \<notin> set (le_buf le) then (None, le, sw)
      else
        (let line = takeWhile (\<lambda>ch. ch \<noteq> CHR 0x0A) (le_buf le);
             rest = tl (dropWhile (\<lambda>ch. ch \<noteq> CHR 0x0A) (le_buf le));
             le1 = le\<lparr>le_buf := rest\<rparr>
         in case emitLine rfc3339 enc le line sw of
              (Some e, sw1) \<Rightarrow> (Some e, le1, sw1)
            | (None, sw1) \<Rightarrow> emit_complete rfc3339 enc le1 sw1))"
  by pat_completeness auto
termination
  by (relation "measure (\<lambda>(_, _, le, _). length (le_buf le))") (simp_all add: rest_shorter [simplified])

declare emit_complete.simps [simp del]

definition log_Write :: "(string \<Rightarrow> int option) \<Rightarrow> (log_line \<Rightarrow> string \<times> string option) \<Rightarrow> string \<Rightarrow> log_emitter \<Rightarrow> sse_writer \<Rightarrow>
    stream_error option \<times> log_emitter \<times> sse_writer" where
  "log_Write rfc3339 enc p le sw = emit_complete rfc3339 enc (le\<lparr>le_buf := le_buf le @ p\<rparr>) sw"

definition log_Flush :: "(string \<Rightarrow> int option) \<Rightarrow> (log_line \<Rightarrow> string \<times> string option) \<Rightarrow> log_emitter \<Rightarrow> sse_writer \<Rightarrow>
    stream_error option \<times> log_emitter \<times> sse_writer" where
  "log_Flush rfc3339 enc le sw =
     (if le_buf le = [] then (None, le, sw)
      else (case emitLine rfc3339 enc le (le_buf le) sw of (x, sw1) \<Rightarrow> (x, le\<lparr>le_buf := []\<rparr>, sw1)))"

text \<open>The demultiplexer delivers chunks, each for one of the two streams, and ends well or with an error.\<close>

fun copy_chunks :: "(string \<Rightarrow> int option) \<Rightarrow> (log_line \<Rightarrow> string \<times> string option) \<Rightarrow> (bool \<times> string) list \<Rightarrow> log_emitter \<Rightarrow> log_emitter \<Rightarrow>
    sse_writer \<Rightarrow> stream_error option \<times> log_emitter \<times> log_emitter \<times> sse_writer" where
  "copy_chunks rfc3339 enc [] lo le sw = (None, lo, le, sw)"
| "copy_chunks rfc3339 enc ((True, p) # ps) lo le sw =
     (case log_Write rfc3339 enc p lo sw of
        (Some e, lo1, sw1) \<Rightarrow> (Some e, lo1, le, sw1)
      | (None, lo1, sw1) \<Rightarrow> copy_chunks rfc3339 enc ps lo1 le sw1)"
| "copy_chunks rfc3339 enc ((False, p) # ps) lo le sw =
     (case log_Write rfc3339 enc p le sw of
        (Some e, le1, sw1) \<Rightarrow> (Some e, lo, le1, sw1)
      | (None, le1, sw1) \<Rightarrow> copy_chunks rfc3339 enc ps lo le1 sw1)"

definition new_emitter :: "string \<Rightarrow> string \<Rightarrow> bool \<Rightarrow> log_emitter" where
  "new_emitter i stream timestamps = \<lparr>le_containerID = i, le_stream = stream, le_timestamps = timestamps, le_buf = []\<rparr>"

definition defaultFollowContainerLogs :: "(string \<Rightarrow> int option) \<Rightarrow> (log_line \<Rightarrow> string \<times> string option) \<Rightarrow> string option \<Rightarrow>
    (bool \<times> string) list \<Rightarrow> string option \<Rightarrow> string \<Rightarrow> bool \<Rightarrow> sse_writer \<Rightarrow> stream_error option \<times> sse_writer" where
  "defaultFollowContainerLogs rfc3339 enc open_err chunks copy_err i timestamps sw =
     (case open_err of
        Some e \<Rightarrow> (Some (StreamFailed e), sw)
      | None \<Rightarrow>
          (case copy_chunks rfc3339 enc chunks (new_emitter i ''stdout'' timestamps) (new_emitter i ''stderr'' timestamps) sw of
             (Some e, _, _, sw1) \<Rightarrow> (Some e, sw1)
           | (None, lo, le, sw1) \<Rightarrow>
               (case copy_err of
                  Some e \<Rightarrow> (Some (StreamFailed e), sw1)
                | None \<Rightarrow>
                    (case log_Flush rfc3339 enc lo sw1 of
                       (Some e, _, sw2) \<Rightarrow> (Some e, sw2)
                     | (None, _, sw2) \<Rightarrow>
                         (case log_Flush rfc3339 enc le sw2 of (x, _, sw3) \<Rightarrow> (x, sw3))))))"

definition streamRawLogLines :: "(string \<Rightarrow> int option) \<Rightarrow> (log_line \<Rightarrow> string \<times> string option) \<Rightarrow> string \<Rightarrow> string \<Rightarrow> string \<Rightarrow> bool \<Rightarrow>
    sse_writer \<Rightarrow> stream_error option \<times> sse_writer" where
  "streamRawLogLines rfc3339 enc text i stream timestamps sw =
     (case scan_lines text of
        (ls, tooLong) \<Rightarrow>
          (case send_all enc (map (log_entry rfc3339 (new_emitter i stream timestamps)) ls) sw of
             (Some e, sw1) \<Rightarrow> (Some e, sw1)
           | (None, sw1) \<Rightarrow> (if tooLong then Some (StreamFailed ''scan log stream'') else None, sw1)))"

section \<open>Log lines do not depend on the chunks\<close>

definition done_lines :: "string \<Rightarrow> string list" where
  "done_lines t = butlast (split_on (CHR 0x0A) t)"

definition open_line :: "string \<Rightarrow> string" where
  "open_line t = last (split_on (CHR 0x0A) t)"

definition text_lines :: "string \<Rightarrow> string list" where
  "text_lines t = done_lines t @ (if open_line t = [] then [] else [open_line t])"

lemma split_on_mid: "split_on ch (s @ t) = butlast (split_on ch s) @ split_on ch (last (split_on ch s) @ t)"
proof (cases "ch \<in> set s")
  case False then show ?thesis by (simp add: split_on_notin)
next
  case True
  show ?thesis
  proof (induction s)
    case Nil then show ?case by simp
  next
    case (Cons x s)
    obtain f fs where fs: "split_on ch s = f # fs" by (cases "split_on ch s") auto
    show ?case
    proof (cases fs)
      case Nil
      then have "ch \<notin> set s" using fs join_split [of ch s] split_on_parts [of f ch s] by auto
      then show ?thesis by (auto simp: split_on_notin)
    next
      case (Cons g gs)
      then show ?thesis using Cons.IH fs by (auto split: list.splits)
    qed
  qed
qed

lemma done_append: "done_lines (s @ t) = done_lines s @ done_lines (open_line s @ t)" "open_line (s @ t) = open_line (open_line s @ t)"
  by (simp_all add: done_lines_def open_line_def split_on_mid [of _ s] butlast_append)

lemma split_first:
  assumes "ch \<in> set s"
  shows "split_on ch s = takeWhile (\<lambda>x. x \<noteq> ch) s # split_on ch (tl (dropWhile (\<lambda>x. x \<noteq> ch) s))"
proof -
  have "split_on ch (takeWhile (\<lambda>x. x \<noteq> ch) s @ ch # tl (dropWhile (\<lambda>x. x \<noteq> ch) s)) =
      takeWhile (\<lambda>x. x \<noteq> ch) s # split_on ch (tl (dropWhile (\<lambda>x. x \<noteq> ch) s))"
    by (simp add: split_on_append split_on_notin takeWhile_notin)
  then show ?thesis using takeWhile_dropWhile_at [OF assms] by simp
qed

lemma done_first:
  assumes "CHR 0x0A \<in> set s"
  shows "done_lines s = takeWhile (\<lambda>x. x \<noteq> CHR 0x0A) s # done_lines (tl (dropWhile (\<lambda>x. x \<noteq> CHR 0x0A) s))"
    "open_line s = open_line (tl (dropWhile (\<lambda>x. x \<noteq> CHR 0x0A) s))"
  by (simp_all add: done_lines_def open_line_def split_first [OF assms])

lemma done_none: "CHR 0x0A \<notin> set s \<Longrightarrow> done_lines s = []" "CHR 0x0A \<notin> set s \<Longrightarrow> open_line s = s"
  by (simp_all add: done_lines_def open_line_def split_on_notin)

lemma done_size: "length (done_lines s) + length (open_line s) \<le> length s"
proof (induction s rule: length_induct)
  case (1 s)
  show ?case
  proof (cases "CHR 0x0A \<in> set s")
    case True
    let ?r = "tl (dropWhile (\<lambda>x. x \<noteq> CHR 0x0A) s)"
    have "length ?r < length s" using rest_shorter [OF True] .
    moreover from this have "length (done_lines ?r) + length (open_line ?r) \<le> length ?r" using 1 by blast
    ultimately show ?thesis using done_first [OF True] by simp
  next
    case False then show ?thesis by (simp add: done_none)
  qed
qed

lemma log_entry_buf [simp]: "log_entry rf (le\<lparr>le_buf := b\<rparr>) = log_entry rf le"
  by (simp add: log_entry_def fun_eq_iff)

lemma log_entry_stream [simp]: "ll_Stream (log_entry rf le l) = le_stream le"
  by (simp add: log_entry_def split: prod.splits)

lemma emitLine_open:
  assumes "open_at n sw" "enc_total enc" "0 \<le> n" "n + 1 < 2 ^ 63 - 1"
  obtains sw' where "emitLine rf enc le l sw = (None, sw')" "open_at (n + 1) sw'"
    "stream_events (sse_frames sw') = stream_events (sse_frames sw) @ numbered n (encoded enc [log_entry rf le l])"
proof -
  have "n + int (length [log_entry rf le l]) < 2 ^ 63 - 1" using assms(4) by simp
  from send_all_openE [OF assms(1,2,3) this] obtain sw' where s: "send_all enc [log_entry rf le l] sw = (None, sw')"
    "open_at (n + int (length [log_entry rf le l])) sw'"
    "stream_events (sse_frames sw') = stream_events (sse_frames sw) @ numbered n (encoded enc [log_entry rf le l])" .
  from s(1) have "emitLine rf enc le l sw = (None, sw')"
    by (simp add: emitLine_def Let_def split: prod.splits option.splits)
  with s(2,3) show thesis using that by simp
qed

lemma emit_complete_open:
  assumes "open_at n sw" "enc_total enc" "0 \<le> n" "n + int (length (le_buf le)) < 2 ^ 63 - 1"
  shows "\<exists>sw'. emit_complete rf enc le sw = (None, le\<lparr>le_buf := open_line (le_buf le)\<rparr>, sw') \<and>
     open_at (n + int (length (done_lines (le_buf le)))) sw' \<and>
     stream_events (sse_frames sw') = stream_events (sse_frames sw) @
       numbered n (encoded enc (map (log_entry rf le) (done_lines (le_buf le))))"
  using assms
proof (induction "length (le_buf le)" arbitrary: le n sw rule: less_induct)
  case less
  show ?case
  proof (cases "CHR 0x0A \<in> set (le_buf le)")
    case False
    then show ?thesis using less.prems(1)
      by (intro exI [of _ sw]) (simp add: emit_complete.simps done_none numbered_def encoded_def)
  next
    case True
    let ?line = "takeWhile (\<lambda>ch. ch \<noteq> CHR 0x0A) (le_buf le)"
    let ?rest = "tl (dropWhile (\<lambda>ch. ch \<noteq> CHR 0x0A) (le_buf le))"
    let ?le1 = "le\<lparr>le_buf := ?rest\<rparr>"
    have short: "length ?rest < length (le_buf le)" by (rule rest_shorter [OF True])
    have n1: "n + 1 < 2 ^ 63 - 1" using short less.prems(4) by linarith
    obtain sw1 where s1: "emitLine rf enc le ?line sw = (None, sw1)" "open_at (n + 1) sw1"
      "stream_events (sse_frames sw1) = stream_events (sse_frames sw) @ numbered n (encoded enc [log_entry rf le ?line])"
      using emitLine_open [OF less.prems(1,2,3) n1] .
    have n2: "0 \<le> n + 1" using less.prems(3) by simp
    have n3: "n + 1 + int (length (le_buf ?le1)) < 2 ^ 63 - 1" using short less.prems(4) by simp
    obtain sw' where s2: "emit_complete rf enc ?le1 sw1 = (None, ?le1\<lparr>le_buf := open_line ?rest\<rparr>, sw')"
      "open_at (n + 1 + int (length (done_lines ?rest))) sw'"
      "stream_events (sse_frames sw') = stream_events (sse_frames sw1) @
         numbered (n + 1) (encoded enc (map (log_entry rf le) (done_lines ?rest)))"
      using less.hyps [of ?le1, OF _ s1(2) less.prems(2) n2 n3] short by auto
    have "encoded enc (map (log_entry rf le) (done_lines (le_buf le))) =
        encoded enc [log_entry rf le ?line] @ encoded enc (map (log_entry rf le) (done_lines ?rest))"
      by (simp add: done_first [OF True] encoded_def)
    moreover have "length (encoded enc [log_entry rf le ?line]) = 1" by (simp add: encoded_def)
    moreover have "emit_complete rf enc le sw = (None, le\<lparr>le_buf := open_line (le_buf le)\<rparr>, sw')"
      using True s1(1) s2(1) done_first(2) [OF True] by (subst emit_complete.simps) (simp add: Let_def)
    ultimately show ?thesis using s1(3) s2(2,3) done_first(1) [OF True]
        numbered_append [of n "encoded enc [log_entry rf le ?line]" "encoded enc (map (log_entry rf le) (done_lines ?rest))"]
      by (intro exI [of _ sw']) (simp add: add.assoc)
  qed
qed

definition chunk_text :: "bool \<Rightarrow> (bool \<times> string) list \<Rightarrow> string" where
  "chunk_text b cs = concat (map snd (filter (\<lambda>c. fst c = b) cs))"

definition of_stream :: "log_emitter \<Rightarrow> log_line list \<Rightarrow> log_line list" where
  "of_stream le ls = filter (\<lambda>l. ll_Stream l = le_stream le) ls"

lemma of_stream_map: "of_stream le (map (log_entry rf le') ls) = (if le_stream le' = le_stream le then map (log_entry rf le') ls else [])"
  by (induction ls) (auto simp: of_stream_def)

lemma of_stream_append: "of_stream le (xs @ ys) = of_stream le xs @ of_stream le ys"
  by (simp add: of_stream_def)

lemma log_Write_open:
  assumes "open_at n sw" "enc_total enc" "0 \<le> n" "n + int (length (le_buf le @ p)) < 2 ^ 63 - 1"
  obtains sw' where "log_Write rf enc p le sw = (None, le\<lparr>le_buf := open_line (le_buf le @ p)\<rparr>, sw')"
    "open_at (n + int (length (done_lines (le_buf le @ p)))) sw'"
    "stream_events (sse_frames sw') = stream_events (sse_frames sw) @
       numbered n (encoded enc (map (log_entry rf le) (done_lines (le_buf le @ p))))"
  using emit_complete_open [of n sw enc "le\<lparr>le_buf := le_buf le @ p\<rparr>" rf] assms by (auto simp: log_Write_def)

lemma numbered_encoded:
  "numbered n (encoded enc (xs @ ys)) = numbered n (encoded enc xs) @ numbered (n + int (length xs)) (encoded enc ys)"
  by (simp add: encoded_def numbered_append)

lemma copy_chunks_open:
  assumes "open_at n sw" "enc_total enc" "0 \<le> n" "le_stream lo \<noteq> le_stream le"
    and "n + int (length (le_buf lo) + length (le_buf le) + length (concat (map snd cs))) < 2 ^ 63 - 1"
    and "CHR 0x0A \<notin> set (le_buf lo)" "CHR 0x0A \<notin> set (le_buf le)"
  shows "\<exists>sw' L. copy_chunks rf enc cs lo le sw =
       (None, lo\<lparr>le_buf := open_line (le_buf lo @ chunk_text True cs)\<rparr>, le\<lparr>le_buf := open_line (le_buf le @ chunk_text False cs)\<rparr>, sw') \<and>
     open_at (n + int (length L)) sw' \<and>
     stream_events (sse_frames sw') = stream_events (sse_frames sw) @ numbered n (encoded enc L) \<and>
     of_stream lo L = map (log_entry rf lo) (done_lines (le_buf lo @ chunk_text True cs)) \<and>
     of_stream le L = map (log_entry rf le) (done_lines (le_buf le @ chunk_text False cs)) \<and>
     list_all (\<lambda>l. ll_Stream l = le_stream lo \<or> ll_Stream l = le_stream le) L \<and>
     length L + length (open_line (le_buf lo @ chunk_text True cs)) + length (open_line (le_buf le @ chunk_text False cs)) \<le>
       length (le_buf lo) + length (le_buf le) + length (concat (map snd cs))"
  using assms
proof (induction cs arbitrary: n sw lo le)
  case Nil
  then show ?case by (intro exI [of _ sw] exI [of _ "[]"]) (simp add: chunk_text_def done_none numbered_def encoded_def of_stream_def)
next
  case (Cons c cs)
  obtain b p where c: "c = (b, p)" by (cases c)
  let ?w = "if b then lo else le"
  let ?d = "done_lines (le_buf ?w @ p)" and ?o = "open_line (le_buf ?w @ p)"
  have size: "length ?d + length ?o \<le> length (le_buf ?w) + length p" using done_size [of "le_buf ?w @ p"] by simp
  have n1: "n + int (length (le_buf ?w @ p)) < 2 ^ 63 - 1" using Cons.prems(5) by (simp add: c split: if_splits)
  obtain sw1 where w: "log_Write rf enc p ?w sw = (None, ?w\<lparr>le_buf := ?o\<rparr>, sw1)" "open_at (n + int (length ?d)) sw1"
    "stream_events (sse_frames sw1) = stream_events (sse_frames sw) @ numbered n (encoded enc (map (log_entry rf ?w) ?d))"
    using log_Write_open [OF Cons.prems(1,2,3) n1] .
  let ?lo1 = "if b then lo\<lparr>le_buf := ?o\<rparr> else lo" and ?le1 = "if b then le else le\<lparr>le_buf := ?o\<rparr>"
  have nl: "CHR 0x0A \<notin> set ?o" using split_on_parts [of ?o "CHR 0x0A" "le_buf ?w @ p"] by (simp add: open_line_def)
  have n2: "0 \<le> n + int (length ?d)" using Cons.prems(3) by simp
  have n3: "n + int (length ?d) + int (length (le_buf ?lo1) + length (le_buf ?le1) + length (concat (map snd cs))) < 2 ^ 63 - 1"
    using Cons.prems(5) size by (cases b) (simp_all add: c)
  have streams: "le_stream ?lo1 \<noteq> le_stream ?le1" using Cons.prems(4) by (cases b) simp_all
  have bufs: "CHR 0x0A \<notin> set (le_buf ?lo1)" "CHR 0x0A \<notin> set (le_buf ?le1)" using Cons.prems(6,7) nl by (cases b; simp)+
  obtain sw' L where rest: "copy_chunks rf enc cs ?lo1 ?le1 sw1 =
       (None, ?lo1\<lparr>le_buf := open_line (le_buf ?lo1 @ chunk_text True cs)\<rparr>, ?le1\<lparr>le_buf := open_line (le_buf ?le1 @ chunk_text False cs)\<rparr>, sw')"
    "open_at (n + int (length ?d) + int (length L)) sw'"
    "stream_events (sse_frames sw') = stream_events (sse_frames sw1) @ numbered (n + int (length ?d)) (encoded enc L)"
    "of_stream ?lo1 L = map (log_entry rf ?lo1) (done_lines (le_buf ?lo1 @ chunk_text True cs))"
    "of_stream ?le1 L = map (log_entry rf ?le1) (done_lines (le_buf ?le1 @ chunk_text False cs))"
    "list_all (\<lambda>l. ll_Stream l = le_stream ?lo1 \<or> ll_Stream l = le_stream ?le1) L"
    "length L + length (open_line (le_buf ?lo1 @ chunk_text True cs)) + length (open_line (le_buf ?le1 @ chunk_text False cs)) \<le>
       length (le_buf ?lo1) + length (le_buf ?le1) + length (concat (map snd cs))"
    using Cons.IH [OF w(2) Cons.prems(2) n2 streams n3 bufs] by blast
  let ?L = "map (log_entry rf ?w) ?d @ L"
  have ev: "stream_events (sse_frames sw') = stream_events (sse_frames sw) @ numbered n (encoded enc ?L)"
    using w(3) rest(3) by (simp add: numbered_encoded)
  show ?case
  proof (cases b)
    case True
    have dl: "done_lines (le_buf lo @ chunk_text True ((True, p) # cs)) = ?d @ done_lines (?o @ chunk_text True cs)"
      "open_line (le_buf lo @ chunk_text True ((True, p) # cs)) = open_line (?o @ chunk_text True cs)"
      using done_append [of "le_buf lo @ p" "chunk_text True cs"] by (simp_all add: c True chunk_text_def)
    have dr: "chunk_text False ((True, p) # cs) = chunk_text False cs" by (simp add: c True chunk_text_def)
    show ?thesis
      by (intro exI [of _ sw'] exI [of _ ?L] conjI)
        (use w(1) rest ev size Cons.prems(4) True in
          \<open>simp_all add: c dl dr of_stream_append of_stream_map add.assoc, simp_all add: of_stream_def list_all_iff\<close>)
  next
    case False
    have dl: "done_lines (le_buf le @ chunk_text False ((False, p) # cs)) = ?d @ done_lines (?o @ chunk_text False cs)"
      "open_line (le_buf le @ chunk_text False ((False, p) # cs)) = open_line (?o @ chunk_text False cs)"
      using done_append [of "le_buf le @ p" "chunk_text False cs"] by (simp_all add: c False chunk_text_def)
    have dr: "chunk_text True ((False, p) # cs) = chunk_text True cs" by (simp add: c False chunk_text_def)
    show ?thesis
      by (intro exI [of _ sw'] exI [of _ ?L] conjI)
        (use w(1) rest ev size Cons.prems(4) False in
          \<open>simp_all add: c dl dr of_stream_append of_stream_map add.assoc, simp_all add: of_stream_def list_all_iff\<close>)
  qed
qed

lemma log_Flush_open:
  assumes "open_at n sw" "enc_total enc" "0 \<le> n" "n + 1 < 2 ^ 63 - 1"
  obtains sw' where "log_Flush rf enc le sw = (None, le\<lparr>le_buf := []\<rparr>, sw')"
    "open_at (n + int (length (if le_buf le = [] then [] else [le_buf le]))) sw'"
    "stream_events (sse_frames sw') = stream_events (sse_frames sw) @
       numbered n (encoded enc (map (log_entry rf le) (if le_buf le = [] then [] else [le_buf le])))"
proof (cases "le_buf le = []")
  case True
  then show ?thesis using that [of sw] assms(1) by (simp add: log_Flush_def numbered_def encoded_def)
next
  case False
  obtain sw' where "emitLine rf enc le (le_buf le) sw = (None, sw')" "open_at (n + 1) sw'"
    "stream_events (sse_frames sw') = stream_events (sse_frames sw) @ numbered n (encoded enc [log_entry rf le (le_buf le)])"
    using emitLine_open [OF assms] .
  then show ?thesis using that [of sw'] False by (simp add: log_Flush_def)
qed

definition line_entry :: "(string \<Rightarrow> int option) \<Rightarrow> string \<Rightarrow> string \<Rightarrow> bool \<Rightarrow> string \<Rightarrow> log_line" where
  "line_entry rfc3339 i stream timestamps = log_entry rfc3339 (new_emitter i stream timestamps)"

text \<open>
  C35 (log lines do not depend on the chunks). However the container's two output streams are cut into chunks and interleaved: over an
  open connection the follower sends, with consecutive ids, one event for every line of the text of each stream, in that
  stream's order, the last line also when no newline ends it, and nothing else.
\<close>

theorem container_logs_lines:
  assumes "open_at n sw" "enc_total enc" "0 \<le> n" "n + int (length (concat (map snd cs))) + 2 < 2 ^ 63 - 1"
  shows "\<exists>sw' sent. defaultFollowContainerLogs rf enc None cs None i ts sw = (None, sw') \<and>
     stream_events (sse_frames sw') = stream_events (sse_frames sw) @ numbered n (encoded enc sent) \<and>
     filter (\<lambda>l. ll_Stream l = ''stdout'') sent = map (line_entry rf i ''stdout'' ts) (text_lines (chunk_text True cs)) \<and>
     filter (\<lambda>l. ll_Stream l = ''stderr'') sent = map (line_entry rf i ''stderr'' ts) (text_lines (chunk_text False cs)) \<and>
     list_all (\<lambda>l. ll_Stream l = ''stdout'' \<or> ll_Stream l = ''stderr'') sent"
proof -
  let ?lo = "new_emitter i ''stdout'' ts" and ?le = "new_emitter i ''stderr'' ts"
  let ?to = "open_line (chunk_text True cs)" and ?te = "open_line (chunk_text False cs)"
  have init: "le_buf ?lo = []" "le_buf ?le = []" "le_stream ?lo = ''stdout''" "le_stream ?le = ''stderr''"
    by (simp_all add: new_emitter_def)
  obtain sw1 L where c: "copy_chunks rf enc cs ?lo ?le sw = (None, ?lo\<lparr>le_buf := ?to\<rparr>, ?le\<lparr>le_buf := ?te\<rparr>, sw1)"
    "open_at (n + int (length L)) sw1"
    "stream_events (sse_frames sw1) = stream_events (sse_frames sw) @ numbered n (encoded enc L)"
    "of_stream ?lo L = map (log_entry rf ?lo) (done_lines (chunk_text True cs))"
    "of_stream ?le L = map (log_entry rf ?le) (done_lines (chunk_text False cs))"
    "list_all (\<lambda>l. ll_Stream l = ''stdout'' \<or> ll_Stream l = ''stderr'') L"
    "length L + length ?to + length ?te \<le> length (concat (map snd cs))"
    using copy_chunks_open [OF assms(1,2,3), of ?lo ?le cs rf] assms(4) init by auto
  let ?eo = "map (log_entry rf ?lo) (if ?to = [] then [] else [?to])"
  let ?ee = "map (log_entry rf ?le) (if ?te = [] then [] else [?te])"
  have b1: "0 \<le> n + int (length L)" "n + int (length L) + 1 < 2 ^ 63 - 1" using assms(3,4) c(7) by linarith+
  obtain sw2 where f: "log_Flush rf enc (?lo\<lparr>le_buf := ?to\<rparr>) sw1 = (None, ?lo\<lparr>le_buf := []\<rparr>, sw2)"
    "open_at (n + int (length (L @ ?eo))) sw2"
    "stream_events (sse_frames sw2) = stream_events (sse_frames sw1) @ numbered (n + int (length L)) (encoded enc ?eo)"
    by (rule log_Flush_open [OF c(2) assms(2) b1, of rf "?lo\<lparr>le_buf := ?to\<rparr>"]) (simp split: if_splits add: add.assoc)
  have b2: "0 \<le> n + int (length (L @ ?eo))" "n + int (length (L @ ?eo)) + 1 < 2 ^ 63 - 1" using assms(3,4) c(7) by auto
  obtain sw3 where g: "log_Flush rf enc (?le\<lparr>le_buf := ?te\<rparr>) sw2 = (None, ?le\<lparr>le_buf := []\<rparr>, sw3)"
    "stream_events (sse_frames sw3) = stream_events (sse_frames sw2) @ numbered (n + int (length (L @ ?eo))) (encoded enc ?ee)"
    by (rule log_Flush_open [OF f(2) assms(2) b2, of rf "?le\<lparr>le_buf := ?te\<rparr>"]) simp
  have "defaultFollowContainerLogs rf enc None cs None i ts sw = (None, sw3)"
    unfolding defaultFollowContainerLogs_def by (simp add: c(1) f(1) g(1))
  moreover have "stream_events (sse_frames sw3) = stream_events (sse_frames sw) @ numbered n (encoded enc (L @ ?eo @ ?ee))"
    using c(3) f(3) g(2) numbered_encoded [of n enc L "?eo @ ?ee"] numbered_encoded [of "n + int (length L)" enc ?eo ?ee]
    by (simp add: add.assoc)
  moreover have "filter (\<lambda>l. ll_Stream l = ''stdout'') (L @ ?eo @ ?ee) = map (line_entry rf i ''stdout'' ts) (text_lines (chunk_text True cs))"
    using c(4) by (simp add: of_stream_def init text_lines_def line_entry_def)
  moreover have "filter (\<lambda>l. ll_Stream l = ''stderr'') (L @ ?eo @ ?ee) = map (line_entry rf i ''stderr'' ts) (text_lines (chunk_text False cs))"
    using c(5) by (simp add: of_stream_def init text_lines_def line_entry_def)
  moreover have "list_all (\<lambda>l. ll_Stream l = ''stdout'' \<or> ll_Stream l = ''stderr'') (L @ ?eo @ ?ee)"
    using c(6) by (simp add: init)
  ultimately show ?thesis by blast
qed

theorem container_logs_lines_witness:
  "\<exists>sw' (sent :: log_line list). defaultFollowContainerLogs (\<lambda>_. None) (\<lambda>l. (''log'', Some (ll_Line l))) None
       [(True, ''a''), (False, ''e''), (True, ''b'' @ [CHR 0x0A] @ ''c'')] None ''web'' False
       \<lparr>sse_seq = 0, sse_frames = [], sse_plan = (\<lambda>_. ConnOpen), sse_tries = 0\<rparr> = (None, sw') \<and>
     stream_events (sse_frames sw') = numbered 0 (encoded (\<lambda>l. (''log'', Some (ll_Line l))) sent) \<and>
     map ll_Line (filter (\<lambda>l. ll_Stream l = ''stdout'') sent) = [''ab'', ''c''] \<and>
     map ll_Line (filter (\<lambda>l. ll_Stream l = ''stderr'') sent) = [''e'']"
proof -
  let ?sw = "\<lparr>sse_seq = 0, sse_frames = [], sse_plan = (\<lambda>_. ConnOpen), sse_tries = 0\<rparr> :: sse_writer"
  let ?cs = "[(True, ''a''), (False, ''e''), (True, ''b'' @ [CHR 0x0A] @ ''c'')]"
  let ?enc = "\<lambda>l :: log_line. (''log'', Some (ll_Line l))"
  have side: "open_at 0 ?sw" "enc_total ?enc" "(0 :: int) \<le> 0" "0 + int (length (concat (map snd ?cs))) + 2 < 2 ^ 63 - 1"
    by (simp_all add: open_at_def enc_total_def)
  have lines: "map ll_Line (map (line_entry (\<lambda>_. None) ''web'' ''stdout'' False) (text_lines (chunk_text True ?cs))) = [''ab'', ''c'']"
    "map ll_Line (map (line_entry (\<lambda>_. None) ''web'' ''stderr'' False) (text_lines (chunk_text False ?cs))) = [''e'']" by code_simp+
  obtain sw' sent where o: "defaultFollowContainerLogs (\<lambda>_. None) ?enc None ?cs None ''web'' False ?sw = (None, sw')"
    "stream_events (sse_frames sw') = stream_events (sse_frames ?sw) @ numbered 0 (encoded ?enc sent)"
    "filter (\<lambda>l. ll_Stream l = ''stdout'') sent = map (line_entry (\<lambda>_. None) ''web'' ''stdout'' False) (text_lines (chunk_text True ?cs))"
    "filter (\<lambda>l. ll_Stream l = ''stderr'') sent = map (line_entry (\<lambda>_. None) ''web'' ''stderr'' False) (text_lines (chunk_text False ?cs))"
    using container_logs_lines [OF side, of "\<lambda>_. None" "''web''" False] by blast
  have "stream_events (sse_frames ?sw) = []" by simp
  then show ?thesis
    by (intro exI [of _ sw'] exI [of _ sent]) (simp only: o lines append_Nil simp_thms)
qed

section \<open>Who may act\<close>

definition docker_permitted :: "docker_config \<Rightarrow> dk_call \<Rightarrow> dk_task \<Rightarrow> bool" where
  "docker_permitted cfg q t \<longleftrightarrow>
     Method (dc_request q) = ''POST'' \<and>
     (case t of
        ContainerTask j verb i \<Rightarrow> j = dc_jobID q \<and> verb \<in> set [''start'', ''stop'', ''restart''] \<and> slash \<notin> set i \<and>
          Path (dc_request q) = containers_path @ i @ slash # verb \<and> dk_Enabled cfg \<and> Permits (dk_Containers cfg) verb
      | CliTask j args \<Rightarrow> j = dc_jobID q \<and>
          ((\<exists>ref. args = [''pull'', ref] \<and> slash \<notin> set ref \<and> Path (dc_request q) = images_path @ ref @ ''/pull'' \<and>
              dk_Enabled cfg \<and> Permits (dk_Images cfg) ''pull'') \<or>
           (\<exists>project op. slash \<notin> set project \<and> Path (dc_request q) = compose_path @ project @ slash # op \<and>
              Permits (dk_Compose cfg) ''list'' \<and>
              (if op = ''up'' then args = up_args (Query (dc_request q) ''file'') project
               else op \<in> set [''down'', ''pull'', ''restart'', ''build''] \<and> Permits (dk_Compose cfg) op \<and>
                 args = [''compose'', ''-p'', project, op]))))"

lemma Permits_in: "Permits s op \<longleftrightarrow> ds_Enabled s \<and> op \<in> set (ds_Allow s)"
  by (auto simp: Permits_def list_ex_iff)

lemma route_parts_path:
  assumes "has_prefix path base" "route_parts path base = (x, action)" "action \<noteq> []"
  shows "path = base @ x @ slash # action" "slash \<notin> set x"
proof -
  let ?parts = "split_n 2 slash (trim_prefix path base)"
  have "length ?parts = 2" "?parts ! 0 = x" "?parts ! 1 = action"
    using assms(2,3) by (auto simp: route_parts_def Let_def split: if_splits)
  then show "path = base @ x @ slash # action" "slash \<notin> set x"
    using split_two [of slash "trim_prefix path base"] split_two_first [of "trim_prefix path base"]
      trim_prefix_join [OF assms(1)] by auto
qed

lemma routeContainer_task:
  assumes "routeContainer e cfg q s = (rep, s', t)" "has_prefix (Path (dc_request q)) containers_path"
  shows "(t = None \<and> s' = s) \<or> (\<exists>task. t = Some task \<and> docker_permitted cfg q task \<and>
     rep = DkReply (WriteJSON 202 (JobIs (dc_jobID q))) \<and> s' = NewJob (dc_jobID q) (dc_now q) s)"
proof -
  obtain x action where p: "route_parts (Path (dc_request q)) containers_path = (x, action)" by fastforce
  show ?thesis using assms(1) p route_parts_path [OF assms(2) p]
    by (auto simp: routeContainer_def Let_def dk_done_def dk_spawn_def docker_permitted_def Permits_in
        handleContainerStart_def handleContainerStop_def handleContainerRestart_def split: if_splits)
qed

lemma routeImage_task:
  assumes "routeImage e cfg q s = (rep, s', t)" "has_prefix (Path (dc_request q)) images_path"
  shows "(t = None \<and> s' = s) \<or> (\<exists>task. t = Some task \<and> docker_permitted cfg q task \<and>
     rep = DkReply (WriteJSON 202 (JobIs (dc_jobID q))) \<and> s' = NewJob (dc_jobID q) (dc_now q) s)"
proof -
  obtain x action where p: "route_parts (Path (dc_request q)) images_path = (x, action)" by fastforce
  show ?thesis using assms(1) p route_parts_path [OF assms(2) p]
    by (auto simp: routeImage_def Let_def dk_done_def dk_spawn_def docker_permitted_def Permits_in handleImagePull_def split: if_splits)
qed

lemma permitted_compose:
  assumes "Method (dc_request q) = ''POST''" "slash \<notin> set x" "Path (dc_request q) = compose_path @ x @ slash # op"
    and "Permits (dk_Compose cfg) ''list''"
    and "if op = ''up'' then args = up_args (Query (dc_request q) ''file'') x
      else op \<in> set [''down'', ''pull'', ''restart'', ''build''] \<and> Permits (dk_Compose cfg) op \<and> args = [''compose'', ''-p'', x, op]"
  shows "docker_permitted cfg q (CliTask (dc_jobID q) args)"
  using assms unfolding docker_permitted_def dk_task.case by blast

lemma compose_action_task:
  assumes "compose_action cfg q op x s = (rep, s', t)"
  shows "(t = None \<and> s' = s) \<or> (t = Some (CliTask (dc_jobID q) [''compose'', ''-p'', x, op]) \<and> Method (dc_request q) = ''POST'' \<and>
     Permits (dk_Compose cfg) op \<and> rep = DkReply (WriteJSON 202 (JobIs (dc_jobID q))) \<and> s' = NewJob (dc_jobID q) (dc_now q) s)"
  using assms by (auto simp: compose_action_def dk_done_def dk_spawn_def Permits_in split: if_splits)

lemma handleComposeUp_task:
  assumes "handleComposeUp cfg q x s = (rep, s', t)"
  shows "(t = None \<and> s' = s) \<or> (t = Some (CliTask (dc_jobID q) (up_args (Query (dc_request q) ''file'') x)) \<and>
     Method (dc_request q) = ''POST'' \<and> rep = DkReply (WriteJSON 202 (JobIs (dc_jobID q))) \<and> s' = NewJob (dc_jobID q) (dc_now q) s)"
  using assms by (auto simp: handleComposeUp_def dk_done_def dk_spawn_def split: if_splits)

lemma routeCompose_task:
  assumes "routeCompose e cfg q s = (rep, s', t)" "has_prefix (Path (dc_request q)) compose_path"
  shows "(t = None \<and> s' = s) \<or> (\<exists>task. t = Some task \<and> docker_permitted cfg q task \<and>
     rep = DkReply (WriteJSON 202 (JobIs (dc_jobID q))) \<and> s' = NewJob (dc_jobID q) (dc_now q) s)"
proof -
  obtain x op where p: "route_parts (Path (dc_request q)) compose_path = (x, op)" by fastforce
  let ?ops = "[''down'', ''pull'', ''restart'', ''build'']"
  have "(t = None \<and> s' = s) \<or> (Permits (dk_Compose cfg) ''list'' \<and>
      (op = ''up'' \<and> handleComposeUp cfg q x s = (rep, s', t) \<or> op \<in> set ?ops \<and> compose_action cfg q op x s = (rep, s', t)))"
    using assms(1) p by (auto simp: routeCompose_def Let_def dk_done_def Permits_in
        handleComposeDown_def handleComposePull_def handleComposeRestart_def handleComposeBuild_def split: if_splits)
  then consider "t = None" "s' = s"
    | "Permits (dk_Compose cfg) ''list''" "op = ''up''" "handleComposeUp cfg q x s = (rep, s', t)"
    | "Permits (dk_Compose cfg) ''list''" "op \<in> set ?ops" "compose_action cfg q op x s = (rep, s', t)" by blast
  then show ?thesis
  proof cases
    case 1 then show ?thesis by simp
  next
    case 2
    then show ?thesis using handleComposeUp_task [OF 2(3)] route_parts_path [OF assms(2) p] permitted_compose [of q x op cfg] by auto
  next
    case 3
    then have "op \<noteq> []" "op \<noteq> ''up''" by auto
    then show ?thesis using 3(1,2) compose_action_task [OF 3(3)] route_parts_path [OF assms(2) p] permitted_compose [of q x op cfg] by auto
  qed
qed


definition demo_docker :: docker_config where
  "demo_docker = docker_zero\<lparr>dk_Enabled := True, dk_Compose := \<lparr>ds_Enabled = True, ds_Allow = [''list'']\<rparr>\<rparr>"

definition demo_docker_env :: docker_env where
  "demo_docker_env = \<lparr>sdk_ping = None, sdk_containers = None, sdk_container = (\<lambda>_. None), sdk_images = None, sdk_image = (\<lambda>_. None),
     sdk_image_remove = (\<lambda>_. False), sdk_nodes = None, sdk_services = None, run_docker = (\<lambda>_. ([], None)), projects_decode = (\<lambda>_. None)\<rparr>"

definition demo_docker_call :: "string \<Rightarrow> dk_call" where
  "demo_docker_call path = \<lparr>dc_request = \<lparr>Method = ''POST'', Path = path, Header = (\<lambda>_. []), Query = (\<lambda>_. []), Body = [], Caller = None\<rparr>,
     dc_jobID = ''j'', dc_now = 5\<rparr>"


section \<open>The end of a docker job\<close>

fun dk_job :: "dk_task \<Rightarrow> string" where
  "dk_job (CliTask j args) = j"
| "dk_job (ContainerTask j verb i) = j"

text \<open>
  A docker job ends: When the task of an accepted job is finished, whatever other jobs did meanwhile and do after, a poll until
  the result expires finds one final result: completed exactly if docker reported no error, with the command's output
  as its standard output, or as its standard error beside the reported error.
\<close>

theorem docker_job_outcome:
  assumes "distinct (map fst s)" "list_all (\<lambda>ev. \<not> touches (dk_job t) ev) after" "\<not> list_ex (expires later) after"
  shows "\<exists>res. GetResult (dk_job t) (fold job_apply after (dk_finish t out later (fold job_apply before (NewJob (dk_job t) now s)))) = Some res \<and>
     jr_JobID res = dk_job t \<and> isTerminalJobStatus (jr_Status res) \<and> (jr_Status res = JobCompleted \<longleftrightarrow> snd out = None) \<and>
     (case t of ContainerTask j verb i \<Rightarrow> jr_Stdout res = [] \<and> jr_Stderr res = []
      | CliTask j args \<Rightarrow> (if snd out = None then jr_Stdout else jr_Stderr) res = fst out)"
proof -
  let ?res = "case t of CliTask j args \<Rightarrow> cli_result j out | ContainerTask j verb i \<Rightarrow> container_result j (snd out)"
  have res: "\<And>s. dk_finish t out later s = StoreResult (dk_job t) ?res later s"
    "jr_Status ?res = (if snd out = None then JobCompleted else JobFailed)"
    "(case t of ContainerTask j verb i \<Rightarrow> jr_Stdout ?res = [] \<and> jr_Stderr ?res = []
      | CliTask j args \<Rightarrow> (if snd out = None then jr_Stdout else jr_Stderr) ?res = fst out)"
    by (cases t; cases out; auto simp: cli_result_def container_result_def failed_result_def completed_result_def
        accepted_result_def split: option.splits)+
  from job_finished [OF assms, of ?res before now] res(2,3) show ?thesis
    unfolding res(1) by (cases t) (auto simp: isTerminalJobStatus_def)
qed

theorem docker_job_outcome_witness:
  "\<exists>res. GetResult ''j'' (fold job_apply [EvictEv 10] (dk_finish (CliTask ''j'' [''pull'', ''x'']) (''gone'', Some ''status 1'') 9
       (fold job_apply [NewEv ''k'' 7] (NewJob ''j'' 5 [])))) = Some res \<and>
     jr_Status res \<noteq> JobCompleted \<and> jr_Stderr res = ''gone''"
proof -
  have "\<not> list_ex (expires 9) [EvictEv 10]" by (simp add: jobTTL_def)
  then show ?thesis
    using docker_job_outcome [of "[]" "CliTask ''j'' [''pull'', ''x'']" "[EvictEv 10]" 9 "(''gone'', Some ''status 1'')" "[NewEv ''k'' 7]" 5]
    by auto
qed

end
