(* ===== verification/Spec2Isabelle.thy ===== *)
theory Spec2Isabelle
  imports Mux Command RequestLog Vars Files Metrics Systemd Docker
begin

text \<open>
  A verification library for tailkitd, the daemon that runs on every node of a tailnet and offers its administration,
  file exchange, variables, service registry, invitations, provisioning, and its Docker, systemd and metrics integrations over HTTP, and
  for the installer that sets the daemon up. The sources are under \<^verbatim>\<open>src/cmd\<close> and \<^verbatim>\<open>src/internal\<close>; each theory below opens with the
  files it models.

  \<^bold>\<open>How the program is put together.\<close> \<^verbatim>\<open>cmd/tailkitd/run.go\<close> loads the integration files of \<^verbatim>\<open>internal/config\<close>, bootstraps
  the administration state (\<^verbatim>\<open>internal/admin\<close>), decides who is admin, opens the epoch counter (\<^verbatim>\<open>internal/state\<close>), the access
  grants, the service registry and the host configuration, each of which watches its directory, and mounts one handler per
  component; the service manager starts it after \<^verbatim>\<open>internal/setup\<close> has put its files there. The administration API (\<^verbatim>\<open>internal/api/admin.go\<close>) guards every mutation by the admin key, the epoch and
  the grants, runs the operation, and increments the epoch. All persistent state is files below \<^verbatim>\<open>/etc/tailkitd\<close> and
  \<^verbatim>\<open>/var/lib/tailkitd\<close>, most of them replaced through \<^verbatim>\<open>utils.AtomicWrite\<close>.

  \<^bold>\<open>The ground.\<close>
  \<^item> \<open>Prelude\<close>: lemma collections and generic lemmas on lists, maps and sorting; a result is a sum, \<open>Inl\<close> an error.
  \<^item> \<open>GoPath\<close>, \<open>GoNum\<close>, \<open>GoBase64\<close>: the standard library functions the code relies on (\<^verbatim>\<open>path/filepath\<close>, \<^verbatim>\<open>strings\<close>, \<^verbatim>\<open>strconv\<close> with its 64-bit
    bounds, \<^verbatim>\<open>hex\<close> and \<^verbatim>\<open>base64\<close>), with their inverse and idempotence laws. \<open>GoNet\<close> and \<open>GoIp\<close> add \<^verbatim>\<open>net.ParseIP\<close> and \<^verbatim>\<open>IP.String\<close>,
    which undo each other, the fields of a line and the line scanner with its limit.
  \<^item> \<open>World\<close>: the file system. A state holds files with data and mode, directories, open temporary files and a fault plan that
    may make any call fail or stop the process there; every system call is a function on it. \<open>AtomicWrite\<close> is modelled on it and
    proved all-or-nothing under every fault and crash.
  \<^item> \<open>Http\<close>: requests, responses, the JSON and error writers, the classification of the request log.

  \<^bold>\<open>Administration.\<close>
  \<^item> \<open>Epoch\<close> (\<^verbatim>\<open>internal/state/epoch.go\<close>): the counter, its file, validation and increment.
  \<^item> \<open>ConfDir\<close>: what the registries share: loading a directory of files, and the locale \<open>watched_dir\<close> of a watch loop with a
    debounce timer as a step relation. \<open>Access\<close> (\<^verbatim>\<open>internal/access\<close>), \<open>Services\<close> (\<^verbatim>\<open>internal/services\<close>) and \<open>HostConfig\<close>
    (\<^verbatim>\<open>internal/config/host.go\<close>) interpret it.
  \<^item> \<open>AdminBootstrap\<close> (\<^verbatim>\<open>internal/admin\<close>, \<^verbatim>\<open>cmd/tailkitd/hostname.go\<close> and the election in \<^verbatim>\<open>run.go\<close>): key and fence files, host name
    resolution, and who becomes admin.
  \<^item> \<open>AdminApi\<close> (\<^verbatim>\<open>internal/api/admin.go, access.go\<close>): every endpoint, the guard and the commit. \<open>AdminProps\<close> holds the properties that
    span them: what can change a node, replay, transfer of the role between two nodes, the file endpoint.

  \<^bold>\<open>Identity, invitations, provisioning.\<close> \<open>Identity\<close> (\<^verbatim>\<open>internal/identity\<close>), \<open>Invite\<close> (\<^verbatim>\<open>internal/invite, api/invites.go\<close>; the claim store
  as a transition system with crashes and restarts), \<open>Provision\<close> (\<^verbatim>\<open>internal/provision, api/provision.go\<close>; verification and
  installation of an artifact, with the environment acting in between).

  \<^bold>\<open>Configuration.\<close> \<open>Config\<close> (the five integration files and their validation; the locale \<open>config_loader\<close> is what their loaders
  promise), \<open>Logging\<close> (defaults, overrides, precedence). \<open>Replace\<close> is the unsynced replacement of a file that the variable store and the
  file exchange each spell out; the locale \<open>gated\<close> of \<open>Http\<close> is a handler whose refusals change nothing.

  \<^bold>\<open>Data on the node.\<close>
  \<^item> \<open>Vars\<close> (\<^verbatim>\<open>internal/vars\<close>): the store refines a map per scope, all or nothing; the endpoints' permission checks; the rendered
    shell text read back by a POSIX word reader.
  \<^item> \<open>Files\<close> (\<^verbatim>\<open>internal/files\<close>): uploads, reads and listings under rules, and the tool inboxes.
  \<^item> \<open>Tools\<close> (\<^verbatim>\<open>internal/tools, internal/exec/registry.go\<close>): the tool directory, version comparison and the command index.

  \<^bold>\<open>Streams and jobs.\<close> \<open>Sse\<close> (\<^verbatim>\<open>internal/sse\<close>): the event writer and its handler as a transition system. \<open>Jobs\<close> (\<^verbatim>\<open>internal/exec/jobs.go,
  handlers.go\<close>): the store with eviction, polling and the resumable stream.

  \<^bold>\<open>Integrations.\<close> Each is a client that may be disabled, whose routes are gated by its configuration file.
  \<^item> \<open>Ports\<close> (\<^verbatim>\<open>internal/metrics/ports.go\<close>): the kernel's socket tables parsed into listening ports, the cached snapshot, and the port
    stream: applying its events to the first snapshot gives the node's current ports. \<open>Metrics\<close>: the endpoints, samples and streams.
  \<^item> \<open>Systemd\<close> (\<^verbatim>\<open>internal/systemd\<close>): unit routes and background jobs, and the journal, one shot and followed.
  \<^item> \<open>Docker\<close> (\<^verbatim>\<open>internal/docker\<close>): routes, tasks and the event, statistics and log streams; the log stream's lines are those of the
    demultiplexed output.

  \<^bold>\<open>The installer.\<close> \<open>Skeletons\<close> (the files of \<^verbatim>\<open>internal/setup/configs.go\<close>), \<open>Installer\<close> (\<open>Install\<close>, \<open>Uninstall\<close>, \<open>Verify\<close> on a machine of
  files, owners and commands run so far), \<open>InstallerProps\<close> (under every fault and crash: what is written, what is kept, and that the
  service starts only after a verification without errors; the wait for it ends), \<open>InstallerRun\<close> (without failures: a fresh
  machine gets verified and started, and is empty again after \<open>Uninstall\<close>).

  \<^bold>\<open>The daemon as a whole.\<close>
  \<^item> \<open>HostApi\<close> (\<^verbatim>\<open>internal/api/host.go\<close> and the probe of it), \<open>Logger\<close> (\<^verbatim>\<open>internal/logger\<close>).
  \<^item> \<open>Startup\<close>: the steps of \<open>cmdRun\<close> in order, composed of the models of the components they open. \<open>StartupProps\<close>: what holds of a
    daemon that starts, and what starting changes on disk. \<open>StartupRun\<close>: the daemon starts on what the installer left and on what
    \<open>Verify\<close> found good.
  \<^item> \<open>Mux\<close>: the route table and the matching of \<^verbatim>\<open>http.ServeMux\<close>, refined from a choice among all matching patterns; and what a
    request from the network, through authentication and router, can change.
  \<^item> \<open>RequestLog\<close> (\<^verbatim>\<open>helpers/requestlog.go\<close>): the response recorder is transparent, and the line logged states what was sent.
  \<^item> \<open>Command\<close>: the subcommands of \<^verbatim>\<open>cmd/tailkitd\<close> and their exit codes.

  \<^bold>\<open>Parameters.\<close> Code outside the repository is an argument: the JSON and TOML decoders and encoders, SHA-256, Ed25519 and the random
  source, the Tailscale status, the shared client library's rule matcher (\<^verbatim>\<open>MatchPathRule\<close>, \<^verbatim>\<open>Permits\<close>), the Docker and systemd clients and the measuring library,
  other programs and the user database of the installer, the clock and fresh ids. Where
  a property needs a law of them (decoding what was encoded, a signature that verifies) it is a premise, and the
  witness instantiates it.

  \<^bold>\<open>Bounds.\<close> Epochs, sequence numbers and fences are 64-bit integers and wrap (\<open>wrap64\<close>); loops are structural recursion over
  finite lists, so there is no fuel. A polling loop gets the list of what it observes; where that ends the
  request is cancelled. The installer's wait for the service recurs on the seconds left of its minute, which gives at most 61 queries.
  An address has 4 or 16 bytes and a port 16 bits; they are kept as words.

  \<^bold>\<open>Conventions.\<close> Log output is not modelled. A nil slice is \<open>None\<close> where the difference is visible in JSON. Dashes and other non-ASCII
  characters of messages are replaced by ASCII ones.

  \<^bold>\<open>Not modelled.\<close> The construction of the Docker client and the wrapper of its command (\<^verbatim>\<open>internal/docker/client.go, run.go\<close>): they only call the
  library, whose answers are parameters. Text printed for a person: the installer's progress, the report of \<open>Verify\<close>, help and
  completion scripts. Flag parsing, which is the command library's. The watchdog and readiness messages to systemd, and
  the order of the goroutines around them. In the router: percent-escaped paths, the method CONNECT and redirects to clean paths, which
  no client of the daemon uses. The duration in the request log.
\<close>

end
